theory Spec2Isabelle
  imports Complex_Main "HOL-Library.Word"
begin

unbundle bit_operations_syntax

section \<open>Machine values\<close>

text \<open>
  \<open>int16\<close> is the C type of every band sample; \<open>uchar\<close> the type of the mask bytes.
  A sample is read as a signed number with \<open>sint\<close>; C promotes it to \<open>int\<close> before
  any arithmetic, so sums and differences of samples are computed on \<open>int\<close>.
\<close>

type_synonym int16 = "16 word"
type_synonym uchar = "8 word"

text \<open>
  C \<open>float\<close>/\<open>double\<close> values. Finite values are exact reals (rounding is not
  modelled); the special values are kept, because the code divides by a counter that can
  be zero: \<open>0.0 / 0.0\<close> is \<open>NaN\<close>, and every ordered comparison with \<open>NaN\<close> is false.
\<close>

datatype cfloat = Fin real | PInf | NInf | NaN

fun fneg :: "cfloat \<Rightarrow> cfloat" where
  "fneg (Fin x) = Fin (- x)"
| "fneg PInf = NInf"
| "fneg NInf = PInf"
| "fneg NaN = NaN"

fun fadd :: "cfloat \<Rightarrow> cfloat \<Rightarrow> cfloat" where
  "fadd NaN b = NaN"
| "fadd a NaN = NaN"
| "fadd (Fin x) (Fin y) = Fin (x + y)"
| "fadd PInf NInf = NaN"
| "fadd NInf PInf = NaN"
| "fadd PInf b = PInf"
| "fadd a PInf = PInf"
| "fadd NInf b = NInf"
| "fadd a NInf = NInf"

definition fsub :: "cfloat \<Rightarrow> cfloat \<Rightarrow> cfloat" where
  "fsub a b = fadd a (fneg b)"

fun fmul :: "cfloat \<Rightarrow> cfloat \<Rightarrow> cfloat" where
  "fmul NaN b = NaN"
| "fmul a NaN = NaN"
| "fmul (Fin x) (Fin y) = Fin (x * y)"
| "fmul (Fin x) PInf = (if x = 0 then NaN else if 0 < x then PInf else NInf)"
| "fmul (Fin x) NInf = (if x = 0 then NaN else if 0 < x then NInf else PInf)"
| "fmul PInf (Fin y) = (if y = 0 then NaN else if 0 < y then PInf else NInf)"
| "fmul NInf (Fin y) = (if y = 0 then NaN else if 0 < y then NInf else PInf)"
| "fmul PInf PInf = PInf"
| "fmul NInf NInf = PInf"
| "fmul PInf NInf = NInf"
| "fmul NInf PInf = NInf"

fun fdiv :: "cfloat \<Rightarrow> cfloat \<Rightarrow> cfloat" where
  "fdiv NaN b = NaN"
| "fdiv a NaN = NaN"
| "fdiv (Fin x) (Fin y) =
     (if y \<noteq> 0 then Fin (x / y)
      else if x = 0 then NaN else if 0 < x then PInf else NInf)"
| "fdiv (Fin x) PInf = Fin 0"
| "fdiv (Fin x) NInf = Fin 0"
| "fdiv PInf (Fin y) = (if 0 \<le> y then PInf else NInf)"
| "fdiv NInf (Fin y) = (if 0 \<le> y then NInf else PInf)"
| "fdiv a b = NaN"

fun fabs :: "cfloat \<Rightarrow> cfloat" where
  "fabs (Fin x) = Fin \<bar>x\<bar>"
| "fabs PInf = PInf"
| "fabs NInf = PInf"
| "fabs NaN = NaN"

fun flt :: "cfloat \<Rightarrow> cfloat \<Rightarrow> bool" where
  "flt NaN b = False"
| "flt a NaN = False"
| "flt (Fin x) (Fin y) = (x < y)"
| "flt PInf b = False"
| "flt a PInf = True"
| "flt a NInf = False"
| "flt NInf b = True"

definition fgt :: "cfloat \<Rightarrow> cfloat \<Rightarrow> bool" where
  "fgt a b = flt b a"

definition feq :: "cfloat \<Rightarrow> cfloat \<Rightarrow> bool" where
  "feq a b = (a \<noteq> NaN \<and> b \<noteq> NaN \<and> a = b)"

definition fne :: "cfloat \<Rightarrow> cfloat \<Rightarrow> bool" where
  "fne a b = (\<not> feq a b)"

definition fle :: "cfloat \<Rightarrow> cfloat \<Rightarrow> bool" where
  "fle a b = (flt a b \<or> feq a b)"

definition fge :: "cfloat \<Rightarrow> cfloat \<Rightarrow> bool" where
  "fge a b = fle b a"

text \<open>The conversions \<open>(float) i\<close> of an \<open>int\<close> and of an \<open>int16\<close> sample.\<close>

definition float_of_int :: "int \<Rightarrow> cfloat" where
  "float_of_int i = Fin (real_of_int i)"

definition float_of_int16 :: "int16 \<Rightarrow> cfloat" where
  "float_of_int16 v = float_of_int (sint v)"

section \<open>Constants of the headers\<close>

text \<open>
  Modelled from the spec: \<open>const.h\<close> and \<open>cfmask.h\<close> are not among the sources. The
  spec (section 6) fixes the bit layout of \<open>pixel_mask\<close> (bit 0 FILL, bit 1 CLOUD,
  bit 2 SHADOW, bit 3 SNOW, bit 4 WATER), the values of \<open>conf_mask\<close> (LOW 1, MED 2,
  HIGH 3, FILL_PIXEL 255), \<open>FILL_PIXEL = -9999\<close> and \<open>MINSIGMA = 1e-7\<close>; the band
  order is BLUE, GREEN, RED, NIR, SWIR1, SWIR2 (section 3). The four flags of
  \<open>clear_mask\<close> are named without values (section 3); they are taken as four distinct
  bits, and \<open>CF_CLEAR_NONE\<close> as 0 (section 4.1).
\<close>

definition FILL_PIXEL :: int where "FILL_PIXEL = - 9999"
definition MINSIGMA :: cfloat where "MINSIGMA = Fin (1 / 10000000)"

definition CF_FILL_BIT :: uchar where "CF_FILL_BIT = 1"
definition CF_CLOUD_BIT :: uchar where "CF_CLOUD_BIT = 2"
definition CF_SHADOW_BIT :: uchar where "CF_SHADOW_BIT = 4"
definition CF_SNOW_BIT :: uchar where "CF_SNOW_BIT = 8"
definition CF_WATER_BIT :: uchar where "CF_WATER_BIT = 16"

definition CF_CLEAR_NONE :: uchar where "CF_CLEAR_NONE = 0"
definition CF_CLEAR_FILL_BIT :: uchar where "CF_CLEAR_FILL_BIT = 1"
definition CF_CLEAR_BIT :: uchar where "CF_CLEAR_BIT = 2"
definition CF_CLEAR_LAND_BIT :: uchar where "CF_CLEAR_LAND_BIT = 4"
definition CF_CLEAR_WATER_BIT :: uchar where "CF_CLEAR_WATER_BIT = 8"

definition CLOUD_CONFIDENCE_LOW :: uchar where "CLOUD_CONFIDENCE_LOW = 1"
definition CLOUD_CONFIDENCE_MED :: uchar where "CLOUD_CONFIDENCE_MED = 2"
definition CLOUD_CONFIDENCE_HIGH :: uchar where "CLOUD_CONFIDENCE_HIGH = 3"
definition CF_FILL_PIXEL :: uchar where "CF_FILL_PIXEL = 255"

definition BI_BLUE :: nat where "BI_BLUE = 0"
definition BI_GREEN :: nat where "BI_GREEN = 1"
definition BI_RED :: nat where "BI_RED = 2"
definition BI_NIR :: nat where "BI_NIR = 3"
definition BI_SWIR_1 :: nat where "BI_SWIR_1 = 4"
definition BI_SWIR_2 :: nat where "BI_SWIR_2 = 5"
definition BI_REFL_BAND_COUNT :: nat where "BI_REFL_BAND_COUNT = 6"

text \<open>\<open>pixel_mask[i] & BIT\<close> as a C truth value.\<close>

definition bit_set :: "uchar \<Rightarrow> uchar \<Rightarrow> bool" where
  "bit_set m b = (m AND b \<noteq> 0)"

section \<open>The input structure\<close>

text \<open>
  \<open>Input_t\<close>: the image size, the band count, the row buffers the readers fill
  (\<open>buf[ib][col]\<close>, \<open>therm_buf[col]\<close>) and the saturation metadata. A row buffer is
  a function of the column; the code reads and writes columns below \<open>size_s\<close> only.
\<close>

record Input_t =
  size_l :: nat
  size_s :: nat
  nband :: nat
  buf :: "nat \<Rightarrow> nat \<Rightarrow> int16"
  therm_buf :: "nat \<Rightarrow> int16"
  satu_value_ref :: "nat \<Rightarrow> int16"
  satu_value_max :: "nat \<Rightarrow> int16"
  therm_satu_value_ref :: int16
  therm_satu_value_max :: int16

text \<open>Saturation substitution, in place in the row buffer (lines 159-165).\<close>

definition substitute_band :: "nat \<Rightarrow> nat \<Rightarrow> Input_t \<Rightarrow> Input_t" where
  "substitute_band col ib inp =
     (if buf inp ib col = satu_value_ref inp ib
      then inp\<lparr>buf := (buf inp)(ib := (buf inp ib)(col := satu_value_max inp ib))\<rparr>
      else inp)"

definition substitute_bands :: "nat \<Rightarrow> nat \<Rightarrow> Input_t \<Rightarrow> Input_t" where
  "substitute_bands n col inp = fold (substitute_band col) [0..<n] inp"

definition substitute_therm :: "nat \<Rightarrow> Input_t \<Rightarrow> Input_t" where
  "substitute_therm col inp =
     (if therm_buf inp col = therm_satu_value_ref inp
      then inp\<lparr>therm_buf := (therm_buf inp)(col := therm_satu_value_max inp)\<rparr>
      else inp)"

section \<open>Pass 1: per-pixel spectral classification\<close>

text \<open>The fill test of lines 171-177, on the row buffer after substitution.\<close>

definition is_fill :: "Input_t \<Rightarrow> nat \<Rightarrow> bool" where
  "is_fill inp col =
     (sint (therm_buf inp col) \<le> FILL_PIXEL
      \<or> sint (buf inp BI_BLUE col) = FILL_PIXEL
      \<or> sint (buf inp BI_GREEN col) = FILL_PIXEL
      \<or> sint (buf inp BI_RED col) = FILL_PIXEL
      \<or> sint (buf inp BI_NIR col) = FILL_PIXEL
      \<or> sint (buf inp BI_SWIR_1 col) = FILL_PIXEL
      \<or> sint (buf inp BI_SWIR_2 col) = FILL_PIXEL)"

text \<open>NDVI and NDSI (lines 185-203, and again lines 617-636).\<close>

definition ndvi_of :: "Input_t \<Rightarrow> nat \<Rightarrow> cfloat" where
  "ndvi_of inp col =
     (if sint (buf inp BI_RED col) + sint (buf inp BI_NIR col) \<noteq> 0
      then fdiv (float_of_int (sint (buf inp BI_NIR col) - sint (buf inp BI_RED col)))
                (float_of_int (sint (buf inp BI_NIR col) + sint (buf inp BI_RED col)))
      else Fin (1 / 100))"

definition ndsi_of :: "Input_t \<Rightarrow> nat \<Rightarrow> cfloat" where
  "ndsi_of inp col =
     (if sint (buf inp BI_GREEN col) + sint (buf inp BI_SWIR_1 col) \<noteq> 0
      then fdiv (float_of_int (sint (buf inp BI_GREEN col) - sint (buf inp BI_SWIR_1 col)))
                (float_of_int (sint (buf inp BI_GREEN col) + sint (buf inp BI_SWIR_1 col)))
      else Fin (1 / 100))"

text \<open>The mean of the visible bands and the whiteness quotient (lines 244-253).\<close>

definition visi_mean_of :: "Input_t \<Rightarrow> nat \<Rightarrow> cfloat" where
  "visi_mean_of inp col =
     fdiv (float_of_int (sint (buf inp BI_BLUE col) + sint (buf inp BI_GREEN col)
                         + sint (buf inp BI_RED col)))
          (Fin 3)"

definition whiteness_quotient :: "Input_t \<Rightarrow> nat \<Rightarrow> cfloat \<Rightarrow> cfloat" where
  "whiteness_quotient inp col visi_mean =
     fdiv (fadd (fadd (fabs (fsub (float_of_int16 (buf inp BI_BLUE col)) visi_mean))
                      (fabs (fsub (float_of_int16 (buf inp BI_GREEN col)) visi_mean)))
                (fabs (fsub (float_of_int16 (buf inp BI_RED col)) visi_mean)))
          visi_mean"

text \<open>The visible-band saturation test (lines 266-273, and again lines 661-668).\<close>

definition visible_saturated :: "Input_t \<Rightarrow> nat \<Rightarrow> bool" where
  "visible_saturated inp col =
     (sint (buf inp BI_BLUE col) \<ge> sint (satu_value_max inp BI_BLUE) - 1
      \<or> sint (buf inp BI_GREEN col) \<ge> sint (satu_value_max inp BI_GREEN) - 1
      \<or> sint (buf inp BI_RED col) \<ge> sint (satu_value_max inp BI_RED) - 1)"

definition hot_of :: "Input_t \<Rightarrow> nat \<Rightarrow> cfloat" where
  "hot_of inp col =
     fsub (fsub (float_of_int16 (buf inp BI_BLUE col))
                (fmul (Fin (1 / 2)) (float_of_int16 (buf inp BI_RED col))))
          (Fin 800)"

text \<open>
  The classification of one non-fill pixel (lines 185-312): the byte of \<open>pixel_mask\<close>
  and the variable \<open>whiteness\<close> go in and come out. \<open>whiteness\<close> is a variable of the
  whole function: it is assigned only inside the cloud branch or by the saturation
  override, and otherwise keeps the value the previous pixel left.
\<close>

definition set_bit_if :: "bool \<Rightarrow> uchar \<Rightarrow> uchar \<Rightarrow> uchar" where
  "set_bit_if c b m = (if c then m OR b else m AND NOT b)"

definition classify_pixel :: "Input_t \<Rightarrow> nat \<Rightarrow> uchar \<Rightarrow> cfloat \<Rightarrow> uchar \<times> cfloat" where
  "classify_pixel inp col pm0 whiteness0 =
     (let ndvi = ndvi_of inp col;
          ndsi = ndsi_of inp col;
          pm1 = set_bit_if
                  (flt (fsub ndsi (Fin (8 / 10))) MINSIGMA
                   \<and> flt (fsub ndvi (Fin (8 / 10))) MINSIGMA
                   \<and> sint (buf inp BI_SWIR_2 col) > 300
                   \<and> sint (therm_buf inp col) < 2700)
                  CF_CLOUD_BIT pm0;
          pm2 = set_bit_if
                  (fgt (fsub ndsi (Fin (15 / 100))) MINSIGMA
                   \<and> sint (therm_buf inp col) < 1000
                   \<and> sint (buf inp BI_NIR col) > 1100
                   \<and> sint (buf inp BI_GREEN col) > 1000)
                  CF_SNOW_BIT pm1;
          pm3 = set_bit_if
                  ((flt (fsub ndvi (Fin (1 / 100))) MINSIGMA
                    \<and> sint (buf inp BI_NIR col) < 1100)
                   \<or> (flt (fsub ndvi (Fin (1 / 10))) MINSIGMA
                       \<and> fgt ndvi MINSIGMA
                       \<and> sint (buf inp BI_NIR col) < 500))
                  CF_WATER_BIT pm2;
          whiteness1 =
            (if bit_set pm3 CF_CLOUD_BIT
             then (let visi_mean = visi_mean_of inp col
                   in if fne visi_mean (Fin 0)
                      then whiteness_quotient inp col visi_mean
                      else Fin 100)
             else whiteness0);
          satu_bv = (if visible_saturated inp col then (1::int) else 0);
          whiteness2 = (if visible_saturated inp col then Fin 0 else whiteness1);
          pm4 = set_bit_if
                  (bit_set pm3 CF_CLOUD_BIT
                   \<and> flt (fsub whiteness2 (Fin (7 / 10))) MINSIGMA)
                  CF_CLOUD_BIT pm3;
          hot = hot_of inp col;
          pm5 = set_bit_if
                  (bit_set pm4 CF_CLOUD_BIT \<and> (fgt hot MINSIGMA \<or> satu_bv = 1))
                  CF_CLOUD_BIT pm4;
          pm6 = (if bit_set pm5 CF_CLOUD_BIT \<and> buf inp BI_SWIR_1 col \<noteq> 0
                 then set_bit_if
                        (fgt (fsub (fdiv (float_of_int16 (buf inp BI_NIR col))
                                         (float_of_int16 (buf inp BI_SWIR_1 col)))
                                   (Fin (75 / 100)))
                             MINSIGMA)
                        CF_CLOUD_BIT pm5
                 else pm5 AND NOT CF_CLOUD_BIT)
      in (pm6, whiteness2))"

section \<open>The collaborators\<close>

text \<open>
  The row readers, the percentile routines, the flood fill and the allocator are not
  part of this file of the repository; the operation is modelled for any behaviour of
  theirs. Each may fail. A reader is asked for every row once per pass, so its answer
  is a function of the pass, the band and the row (nothing is assumed about two passes
  reading the same data). \<open>prctile\<close> and \<open>prctile2\<close> take the samples, their number,
  the minimum, the maximum and the percentage.
\<close>

datatype pass = P1 | P2 | P3 | P4 | P5 | P6

datatype buffer =
    B_clear_mask | B_f_temp | B_f_wtemp | B_wfinal_prob | B_final_prob | B_prob | B_wprob
  | B_nir | B_swir1 | B_nir_data | B_swir1_data | B_filled_nir_data | B_filled_swir1_data

record collab =
  GetInputLine :: "pass \<Rightarrow> nat \<Rightarrow> nat \<Rightarrow> (nat \<Rightarrow> int16) option"
  GetInputThermLine :: "pass \<Rightarrow> nat \<Rightarrow> (nat \<Rightarrow> int16) option"
  prctile :: "int16 list \<Rightarrow> nat \<Rightarrow> int16 \<Rightarrow> int16 \<Rightarrow> cfloat \<Rightarrow> cfloat option"
  prctile2 :: "cfloat list \<Rightarrow> nat \<Rightarrow> cfloat \<Rightarrow> cfloat \<Rightarrow> cfloat \<Rightarrow> cfloat option"
  fill_local_minima_in_image ::
    "string \<Rightarrow> (nat \<Rightarrow> int16) \<Rightarrow> nat \<Rightarrow> nat \<Rightarrow> cfloat \<Rightarrow> (nat \<Rightarrow> int16) option"
  alloc_succeeds :: "buffer \<Rightarrow> bool"

text \<open>
  The heap is the set of buffers that are allocated and not yet freed. \<open>calloc\<close> and
  \<open>malloc\<close> return whether the pointer is non-null; \<open>free\<close> of a null pointer does
  nothing.
\<close>

definition calloc :: "collab \<Rightarrow> buffer \<Rightarrow> buffer set \<Rightarrow> bool \<times> buffer set" where
  "calloc C b heap = (if alloc_succeeds C b then (True, insert b heap) else (False, heap))"

definition free :: "buffer \<Rightarrow> buffer set \<Rightarrow> buffer set" where
  "free b heap = heap - {b}"

text \<open>
  \<open>RETURN_ERROR\<close> logs the message and returns \<open>FAILURE\<close> at once: the heap is
  returned as it stands.
\<close>

datatype error = AllocationFailure | IoFailure | PercentileFailure | FloodFillFailure

type_synonym failure = "error \<times> buffer set"

section \<open>The state the passes share\<close>

record state =
  input :: Input_t
  pixel_mask :: "nat \<Rightarrow> uchar"
  conf_mask :: "nat \<Rightarrow> uchar"
  clear_mask :: "nat \<Rightarrow> uchar"

text \<open>Reading one row: every band below \<open>nband\<close>, then (or only) the thermal band.\<close>

fun read_lines :: "collab \<Rightarrow> pass \<Rightarrow> nat \<Rightarrow> nat list \<Rightarrow> Input_t \<Rightarrow> Input_t option" where
  "read_lines C p row [] inp = Some inp"
| "read_lines C p row (ib # ibs) inp =
     (case GetInputLine C p ib row of
        None \<Rightarrow> None
      | Some line \<Rightarrow> read_lines C p row ibs (inp\<lparr>buf := (buf inp)(ib := line)\<rparr>))"

definition read_bands :: "collab \<Rightarrow> pass \<Rightarrow> nat \<Rightarrow> Input_t \<Rightarrow> Input_t option" where
  "read_bands C p row inp = read_lines C p row [0..<nband inp] inp"

definition read_therm :: "collab \<Rightarrow> pass \<Rightarrow> nat \<Rightarrow> Input_t \<Rightarrow> Input_t option" where
  "read_therm C p row inp =
     (case GetInputThermLine C p row of
        None \<Rightarrow> None
      | Some line \<Rightarrow> Some (inp\<lparr>therm_buf := line\<rparr>))"

definition read_bands_therm :: "collab \<Rightarrow> pass \<Rightarrow> nat \<Rightarrow> Input_t \<Rightarrow> Input_t option" where
  "read_bands_therm C p row inp =
     (case read_bands C p row inp of
        None \<Rightarrow> None
      | Some inp1 \<Rightarrow> read_therm C p row inp1)"

text \<open>
  A pass: for every row, read it (the run stops when a reader fails), then run the
  per-pixel body over the columns.
\<close>

fun for_rows :: "(nat \<Rightarrow> 'a \<Rightarrow> 'a option) \<Rightarrow> nat list \<Rightarrow> 'a \<Rightarrow> 'a option" where
  "for_rows body [] a = Some a"
| "for_rows body (row # rows) a =
     (case body row a of None \<Rightarrow> None | Some a1 \<Rightarrow> for_rows body rows a1)"

definition with_input :: "(Input_t \<Rightarrow> Input_t option) \<Rightarrow> state \<times> 'v \<Rightarrow> (state \<times> 'v) option" where
  "with_input rd sv =
     (case rd (input (fst sv)) of
        None \<Rightarrow> None
      | Some inp1 \<Rightarrow> Some ((fst sv)\<lparr>input := inp1\<rparr>, snd sv))"

definition row_pass ::
  "(nat \<Rightarrow> Input_t \<Rightarrow> Input_t option) \<Rightarrow> (nat \<Rightarrow> nat \<Rightarrow> state \<times> 'v \<Rightarrow> state \<times> 'v)
   \<Rightarrow> nat \<Rightarrow> nat \<Rightarrow> state \<times> 'v \<Rightarrow> (state \<times> 'v) option" where
  "row_pass rd pixel nrows ncols sv =
     for_rows (\<lambda>row sv1.
                 case with_input (rd row) sv1 of
                   None \<Rightarrow> None
                 | Some sv2 \<Rightarrow> Some (fold (pixel row) [0..<ncols] sv2))
              [0..<nrows] sv"

section \<open>Pass 1\<close>

record p1_vars =
  whiteness :: cfloat
  image_data_counter :: int
  clear_pixel_counter :: int
  clear_land_pixel_counter :: int
  clear_water_pixel_counter :: int

definition p1_pixel :: "nat \<Rightarrow> nat \<Rightarrow> state \<times> p1_vars \<Rightarrow> state \<times> p1_vars" where
  "p1_pixel row col sv =
     (let s = fst sv; v = snd sv;
          pixel_index = row * size_s (input s) + col;
          inp = substitute_therm col (substitute_bands BI_REFL_BAND_COUNT col (input s))
      in if is_fill inp col
         then (s\<lparr>input := inp,
                 pixel_mask := (pixel_mask s)(pixel_index := CF_FILL_BIT),
                 clear_mask := (clear_mask s)(pixel_index := CF_CLEAR_FILL_BIT)\<rparr>, v)
         else (let r = classify_pixel inp col (pixel_mask s pixel_index) (whiteness v);
                   cloud = bit_set (fst r) CF_CLOUD_BIT;
                   water = bit_set (fst r) CF_WATER_BIT
               in (s\<lparr>input := inp,
                     pixel_mask := (pixel_mask s)(pixel_index := fst r),
                     clear_mask := (clear_mask s)(pixel_index :=
                        (if cloud then CF_CLEAR_NONE
                         else if water then CF_CLEAR_BIT OR CF_CLEAR_WATER_BIT
                         else CF_CLEAR_BIT OR CF_CLEAR_LAND_BIT))\<rparr>,
                   v\<lparr>whiteness := snd r,
                     image_data_counter := image_data_counter v + 1,
                     clear_pixel_counter :=
                       (if cloud then clear_pixel_counter v else clear_pixel_counter v + 1),
                     clear_water_pixel_counter :=
                       (if \<not> cloud \<and> water then clear_water_pixel_counter v + 1
                        else clear_water_pixel_counter v),
                     clear_land_pixel_counter :=
                       (if \<not> cloud \<and> \<not> water then clear_land_pixel_counter v + 1
                        else clear_land_pixel_counter v)\<rparr>)))"

definition pass_1 :: "collab \<Rightarrow> state \<Rightarrow> (state \<times> p1_vars) option" where
  "pass_1 C s =
     row_pass (read_bands_therm C P1) p1_pixel (size_l (input s)) (size_s (input s))
       (s, \<lparr>whiteness = Fin 0, image_data_counter = 0, clear_pixel_counter = 0,
             clear_land_pixel_counter = 0, clear_water_pixel_counter = 0\<rparr>)"

text \<open>The percentages of lines 342-347.\<close>

definition percent_of :: "int \<Rightarrow> int \<Rightarrow> cfloat" where
  "percent_of counter image_data =
     fmul (Fin 100) (fdiv (float_of_int counter) (float_of_int image_data))"

section \<open>The all-cloud shortcut (lines 359-372)\<close>

definition all_cloud_pixel :: "nat \<Rightarrow> (nat \<Rightarrow> uchar) \<Rightarrow> (nat \<Rightarrow> uchar)" where
  "all_cloud_pixel pixel_index pm =
     pm(pixel_index :=
          set_bit_if (\<not> bit_set (pm pixel_index) CF_CLOUD_BIT) CF_SHADOW_BIT (pm pixel_index))"

definition all_cloud :: "nat \<Rightarrow> (nat \<Rightarrow> uchar) \<Rightarrow> (nat \<Rightarrow> uchar)" where
  "all_cloud pixel_count pm = fold all_cloud_pixel [0..<pixel_count] pm"

section \<open>Pass 2: temperature samples (lines 410-469)\<close>

record p2_vars =
  f_temp :: "int16 list"
  f_wtemp :: "int16 list"
  f_temp_max :: int16
  f_temp_min :: int16
  f_wtemp_max :: int16
  f_wtemp_min :: int16

definition SHRT_MIN :: int16 where "SHRT_MIN = - 32768"
definition SHRT_MAX :: int16 where "SHRT_MAX = 32767"

definition p2_pixel :: "uchar \<Rightarrow> uchar \<Rightarrow> nat \<Rightarrow> nat \<Rightarrow> state \<times> p2_vars \<Rightarrow> state \<times> p2_vars" where
  "p2_pixel land_bit water_bit row col sv =
     (let s = fst sv; v = snd sv;
          pixel_index = row * size_s (input s) + col
      in if bit_set (clear_mask s pixel_index) CF_CLEAR_FILL_BIT then sv
         else (let inp = substitute_therm col (input s);
                   t = therm_buf inp col;
                   v1 = (if bit_set (clear_mask s pixel_index) land_bit
                         then v\<lparr>f_temp := f_temp v @ [t],
                                f_temp_max := (if sint (f_temp_max v) < sint t then t
                                               else f_temp_max v),
                                f_temp_min := (if sint (f_temp_min v) > sint t then t
                                               else f_temp_min v)\<rparr>
                         else v);
                   v2 = (if bit_set (clear_mask s pixel_index) water_bit
                         then v1\<lparr>f_wtemp := f_wtemp v1 @ [t],
                                 f_wtemp_max := (if sint (f_wtemp_max v1) < sint t then t
                                                 else f_wtemp_max v1),
                                 f_wtemp_min := (if sint (f_wtemp_min v1) > sint t then t
                                                 else f_wtemp_min v1)\<rparr>
                         else v1)
               in (s\<lparr>input := inp\<rparr>, v2)))"

definition pass_2 :: "collab \<Rightarrow> uchar \<Rightarrow> uchar \<Rightarrow> state \<Rightarrow> (state \<times> p2_vars) option" where
  "pass_2 C land_bit water_bit s =
     row_pass (read_therm C P2) (p2_pixel land_bit water_bit)
       (size_l (input s)) (size_s (input s))
       (s, \<lparr>f_temp = [], f_wtemp = [], f_temp_max = SHRT_MIN, f_temp_min = SHRT_MAX,
             f_wtemp_max = SHRT_MIN, f_wtemp_min = SHRT_MAX\<rparr>)"

section \<open>Pass 3: cloud probabilities (lines 537-687)\<close>

record p3_vars =
  final_prob :: "nat \<Rightarrow> cfloat"
  wfinal_prob :: "nat \<Rightarrow> cfloat"

text \<open>The whiteness of pass 3 (lines 644-671).\<close>

definition p3_whiteness :: "Input_t \<Rightarrow> nat \<Rightarrow> cfloat" where
  "p3_whiteness inp col =
     (let visi_mean = visi_mean_of inp col;
          whiteness = (if fne visi_mean (Fin 0)
                       then whiteness_quotient inp col visi_mean
                       else Fin 0)
      in if visible_saturated inp col then Fin 0 else whiteness)"

definition water_prob :: "cfloat \<Rightarrow> Input_t \<Rightarrow> nat \<Rightarrow> cfloat" where
  "water_prob t_wtemp inp col =
     (let wtemp_prob0 = fdiv (fsub t_wtemp (float_of_int16 (therm_buf inp col))) (Fin 400);
          wtemp_prob = (if flt wtemp_prob0 MINSIGMA then Fin 0 else wtemp_prob0);
          t_bright = (1100::int);
          brightness_prob0 =
            fdiv (float_of_int16 (buf inp BI_SWIR_1 col)) (float_of_int t_bright);
          brightness_prob1 =
            (if fgt (fsub brightness_prob0 (Fin 1)) MINSIGMA then Fin 1
             else brightness_prob0);
          brightness_prob =
            (if flt brightness_prob1 MINSIGMA then Fin 0 else brightness_prob1)
      in fmul (fmul (Fin 100) wtemp_prob) brightness_prob)"

definition land_prob :: "cfloat \<Rightarrow> cfloat \<Rightarrow> Input_t \<Rightarrow> nat \<Rightarrow> cfloat" where
  "land_prob t_temph temp_l inp col =
     (let temp_prob0 = fdiv (fsub t_temph (float_of_int16 (therm_buf inp col))) temp_l;
          temp_prob = (if flt temp_prob0 MINSIGMA then Fin 0 else temp_prob0);
          ndvi0 = ndvi_of inp col;
          ndsi0 = ndsi_of inp col;
          ndsi = (if flt ndsi0 MINSIGMA then Fin 0 else ndsi0);
          ndvi = (if flt ndvi0 MINSIGMA then Fin 0 else ndvi0);
          whiteness = p3_whiteness inp col;
          max_value0 = (if fgt (fsub ndsi ndvi) MINSIGMA then ndsi else ndvi);
          max_value = (if fgt (fsub whiteness max_value0) MINSIGMA then whiteness
                       else max_value0);
          vari_prob = fsub (Fin 1) max_value
      in fmul (Fin 100) (fmul temp_prob vari_prob))"

definition p3_pixel ::
  "cfloat \<Rightarrow> cfloat \<Rightarrow> cfloat \<Rightarrow> nat \<Rightarrow> nat \<Rightarrow> state \<times> p3_vars \<Rightarrow> state \<times> p3_vars" where
  "p3_pixel t_wtemp t_temph temp_l row col sv =
     (let s = fst sv; v = snd sv;
          pixel_index = row * size_s (input s) + col
      in if bit_set (pixel_mask s pixel_index) CF_FILL_BIT then sv
         else (let inp = substitute_therm col
                           (substitute_bands (BI_REFL_BAND_COUNT - 1) col (input s))
               in if bit_set (pixel_mask s pixel_index) CF_WATER_BIT
                  then (s\<lparr>input := inp\<rparr>,
                        v\<lparr>wfinal_prob := (wfinal_prob v)(pixel_index :=
                                            water_prob t_wtemp inp col),
                          final_prob := (final_prob v)(pixel_index := Fin 0)\<rparr>)
                  else (s\<lparr>input := inp\<rparr>,
                        v\<lparr>final_prob := (final_prob v)(pixel_index :=
                                           land_prob t_temph temp_l inp col),
                          wfinal_prob := (wfinal_prob v)(pixel_index := Fin 0)\<rparr>)))"

definition pass_3 ::
  "collab \<Rightarrow> cfloat \<Rightarrow> cfloat \<Rightarrow> cfloat \<Rightarrow> state \<Rightarrow> (state \<times> p3_vars) option" where
  "pass_3 C t_wtemp t_temph temp_l s =
     row_pass (read_bands_therm C P3) (p3_pixel t_wtemp t_temph temp_l)
       (size_l (input s)) (size_s (input s))
       (s, \<lparr>final_prob = (\<lambda>i. Fin 0), wfinal_prob = (\<lambda>i. Fin 0)\<rparr>)"

section \<open>Pass 4: thresholds and confidence (lines 698-868)\<close>

text \<open>
  The samples of a probability array at the pixels that carry the bit \<open>cbit\<close> in \<open>clear_mask\<close>,
  with their minimum and maximum (lines 698-718 and 742-762): the list, \<open>prob_min\<close>,
  \<open>prob_max\<close>.
\<close>

definition gather_pixel ::
  "uchar \<Rightarrow> (nat \<Rightarrow> uchar) \<Rightarrow> (nat \<Rightarrow> cfloat) \<Rightarrow> nat
   \<Rightarrow> cfloat list \<times> cfloat \<times> cfloat \<Rightarrow> cfloat list \<times> cfloat \<times> cfloat" where
  "gather_pixel cbit cm fprob pixel_index acc =
     (let prob = fst acc; prob_min = fst (snd acc); prob_max = snd (snd acc)
      in if bit_set (cm pixel_index) CF_CLEAR_FILL_BIT then acc
         else if bit_set (cm pixel_index) cbit
         then (prob @ [fprob pixel_index],
               (if fgt (fsub prob_min (fprob pixel_index)) MINSIGMA then fprob pixel_index
                else prob_min),
               (if fgt (fsub (fprob pixel_index) prob_max) MINSIGMA then fprob pixel_index
                else prob_max))
         else acc)"

definition gather_prob ::
  "uchar \<Rightarrow> (nat \<Rightarrow> uchar) \<Rightarrow> (nat \<Rightarrow> cfloat) \<Rightarrow> nat \<Rightarrow> cfloat list \<times> cfloat \<times> cfloat" where
  "gather_prob cbit cm fprob pixel_count =
     fold (gather_pixel cbit cm fprob) [0..<pixel_count] ([], Fin 0, Fin 0)"

text \<open>The confidence of one pixel (lines 808-867).\<close>

definition p4_pixel ::
  "cfloat \<Rightarrow> int \<Rightarrow> cfloat \<Rightarrow> cfloat \<Rightarrow> p3_vars \<Rightarrow> nat \<Rightarrow> nat \<Rightarrow> state \<times> unit
   \<Rightarrow> state \<times> unit" where
  "p4_pixel t_templ t_buffer clr_mask wclr_mask pr row col sv =
     (let s = fst sv;
          pixel_index = row * size_s (input s) + col;
          pm = pixel_mask s pixel_index
      in if bit_set pm CF_FILL_BIT then sv
         else (let inp = substitute_therm col (input s)
               in if (bit_set pm CF_CLOUD_BIT
                      \<and> fgt (final_prob pr pixel_index) clr_mask
                      \<and> \<not> bit_set pm CF_WATER_BIT)
                     \<or> (bit_set pm CF_CLOUD_BIT
                         \<and> fgt (wfinal_prob pr pixel_index) wclr_mask
                         \<and> bit_set pm CF_WATER_BIT)
                     \<or> flt (float_of_int16 (therm_buf inp col))
                            (fsub (fadd t_templ (float_of_int t_buffer)) (Fin 3500))
                  then (s\<lparr>input := inp,
                          conf_mask := (conf_mask s)(pixel_index := CLOUD_CONFIDENCE_HIGH),
                          pixel_mask := (pixel_mask s)(pixel_index := pm OR CF_CLOUD_BIT)\<rparr>,
                        ())
                  else if (bit_set pm CF_CLOUD_BIT
                           \<and> fgt (final_prob pr pixel_index) (fsub clr_mask (Fin 10))
                           \<and> \<not> bit_set pm CF_WATER_BIT)
                          \<or> (bit_set pm CF_CLOUD_BIT
                              \<and> fgt (wfinal_prob pr pixel_index) (fsub wclr_mask (Fin 10))
                              \<and> bit_set pm CF_WATER_BIT)
                  then (s\<lparr>input := inp,
                          conf_mask := (conf_mask s)(pixel_index := CLOUD_CONFIDENCE_MED),
                          pixel_mask :=
                            (pixel_mask s)(pixel_index := pm AND NOT CF_CLOUD_BIT)\<rparr>,
                        ())
                  else (s\<lparr>input := inp,
                          conf_mask := (conf_mask s)(pixel_index := CLOUD_CONFIDENCE_LOW),
                          pixel_mask :=
                            (pixel_mask s)(pixel_index := pm AND NOT CF_CLOUD_BIT)\<rparr>,
                        ())))"

definition pass_4 ::
  "collab \<Rightarrow> cfloat \<Rightarrow> int \<Rightarrow> cfloat \<Rightarrow> cfloat \<Rightarrow> p3_vars \<Rightarrow> state \<Rightarrow> (state \<times> unit) option" where
  "pass_4 C t_templ t_buffer clr_mask wclr_mask pr s =
     row_pass (read_therm C P4) (p4_pixel t_templ t_buffer clr_mask wclr_mask pr)
       (size_l (input s)) (size_s (input s)) (s, ())"

section \<open>Pass 5: the infrared samples and rasters (lines 901-977)\<close>

record p5_vars =
  nir :: "int16 list"
  swir1 :: "int16 list"
  nir_max :: int16
  nir_min :: int16
  swir1_max :: int16
  swir1_min :: int16
  nir_data :: "nat \<Rightarrow> int16"
  swir1_data :: "nat \<Rightarrow> int16"

definition p5_pixel :: "uchar \<Rightarrow> nat \<Rightarrow> nat \<Rightarrow> state \<times> p5_vars \<Rightarrow> state \<times> p5_vars" where
  "p5_pixel land_bit row col sv =
     (let s = fst sv; v = snd sv;
          pixel_index = row * size_s (input s) + col
      in if bit_set (clear_mask s pixel_index) CF_CLEAR_FILL_BIT then sv
         else (let inp = substitute_band col BI_SWIR_1 (substitute_band col BI_NIR (input s));
                   n = buf inp BI_NIR col;
                   w = buf inp BI_SWIR_1 col
               in (s\<lparr>input := inp\<rparr>,
                   if bit_set (clear_mask s pixel_index) land_bit
                   then v\<lparr>nir := nir v @ [n],
                          nir_max := (if sint n > sint (nir_max v) then n else nir_max v),
                          nir_min := (if sint n < sint (nir_min v) then n else nir_min v),
                          swir1 := swir1 v @ [w],
                          swir1_max := (if sint w > sint (swir1_max v) then w else swir1_max v),
                          swir1_min := (if sint w < sint (swir1_min v) then w else swir1_min v)\<rparr>
                   else v)))"

text \<open>\<open>memcpy\<close> of one row buffer into the raster, at \<open>row * size_s\<close> (lines 972-976).\<close>

definition memcpy_row :: "nat \<Rightarrow> nat \<Rightarrow> (nat \<Rightarrow> int16) \<Rightarrow> (nat \<Rightarrow> int16) \<Rightarrow> (nat \<Rightarrow> int16)" where
  "memcpy_row row ncols line raster =
     (\<lambda>i. if row * ncols \<le> i \<and> i < row * ncols + ncols then line (i - row * ncols)
          else raster i)"

definition p5_row :: "collab \<Rightarrow> uchar \<Rightarrow> nat \<Rightarrow> state \<times> p5_vars \<Rightarrow> (state \<times> p5_vars) option" where
  "p5_row C land_bit row sv =
     (case with_input (read_bands C P5 row) sv of
        None \<Rightarrow> None
      | Some sv1 \<Rightarrow>
          (let sv2 = fold (p5_pixel land_bit row) [0..<size_s (input (fst sv1))] sv1;
               inp = input (fst sv2)
           in Some (fst sv2,
                    (snd sv2)\<lparr>nir_data := memcpy_row row (size_s inp) (buf inp BI_NIR)
                                              (nir_data (snd sv2)),
                              swir1_data := memcpy_row row (size_s inp) (buf inp BI_SWIR_1)
                                              (swir1_data (snd sv2))\<rparr>)))"

definition pass_5 :: "collab \<Rightarrow> uchar \<Rightarrow> state \<Rightarrow> (state \<times> p5_vars) option" where
  "pass_5 C land_bit s =
     for_rows (p5_row C land_bit) [0..<size_l (input s)]
       (s, \<lparr>nir = [], swir1 = [], nir_max = 0, nir_min = 0, swir1_max = 0, swir1_min = 0,
             nir_data = (\<lambda>i. 0), swir1_data = (\<lambda>i. 0)\<rparr>)"

section \<open>Pass 6: shadow and water refinement (lines 1053-1131)\<close>

text \<open>
  \<open>new_nir\<close>, \<open>new_swir1\<close> and \<open>shadow_prob\<close> are \<open>int16\<close>: the difference of two
  samples is computed on \<open>int\<close> and stored back into 16 bits, which is the subtraction
  of the words.
\<close>

definition p6_byte :: "int16 \<Rightarrow> int16 \<Rightarrow> int16 \<Rightarrow> int16 \<Rightarrow> uchar \<Rightarrow> uchar" where
  "p6_byte filled_nir nir_value filled_swir1 swir1_value pm =
     (let new_nir = filled_nir - nir_value;
          new_swir1 = filled_swir1 - swir1_value;
          shadow_prob = (if sint new_nir < sint new_swir1 then new_nir else new_swir1);
          pm1 = set_bit_if (sint shadow_prob > 200) CF_SHADOW_BIT pm
      in if bit_set pm1 CF_WATER_BIT \<and> bit_set pm1 CF_CLOUD_BIT
         then pm1 AND NOT CF_WATER_BIT
         else pm1)"

definition p6_pixel ::
  "(nat \<Rightarrow> int16) \<Rightarrow> (nat \<Rightarrow> int16) \<Rightarrow> nat \<Rightarrow> nat \<Rightarrow> state \<times> unit \<Rightarrow> state \<times> unit" where
  "p6_pixel filled_nir_data filled_swir1_data row col sv =
     (let s = fst sv;
          pixel_index = row * size_s (input s) + col;
          inp = substitute_band col BI_SWIR_1 (substitute_band col BI_NIR (input s))
      in if bit_set (pixel_mask s pixel_index) CF_FILL_BIT
         then (s\<lparr>input := inp,
                 conf_mask := (conf_mask s)(pixel_index := CF_FILL_PIXEL)\<rparr>, ())
         else (s\<lparr>input := inp,
                 pixel_mask := (pixel_mask s)(pixel_index :=
                    p6_byte (filled_nir_data pixel_index) (buf inp BI_NIR col)
                            (filled_swir1_data pixel_index) (buf inp BI_SWIR_1 col)
                            (pixel_mask s pixel_index))\<rparr>, ()))"

definition pass_6 ::
  "collab \<Rightarrow> (nat \<Rightarrow> int16) \<Rightarrow> (nat \<Rightarrow> int16) \<Rightarrow> state \<Rightarrow> (state \<times> unit) option" where
  "pass_6 C filled_nir_data filled_swir1_data s =
     row_pass (read_bands_therm C P6) (p6_pixel filled_nir_data filled_swir1_data)
       (size_l (input s)) (size_s (input s)) (s, ())"

section \<open>The operation\<close>

text \<open>
  The operation returns \<open>FAILURE\<close> (with the heap as \<open>RETURN_ERROR\<close> left it) or
  \<open>SUCCESS\<close> with the three output floats, the two masks and the heap. Each stage
  below is one stretch of the function, allocation and release included.
\<close>

record result =
  r_clear_ptm :: cfloat
  r_t_templ :: cfloat
  r_t_temph :: cfloat
  r_pixel_mask :: "nat \<Rightarrow> uchar"
  r_conf_mask :: "nat \<Rightarrow> uchar"
  r_heap :: "buffer set"

datatype outcome = FAILURE error "buffer set" | SUCCESS result

record thresholds =
  land_bit_of :: uchar
  water_bit_of :: uchar
  t_templ_of :: cfloat
  t_temph_of :: cfloat
  t_wtemp_of :: cfloat
  temp_l_of :: cfloat
  t_buffer_of :: int

text \<open>Lines 106-339: \<open>clear_mask\<close> is allocated (zeroed) and pass 1 runs.\<close>

definition stage_1 :: "collab \<Rightarrow> state \<Rightarrow> failure + (state \<times> p1_vars \<times> buffer set)" where
  "stage_1 C s0 =
     (case calloc C B_clear_mask {} of
        (ok, heap) \<Rightarrow>
          if \<not> ok then Inl (AllocationFailure, heap)
          else (case pass_1 C (s0\<lparr>clear_mask := (\<lambda>i. 0)\<rparr>) of
                  None \<Rightarrow> Inl (IoFailure, heap)
                | Some sv \<Rightarrow> Inr (fst sv, snd sv, heap)))"

text \<open>Lines 375-523: pass 2 and the temperature percentiles.\<close>

definition choose_bit :: "cfloat \<Rightarrow> uchar \<Rightarrow> uchar" where
  "choose_bit ptm own_bit =
     (if fge (fsub ptm (Fin (1 / 10))) MINSIGMA then own_bit else CF_CLEAR_BIT)"

definition l_pt :: cfloat where "l_pt = Fin (175 / 1000)"
definition h_pt :: cfloat where "h_pt = fsub (Fin 1) l_pt"

definition stage_2 ::
  "collab \<Rightarrow> cfloat \<Rightarrow> cfloat \<Rightarrow> state \<Rightarrow> buffer set
   \<Rightarrow> failure + (state \<times> thresholds \<times> buffer set)" where
  "stage_2 C land_ptm water_ptm s heap0 =
     (case calloc C B_f_temp heap0 of
        (ok1, heap1) \<Rightarrow>
     (case calloc C B_f_wtemp heap1 of
        (ok2, heap) \<Rightarrow>
          if \<not> ok1 \<or> \<not> ok2 then Inl (AllocationFailure, heap)
          else (let land_bit = choose_bit land_ptm CF_CLEAR_LAND_BIT;
                    water_bit = choose_bit water_ptm CF_CLEAR_WATER_BIT
                in case pass_2 C land_bit water_bit s of
                     None \<Rightarrow> Inl (IoFailure, heap)
                   | Some sv \<Rightarrow>
                (let v = snd sv;
                     temp_min = (if f_temp_min v = SHRT_MAX then 0 else f_temp_min v);
                     temp_max = (if f_temp_max v = SHRT_MIN then 0 else f_temp_max v);
                     wtemp_min = (if f_wtemp_min v = SHRT_MAX then 0 else f_wtemp_min v);
                     wtemp_max = (if f_wtemp_max v = SHRT_MIN then 0 else f_wtemp_max v)
                 in case prctile C (f_temp v) (length (f_temp v)) temp_min temp_max
                           (fmul (Fin 100) l_pt) of
                      None \<Rightarrow> Inl (PercentileFailure, heap)
                    | Some templ \<Rightarrow>
                 (case prctile C (f_temp v) (length (f_temp v)) temp_min temp_max
                           (fmul (Fin 100) h_pt) of
                      None \<Rightarrow> Inl (PercentileFailure, heap)
                    | Some temph \<Rightarrow>
                 (case prctile C (f_wtemp v) (length (f_wtemp v)) wtemp_min wtemp_max
                           (fmul (Fin 100) h_pt) of
                      None \<Rightarrow> Inl (PercentileFailure, heap)
                    | Some wtemp \<Rightarrow>
                        (let t_buffer = 4 * 100;
                             t_templ = fsub templ (float_of_int t_buffer);
                             t_temph = fadd temph (float_of_int t_buffer);
                             temp_l = fsub t_temph t_templ
                         in Inr (fst sv,
                                 \<lparr>land_bit_of = land_bit, water_bit_of = water_bit,
                                  t_templ_of = t_templ, t_temph_of = t_temph,
                                  t_wtemp_of = wtemp, temp_l_of = temp_l,
                                  t_buffer_of = t_buffer\<rparr>,
                                 free B_f_temp (free B_f_wtemp heap)))))))))"

text \<open>Lines 525-688: pass 3.\<close>

definition stage_3 ::
  "collab \<Rightarrow> thresholds \<Rightarrow> state \<Rightarrow> buffer set \<Rightarrow> failure + (state \<times> p3_vars \<times> buffer set)" where
  "stage_3 C th s heap0 =
     (case calloc C B_wfinal_prob heap0 of
        (ok1, heap1) \<Rightarrow>
     (case calloc C B_final_prob heap1 of
        (ok2, heap) \<Rightarrow>
          if \<not> ok1 \<or> \<not> ok2 then Inl (AllocationFailure, heap)
          else (case pass_3 C (t_wtemp_of th) (t_temph_of th) (temp_l_of th) s of
                  None \<Rightarrow> Inl (IoFailure, heap)
                | Some sv \<Rightarrow> Inr (fst sv, snd sv, heap))))"

text \<open>Lines 690-875: the two dynamic thresholds and pass 4.\<close>

definition stage_4 ::
  "collab \<Rightarrow> cfloat \<Rightarrow> thresholds \<Rightarrow> p3_vars \<Rightarrow> state \<Rightarrow> buffer set
   \<Rightarrow> failure + (state \<times> buffer set)" where
  "stage_4 C cloud_prob_threshold th pr s heap0 =
     (let pixel_count = size_l (input s) * size_s (input s)
      in case calloc C B_prob heap0 of
        (ok1, heap1) \<Rightarrow>
          if \<not> ok1 then Inl (AllocationFailure, heap1)
          else (let g = gather_prob (land_bit_of th) (clear_mask s) (final_prob pr) pixel_count
                in case prctile2 C (fst g) (length (fst g)) (fst (snd g)) (snd (snd g))
                          (fmul (Fin 100) h_pt) of
                     None \<Rightarrow> Inl (PercentileFailure, heap1)
                   | Some p \<Rightarrow>
                (let clr_mask = fadd p cloud_prob_threshold;
                     heap2 = free B_prob heap1
                 in case calloc C B_wprob heap2 of
                   (ok3, heap3) \<Rightarrow>
                     if \<not> ok3 then Inl (AllocationFailure, heap3)
                     else (let wg = gather_prob (water_bit_of th) (clear_mask s)
                                      (wfinal_prob pr) pixel_count
                           in case prctile2 C (fst wg) (length (fst wg)) (fst (snd wg))
                                     (snd (snd wg)) (fmul (Fin 100) h_pt) of
                                None \<Rightarrow> Inl (PercentileFailure, heap3)
                              | Some wp \<Rightarrow>
                           (let wclr_mask = fadd wp cloud_prob_threshold;
                                heap4 = free B_wprob heap3
                            in case pass_4 C (t_templ_of th) (t_buffer_of th) clr_mask
                                      wclr_mask pr s of
                                 None \<Rightarrow> Inl (IoFailure, heap4)
                               | Some sv \<Rightarrow>
                                   Inr (fst sv,
                                        free B_final_prob (free B_wfinal_prob heap4)))))))"

text \<open>
  Lines 877-1046: pass 5, the two background percentiles and the two flood fills.
  Both fills run; \<open>status\<close> is \<open>ERROR\<close> when either failed.
\<close>

definition stage_5 ::
  "collab \<Rightarrow> thresholds \<Rightarrow> state \<Rightarrow> buffer set
   \<Rightarrow> failure + (state \<times> (nat \<Rightarrow> int16) \<times> (nat \<Rightarrow> int16) \<times> buffer set)" where
  "stage_5 C th s heap0 =
     (case calloc C B_nir heap0 of (ok1, heap1) \<Rightarrow>
     (case calloc C B_swir1 heap1 of (ok2, heap2) \<Rightarrow>
        if \<not> ok1 \<or> \<not> ok2 then Inl (AllocationFailure, heap2)
        else
     (case calloc C B_nir_data heap2 of (ok3, heap3) \<Rightarrow>
     (case calloc C B_swir1_data heap3 of (ok4, heap4) \<Rightarrow>
     (case calloc C B_filled_nir_data heap4 of (ok5, heap5) \<Rightarrow>
     (case calloc C B_filled_swir1_data heap5 of (ok6, heap6) \<Rightarrow>
        if \<not> ok3 \<or> \<not> ok4 \<or> \<not> ok5 \<or> \<not> ok6 then Inl (AllocationFailure, heap6)
        else
     (case pass_5 C (land_bit_of th) s of
        None \<Rightarrow> Inl (IoFailure, heap6)
      | Some sv \<Rightarrow>
     (let v = snd sv
      in case prctile C (nir v) (length (nir v)) (nir_min v) (nir_max v)
                (fmul (Fin 100) l_pt) of
           None \<Rightarrow> Inl (PercentileFailure, heap6)
         | Some nir_boundary \<Rightarrow>
     (case prctile C (swir1 v) (length (swir1 v)) (swir1_min v) (swir1_max v)
                (fmul (Fin 100) l_pt) of
           None \<Rightarrow> Inl (PercentileFailure, heap6)
         | Some swir1_boundary \<Rightarrow>
     (let heap7 = free B_swir1 (free B_nir heap6);
          fill_nir = fill_local_minima_in_image C ''NIR Band'' (nir_data v)
                       (size_l (input s)) (size_s (input s)) nir_boundary;
          fill_swir1 = fill_local_minima_in_image C ''SWIR1 Band'' (swir1_data v)
                         (size_l (input s)) (size_s (input s)) swir1_boundary;
          heap8 = free B_swir1_data (free B_nir_data heap7)
      in case fill_nir of
           None \<Rightarrow>
             Inl (FloodFillFailure, free B_filled_swir1_data (free B_filled_nir_data heap8))
         | Some filled_nir_data \<Rightarrow>
             (case fill_swir1 of
                None \<Rightarrow>
                  Inl (FloodFillFailure,
                       free B_filled_swir1_data (free B_filled_nir_data heap8))
              | Some filled_swir1_data \<Rightarrow>
                  Inr (fst sv, filled_nir_data, filled_swir1_data, heap8))))))))))))"

text \<open>Lines 1048-1142: pass 6 and the release of the rasters.\<close>

definition stage_6 ::
  "collab \<Rightarrow> (nat \<Rightarrow> int16) \<Rightarrow> (nat \<Rightarrow> int16) \<Rightarrow> state \<Rightarrow> buffer set
   \<Rightarrow> failure + (state \<times> buffer set)" where
  "stage_6 C filled_nir_data filled_swir1_data s heap =
     (case pass_6 C filled_nir_data filled_swir1_data s of
        None \<Rightarrow> Inl (IoFailure, heap)
      | Some sv \<Rightarrow>
          Inr (fst sv,
               free B_filled_swir1_data (free B_filled_nir_data
                 (free B_swir1_data (free B_nir_data heap)))))"

text \<open>The else-branch of line 373: passes 2 to 6.\<close>

definition full_path ::
  "collab \<Rightarrow> cfloat \<Rightarrow> cfloat \<Rightarrow> cfloat \<Rightarrow> state \<Rightarrow> buffer set
   \<Rightarrow> failure + (state \<times> thresholds \<times> buffer set)" where
  "full_path C cloud_prob_threshold land_ptm water_ptm s1 heap1 =
     (case stage_2 C land_ptm water_ptm s1 heap1 of
        Inl f \<Rightarrow> Inl f
      | Inr (s2, th, heap2) \<Rightarrow>
     (case stage_3 C th s2 heap2 of
        Inl f \<Rightarrow> Inl f
      | Inr (s3, pr, heap3) \<Rightarrow>
     (case stage_4 C cloud_prob_threshold th pr s3 heap3 of
        Inl f \<Rightarrow> Inl f
      | Inr (s4, heap4) \<Rightarrow>
     (case stage_5 C th s4 heap4 of
        Inl f \<Rightarrow> Inl f
      | Inr (s5, filled_nir_data, filled_swir1_data, heap5) \<Rightarrow>
     (case stage_6 C filled_nir_data filled_swir1_data s5 heap5 of
        Inl f \<Rightarrow> Inl f
      | Inr (s6, heap6) \<Rightarrow> Inr (s6, th, heap6))))))"

text \<open>The test of line 359.\<close>

definition all_cloud_test :: "cfloat \<Rightarrow> bool" where
  "all_cloud_test clear_ptm = fle (fsub clear_ptm (Fin (1 / 10))) MINSIGMA"

definition potential_cloud_shadow_snow_mask ::
  "collab \<Rightarrow> Input_t \<Rightarrow> cfloat \<Rightarrow> (nat \<Rightarrow> uchar) \<Rightarrow> (nat \<Rightarrow> uchar) \<Rightarrow> outcome" where
  "potential_cloud_shadow_snow_mask C inp cloud_prob_threshold pm cm =
     (case stage_1 C \<lparr>input = inp, pixel_mask = pm, conf_mask = cm, clear_mask = (\<lambda>i. 0)\<rparr> of
        Inl f \<Rightarrow> FAILURE (fst f) (snd f)
      | Inr (s1, v1, heap1) \<Rightarrow>
          (let pixel_count = size_l inp * size_s inp;
               clear_ptm = percent_of (clear_pixel_counter v1) (image_data_counter v1);
               land_ptm = percent_of (clear_land_pixel_counter v1) (image_data_counter v1);
               water_ptm = percent_of (clear_water_pixel_counter v1) (image_data_counter v1)
           in if all_cloud_test clear_ptm
              then SUCCESS \<lparr>r_clear_ptm = clear_ptm,
                            r_t_templ = Fin (- 1), r_t_temph = Fin (- 1),
                            r_pixel_mask = all_cloud pixel_count (pixel_mask s1),
                            r_conf_mask = conf_mask s1,
                            r_heap = free B_clear_mask heap1\<rparr>
              else (case full_path C cloud_prob_threshold land_ptm water_ptm s1 heap1 of
                      Inl f \<Rightarrow> FAILURE (fst f) (snd f)
                    | Inr (s6, th, heap6) \<Rightarrow>
                        SUCCESS \<lparr>r_clear_ptm = clear_ptm,
                                 r_t_templ = t_templ_of th, r_t_temph = t_temph_of th,
                                 r_pixel_mask = pixel_mask s6,
                                 r_conf_mask = conf_mask s6,
                                 r_heap = free B_clear_mask heap6\<rparr>)))"

section \<open>The claims' vocabulary\<close>

text \<open>
  The four chained tests of the cloud bit as the specification words them (section 4.1):
  the whiteness is 100 when the visible mean is 0 and is forced to 0 when a visible band
  is saturated; \<open>satu_bv = 1\<close> is that saturation.
\<close>

definition p1_whiteness :: "Input_t \<Rightarrow> nat \<Rightarrow> cfloat" where
  "p1_whiteness inp col =
     (if visible_saturated inp col then Fin 0
      else if fne (visi_mean_of inp col) (Fin 0)
      then whiteness_quotient inp col (visi_mean_of inp col)
      else Fin 100)"

definition basic_cloud_test :: "Input_t \<Rightarrow> nat \<Rightarrow> bool" where
  "basic_cloud_test inp col =
     (flt (fsub (ndsi_of inp col) (Fin (8 / 10))) MINSIGMA
      \<and> flt (fsub (ndvi_of inp col) (Fin (8 / 10))) MINSIGMA
      \<and> sint (buf inp BI_SWIR_2 col) > 300
      \<and> sint (therm_buf inp col) < 2700)"

definition whiteness_test :: "Input_t \<Rightarrow> nat \<Rightarrow> bool" where
  "whiteness_test inp col = flt (fsub (p1_whiteness inp col) (Fin (7 / 10))) MINSIGMA"

definition hot_test :: "Input_t \<Rightarrow> nat \<Rightarrow> bool" where
  "hot_test inp col = (fgt (hot_of inp col) MINSIGMA \<or> visible_saturated inp col)"

definition ratio_test :: "Input_t \<Rightarrow> nat \<Rightarrow> bool" where
  "ratio_test inp col =
     (buf inp BI_SWIR_1 col \<noteq> 0
      \<and> fgt (fsub (fdiv (float_of_int16 (buf inp BI_NIR col))
                        (float_of_int16 (buf inp BI_SWIR_1 col)))
                  (Fin (75 / 100)))
             MINSIGMA)"

definition cloud_chain :: "Input_t \<Rightarrow> nat \<Rightarrow> bool" where
  "cloud_chain inp col =
     (basic_cloud_test inp col \<and> whiteness_test inp col \<and> hot_test inp col
      \<and> ratio_test inp col)"

text \<open>
  The row buffers as a pass finds them after reading a row: the lines the readers
  returned, under the metadata of \<open>inp\<close>.
\<close>

definition row_buffer :: "collab \<Rightarrow> pass \<Rightarrow> nat \<Rightarrow> Input_t \<Rightarrow> Input_t" where
  "row_buffer C p row inp =
     inp\<lparr>buf := (\<lambda>ib. case GetInputLine C p ib row of
                         None \<Rightarrow> buf inp ib
                       | Some line \<Rightarrow> line),
         therm_buf := (case GetInputThermLine C p row of
                         None \<Rightarrow> therm_buf inp
                       | Some line \<Rightarrow> line)\<rparr>"

text \<open>The pixel of pass 1 at a row and column: the row as read, after substitution.\<close>

definition p1_input :: "collab \<Rightarrow> Input_t \<Rightarrow> nat \<Rightarrow> nat \<Rightarrow> Input_t" where
  "p1_input C inp row col =
     substitute_therm col (substitute_bands BI_REFL_BAND_COUNT col (row_buffer C P1 row inp))"

text \<open>Two input structures with the same sizes and saturation metadata.\<close>

definition same_meta :: "Input_t \<Rightarrow> Input_t \<Rightarrow> bool" where
  "same_meta a b =
     (size_l a = size_l b \<and> size_s a = size_s b \<and> nband a = nband b
      \<and> satu_value_ref a = satu_value_ref b \<and> satu_value_max a = satu_value_max b
      \<and> therm_satu_value_ref a = therm_satu_value_ref b
      \<and> therm_satu_value_max a = therm_satu_value_max b)"

text \<open>Two row buffers that hold the same samples in one column.\<close>

definition col_agree :: "nat \<Rightarrow> Input_t \<Rightarrow> Input_t \<Rightarrow> bool" where
  "col_agree c a b = ((\<forall>ib. buf a ib c = buf b ib c) \<and> therm_buf a c = therm_buf b c)"

text \<open>... in the six reflective bands and the thermal band, which is all the passes read.\<close>

definition pixel_agree :: "nat \<Rightarrow> Input_t \<Rightarrow> Input_t \<Rightarrow> bool" where
  "pixel_agree c a b =
     ((\<forall>ib<BI_REFL_BAND_COUNT. buf a ib c = buf b ib c) \<and> therm_buf a c = therm_buf b c)"

text \<open>The three mask bytes of one pixel.\<close>

definition masks_at :: "nat \<Rightarrow> state \<Rightarrow> uchar \<times> uchar \<times> uchar" where
  "masks_at i s = (pixel_mask s i, conf_mask s i, clear_mask s i)"

section \<open>Example scenes\<close>

text \<open>
  Collaborators that always succeed and serve one row whatever the pass: the readers
  return the given lines, the percentile routines return the minimum they are handed
  (0 for an empty sample), the flood fill returns its source unchanged.
\<close>

definition scene_collab :: "(nat \<Rightarrow> nat \<Rightarrow> int16) \<Rightarrow> (nat \<Rightarrow> int16) \<Rightarrow> collab" where
  "scene_collab lines therm =
     \<lparr>GetInputLine = (\<lambda>p ib row. Some (lines ib)),
      GetInputThermLine = (\<lambda>p row. Some therm),
      prctile = (\<lambda>samples n mn mx pct. Some (float_of_int16 mn)),
      prctile2 = (\<lambda>samples n mn mx pct. Some mn),
      fill_local_minima_in_image = (\<lambda>label src l s boundary. Some src),
      alloc_succeeds = (\<lambda>b. True)\<rparr>"

definition scene_input :: "nat \<Rightarrow> Input_t" where
  "scene_input ncols =
     \<lparr>size_l = 1, size_s = ncols, nband = 6,
      buf = (\<lambda>ib col. 0), therm_buf = (\<lambda>col. 0),
      satu_value_ref = (\<lambda>ib. 20000), satu_value_max = (\<lambda>ib. 16000),
      therm_satu_value_ref = 20000, therm_satu_value_max = 5000\<rparr>"

text \<open>
  A scene of up to four pixels: a bright pixel over water that passes the four cloud
  tests (column 0), the clear vegetation pixel of the specification's scenario 2
  (column 1), a fill pixel (column 2) and the snow pixel of scenario 3 (column 3).
\<close>

definition demo_lines :: "nat \<Rightarrow> nat \<Rightarrow> int16" where
  "demo_lines ib col =
     (if col = 0 then [2000, 2000, 2000, 1000, 1000, 400] ! ib
      else if col = 1 then [400, 500, 600, 3000, 1500, 800] ! ib
      else if col = 3 then [8000, 8500, 8000, 4000, 1000, 400] ! ib
      else - 9999)"

definition demo_therm :: "nat \<Rightarrow> int16" where
  "demo_therm col =
     (if col = 0 then 2000 else if col = 1 then 2500 else if col = 3 then 500 else - 9999)"

definition demo_collab :: collab where
  "demo_collab = scene_collab demo_lines demo_therm"

definition demo_state :: state where
  "demo_state = \<lparr>input = scene_input 3, pixel_mask = (\<lambda>i. 0), conf_mask = (\<lambda>i. 0),
                 clear_mask = (\<lambda>i. 0)\<rparr>"

text \<open>What the caller sees of an outcome.\<close>

definition pixel_mask_at :: "outcome \<Rightarrow> nat \<Rightarrow> uchar option" where
  "pixel_mask_at out i = (case out of FAILURE e heap \<Rightarrow> None | SUCCESS r \<Rightarrow> Some (r_pixel_mask r i))"

definition conf_mask_at :: "outcome \<Rightarrow> nat \<Rightarrow> uchar option" where
  "conf_mask_at out i = (case out of FAILURE e heap \<Rightarrow> None | SUCCESS r \<Rightarrow> Some (r_conf_mask r i))"

definition floats_of :: "outcome \<Rightarrow> (cfloat \<times> cfloat \<times> cfloat) option" where
  "floats_of out =
     (case out of FAILURE e heap \<Rightarrow> None
      | SUCCESS r \<Rightarrow> Some (r_clear_ptm r, r_t_templ r, r_t_temph r))"

definition heap_of :: "outcome \<Rightarrow> buffer set" where
  "heap_of out = (case out of FAILURE e heap \<Rightarrow> heap | SUCCESS r \<Rightarrow> r_heap r)"

text \<open>Collaborators that never fail.\<close>

definition reliable :: "collab \<Rightarrow> bool" where
  "reliable C =
     ((\<forall>p ib row. GetInputLine C p ib row \<noteq> None)
      \<and> (\<forall>p row. GetInputThermLine C p row \<noteq> None)
      \<and> (\<forall>samples n mn mx pct. prctile C samples n mn mx pct \<noteq> None)
      \<and> (\<forall>samples n mn mx pct. prctile2 C samples n mn mx pct \<noteq> None)
      \<and> (\<forall>label src l s boundary. fill_local_minima_in_image C label src l s boundary \<noteq> None)
      \<and> (\<forall>b. alloc_succeeds C b))"

text \<open>
  A non-fill, non-water pixel whose visible bands sum to 0 (BLUE 2000, GREEN 0,
  RED -2000, NIR 1200, SWIR1 1000, SWIR2 400, thermal 2000).
\<close>

definition zero_mean_input :: Input_t where
  "zero_mean_input =
     (scene_input 1)\<lparr>buf := (\<lambda>ib col. [2000, 0, - 2000, 1200, 1000, 400] ! ib),
                     therm_buf := (\<lambda>col. 2000)\<rparr>"

text \<open>The vegetation pixel of the example scene, as a row buffer.\<close>

definition demo_input :: Input_t where
  "demo_input = (scene_input 3)\<lparr>buf := demo_lines, therm_buf := demo_therm\<rparr>"

text \<open>
  The confidence tests of pass 4 as the specification words them (section 4.5), for a
  pixel with mask byte \<open>pm\<close>, index \<open>i\<close> and thermal sample \<open>thermal\<close>.
\<close>

definition high_confidence ::
  "cfloat \<Rightarrow> cfloat \<Rightarrow> cfloat \<Rightarrow> p3_vars \<Rightarrow> nat \<Rightarrow> uchar \<Rightarrow> int16 \<Rightarrow> bool" where
  "high_confidence t_templ clr_mask wclr_mask pr i pm thermal =
     ((bit_set pm CF_CLOUD_BIT \<and> \<not> bit_set pm CF_WATER_BIT
       \<and> fgt (final_prob pr i) clr_mask)
      \<or> (bit_set pm CF_CLOUD_BIT \<and> bit_set pm CF_WATER_BIT
          \<and> fgt (wfinal_prob pr i) wclr_mask)
      \<or> flt (float_of_int16 thermal) (fsub (fadd t_templ (Fin 400)) (Fin 3500)))"

definition medium_confidence ::
  "cfloat \<Rightarrow> cfloat \<Rightarrow> p3_vars \<Rightarrow> nat \<Rightarrow> uchar \<Rightarrow> bool" where
  "medium_confidence clr_mask wclr_mask pr i pm =
     ((bit_set pm CF_CLOUD_BIT \<and> \<not> bit_set pm CF_WATER_BIT
       \<and> fgt (final_prob pr i) (fsub clr_mask (Fin 10)))
      \<or> (bit_set pm CF_CLOUD_BIT \<and> bit_set pm CF_WATER_BIT
          \<and> fgt (wfinal_prob pr i) (fsub wclr_mask (Fin 10))))"

text \<open>The thermal sample of pass 4 at a row and column, after substitution.\<close>

definition p4_thermal :: "collab \<Rightarrow> Input_t \<Rightarrow> nat \<Rightarrow> nat \<Rightarrow> int16" where
  "p4_thermal C inp row col = therm_buf (substitute_therm col (row_buffer C P4 row inp)) col"

text \<open>
  The example scene on entry to pass 4: column 0 carries CLOUD and WATER, the water
  probability there is 100, every other probability is 0.
\<close>

definition demo_p4_state :: state where
  "demo_p4_state = demo_state\<lparr>pixel_mask := (\<lambda>i. if i = 0 then 18 else if i = 1 then 0 else 1)\<rparr>"

definition demo_probs :: p3_vars where
  "demo_probs = \<lparr>final_prob = (\<lambda>i. Fin 0), wfinal_prob = (\<lambda>i. if i = 0 then Fin 100 else Fin 0)\<rparr>"

text \<open>
  What a pass may do to the masks. \<open>unchanged\<close>: nothing (passes 2, 3 and 5).
  \<open>p4_keeps\<close>, \<open>p6_keeps\<close>: the bits of one byte that pass 4 and pass 6 leave alone; a
  byte that carries FILL is left as it is.
\<close>

definition unchanged :: "state \<Rightarrow> state \<Rightarrow> bool" where
  "unchanged s s' =
     (pixel_mask s' = pixel_mask s \<and> conf_mask s' = conf_mask s
      \<and> clear_mask s' = clear_mask s \<and> same_meta (input s) (input s'))"

definition p4_keeps :: "uchar \<Rightarrow> uchar \<Rightarrow> bool" where
  "p4_keeps a b =
     ((bit_set a CF_FILL_BIT \<longrightarrow> b = a)
      \<and> bit_set b CF_FILL_BIT = bit_set a CF_FILL_BIT
      \<and> bit_set b CF_SHADOW_BIT = bit_set a CF_SHADOW_BIT
      \<and> bit_set b CF_SNOW_BIT = bit_set a CF_SNOW_BIT
      \<and> bit_set b CF_WATER_BIT = bit_set a CF_WATER_BIT)"

definition p6_keeps :: "uchar \<Rightarrow> uchar \<Rightarrow> bool" where
  "p6_keeps a b =
     ((bit_set a CF_FILL_BIT \<longrightarrow> b = a)
      \<and> bit_set b CF_FILL_BIT = bit_set a CF_FILL_BIT
      \<and> bit_set b CF_CLOUD_BIT = bit_set a CF_CLOUD_BIT
      \<and> bit_set b CF_SNOW_BIT = bit_set a CF_SNOW_BIT)"

definition pass_4_effect :: "state \<Rightarrow> state \<Rightarrow> bool" where
  "pass_4_effect s s' =
     ((\<forall>i. p4_keeps (pixel_mask s i) (pixel_mask s' i))
      \<and> clear_mask s' = clear_mask s \<and> same_meta (input s) (input s'))"

definition pass_6_effect :: "state \<Rightarrow> state \<Rightarrow> bool" where
  "pass_6_effect s s' =
     ((\<forall>i. p6_keeps (pixel_mask s i) (pixel_mask s' i))
      \<and> clear_mask s' = clear_mask s \<and> same_meta (input s) (input s'))"

text \<open>The state on entry: the caller's two masks, and \<open>clear_mask\<close> as \<open>calloc\<close> gives it.\<close>

definition entry_state :: "Input_t \<Rightarrow> (nat \<Rightarrow> uchar) \<Rightarrow> (nat \<Rightarrow> uchar) \<Rightarrow> state" where
  "entry_state inp pm cm =
     \<lparr>input = inp, pixel_mask = pm, conf_mask = cm, clear_mask = (\<lambda>i. 0)\<rparr>"

text \<open>The snow test of pass 1 (lines 218-221) and its water test (lines 229-233).\<close>

definition snow_test :: "Input_t \<Rightarrow> nat \<Rightarrow> bool" where
  "snow_test inp col =
     (fgt (fsub (ndsi_of inp col) (Fin (15 / 100))) MINSIGMA
      \<and> sint (therm_buf inp col) < 1000
      \<and> sint (buf inp BI_NIR col) > 1100
      \<and> sint (buf inp BI_GREEN col) > 1000)"

definition water_test :: "Input_t \<Rightarrow> nat \<Rightarrow> bool" where
  "water_test inp col =
     ((flt (fsub (ndvi_of inp col) (Fin (1 / 100))) MINSIGMA
       \<and> sint (buf inp BI_NIR col) < 1100)
      \<or> (flt (fsub (ndvi_of inp col) (Fin (1 / 10))) MINSIGMA
          \<and> fgt (ndvi_of inp col) MINSIGMA
          \<and> sint (buf inp BI_NIR col) < 500))"

text \<open>
  The heap a run leaves behind still holds \<open>clear_mask\<close>: on a failure the heap returned
  with it, on a success of a stage the heap \<open>hp\<close> reads off its result.
\<close>

definition owns :: "('b \<Rightarrow> buffer set) \<Rightarrow> failure + 'b \<Rightarrow> bool" where
  "owns hp r = (case r of Inl f \<Rightarrow> B_clear_mask \<in> snd f | Inr t \<Rightarrow> B_clear_mask \<in> hp t)"

text \<open>The example scene behind a reader that cannot read any reflective line.\<close>

definition unreadable_collab :: collab where
  "unreadable_collab = demo_collab\<lparr>GetInputLine := (\<lambda>p ib row. None)\<rparr>"

text \<open>
  What one pixel adds to the counters of pass 1 (lines 183 and 321-323): 1 to the image
  data counter when it is no fill pixel, 1 to the clear counter when it is moreover no
  cloud.
\<close>

definition p1_data :: "collab \<Rightarrow> Input_t \<Rightarrow> nat \<Rightarrow> nat \<Rightarrow> int" where
  "p1_data C inp row col = (if is_fill (p1_input C inp row col) col then 0 else 1)"

definition p1_clear :: "collab \<Rightarrow> Input_t \<Rightarrow> nat \<Rightarrow> nat \<Rightarrow> int" where
  "p1_clear C inp row col =
     (if is_fill (p1_input C inp row col) col \<or> cloud_chain (p1_input C inp row col) col
      then 0 else 1)"

text \<open>
  An overcast scene of two pixels: the cloud pixel of the example scene, then a fill
  pixel.
\<close>

definition overcast_lines :: "nat \<Rightarrow> nat \<Rightarrow> int16" where
  "overcast_lines ib col =
     (if col = 0 then [2000, 2000, 2000, 1000, 1000, 400] ! ib else - 9999)"

definition overcast_therm :: "nat \<Rightarrow> int16" where
  "overcast_therm col = (if col = 0 then 2000 else - 9999)"

definition overcast_collab :: collab where
  "overcast_collab = scene_collab overcast_lines overcast_therm"

text \<open>A scene in which every sample of every band, the thermal band too, is the fill value.\<close>

definition fill_collab :: collab where
  "fill_collab = scene_collab (\<lambda>ib col. - 9999) (\<lambda>col. - 9999)"

text \<open>... of one pixel, entered with both masks zeroed.\<close>

definition fill_run :: outcome where
  "fill_run =
     potential_cloud_shadow_snow_mask fill_collab (scene_input 1) (Fin (45 / 2))
       (\<lambda>i. 0) (\<lambda>i. 0)"

text \<open>
  The state with which a run on the full path reaches pass 6 (line 1048): the state after
  passes 1 to 5, and the two filled rasters the flood fills returned.
\<close>

definition pass_6_entry ::
  "collab \<Rightarrow> Input_t \<Rightarrow> cfloat \<Rightarrow> (nat \<Rightarrow> uchar) \<Rightarrow> (nat \<Rightarrow> uchar)
   \<Rightarrow> (state \<times> (nat \<Rightarrow> int16) \<times> (nat \<Rightarrow> int16)) option" where
  "pass_6_entry C inp cloud_prob_threshold pm cm =
     (case stage_1 C (entry_state inp pm cm) of
        Inl e \<Rightarrow> None
      | Inr (s1, v1, heap1) \<Rightarrow>
     (case stage_2 C (percent_of (clear_land_pixel_counter v1) (image_data_counter v1))
             (percent_of (clear_water_pixel_counter v1) (image_data_counter v1)) s1 heap1 of
        Inl e \<Rightarrow> None
      | Inr (s2, th, heap2) \<Rightarrow>
     (case stage_3 C th s2 heap2 of
        Inl e \<Rightarrow> None
      | Inr (s3, pr, heap3) \<Rightarrow>
     (case stage_4 C cloud_prob_threshold th pr s3 heap3 of
        Inl e \<Rightarrow> None
      | Inr (s4, heap4) \<Rightarrow>
     (case stage_5 C th s4 heap4 of
        Inl e \<Rightarrow> None
      | Inr (s5, filled_nir_data, filled_swir1_data, heap5) \<Rightarrow>
          Some (s5, filled_nir_data, filled_swir1_data))))))"

text \<open>
  The example scene with a cold cloud top over the water pixel (thermal -2000), behind
  a percentile routine that answers 2500, the temperature of the one clear pixel of the
  scene, to every request.
\<close>

definition cold_therm :: "nat \<Rightarrow> int16" where
  "cold_therm col = (if col = 0 then - 2000 else demo_therm col)"

definition cold_collab :: collab where
  "cold_collab =
     (scene_collab demo_lines cold_therm)\<lparr>prctile := (\<lambda>samples n mn mx pct. Some (Fin 2500))\<rparr>"

definition cold_run :: outcome where
  "cold_run =
     potential_cloud_shadow_snow_mask cold_collab (scene_input 3) (Fin (45 / 2))
       (\<lambda>i. 0) (\<lambda>i. 0)"

section \<open>Bits of a mask byte\<close>

lemma and_or_same: "(m OR b) AND b = (b::uchar)"
  by (simp add: bit_eq_iff bit_and_iff bit_or_iff)

lemma and_not_same: "(m AND NOT b) AND b = (0::uchar)"
  by (simp add: bit_eq_iff bit_and_iff bit_not_iff)

lemma or_other: "b AND b' = 0 \<Longrightarrow> (m OR b) AND b' = m AND (b'::uchar)"
  by (simp add: bit.conj_disj_distrib2)

lemma and_not_other:
  assumes "b AND b' = 0"
  shows "(m AND NOT b) AND b' = m AND (b'::uchar)"
proof -
  have "b' AND NOT b = b' AND NOT (b AND b')"
    by (auto simp add: bit_eq_iff bit_and_iff bit_not_iff bit_or_iff)
  then have "b' AND NOT b = b'"
    using assms by simp
  then show ?thesis
    by (metis and.assoc and.commute)
qed

lemma bit_set_same: "b \<noteq> 0 \<Longrightarrow> bit_set (set_bit_if c b m) b = c"
  by (simp add: bit_set_def set_bit_if_def and_or_same and_not_same)

lemma bit_set_other: "b AND b' = 0 \<Longrightarrow> bit_set (set_bit_if c b m) b' = bit_set m b'"
  by (simp add: bit_set_def set_bit_if_def or_other and_not_other)

lemma bit_set_or_same: "b \<noteq> 0 \<Longrightarrow> bit_set (m OR b) b"
  by (simp add: bit_set_def and_or_same)

lemma bit_set_and_not_same: "\<not> bit_set (m AND NOT b) b"
  by (simp add: bit_set_def and_not_same)

lemma bit_set_or_other: "b AND b' = 0 \<Longrightarrow> bit_set (m OR b) b' = bit_set m b'"
  by (simp add: bit_set_def or_other)

lemma bit_set_and_not_other: "b AND b' = 0 \<Longrightarrow> bit_set (m AND NOT b) b' = bit_set m b'"
  by (simp add: bit_set_def and_not_other)

lemma bits_nonzero:
  "CF_FILL_BIT \<noteq> 0" "CF_CLOUD_BIT \<noteq> 0" "CF_SHADOW_BIT \<noteq> 0" "CF_SNOW_BIT \<noteq> 0"
  "CF_WATER_BIT \<noteq> 0"
  by (simp_all add: CF_FILL_BIT_def CF_CLOUD_BIT_def CF_SHADOW_BIT_def CF_SNOW_BIT_def
      CF_WATER_BIT_def)

lemma bits_disjoint:
  "CF_CLOUD_BIT AND CF_FILL_BIT = 0" "CF_CLOUD_BIT AND CF_SHADOW_BIT = 0"
  "CF_CLOUD_BIT AND CF_SNOW_BIT = 0" "CF_CLOUD_BIT AND CF_WATER_BIT = 0"
  "CF_SNOW_BIT AND CF_FILL_BIT = 0" "CF_SNOW_BIT AND CF_CLOUD_BIT = 0"
  "CF_SNOW_BIT AND CF_SHADOW_BIT = 0" "CF_SNOW_BIT AND CF_WATER_BIT = 0"
  "CF_WATER_BIT AND CF_FILL_BIT = 0" "CF_WATER_BIT AND CF_CLOUD_BIT = 0"
  "CF_WATER_BIT AND CF_SHADOW_BIT = 0" "CF_WATER_BIT AND CF_SNOW_BIT = 0"
  "CF_SHADOW_BIT AND CF_FILL_BIT = 0" "CF_SHADOW_BIT AND CF_CLOUD_BIT = 0"
  "CF_SHADOW_BIT AND CF_SNOW_BIT = 0" "CF_SHADOW_BIT AND CF_WATER_BIT = 0"
  by (simp_all add: CF_FILL_BIT_def CF_CLOUD_BIT_def CF_SHADOW_BIT_def CF_SNOW_BIT_def
      CF_WATER_BIT_def)

section \<open>Pass 1, one pixel\<close>

lemma classify_pixel_cloud:
  "bit_set (fst (classify_pixel inp col pm w)) CF_CLOUD_BIT = cloud_chain inp col"
  unfolding classify_pixel_def Let_def cloud_chain_def basic_cloud_test_def whiteness_test_def
    hot_test_def ratio_test_def p1_whiteness_def
  by (auto simp add: bit_set_same bit_set_other bits_nonzero bits_disjoint bit_set_and_not_same)

section \<open>Substitution and reading\<close>

lemma substitute_band_fields [simp]:
  "size_l (substitute_band col ib inp) = size_l inp"
  "size_s (substitute_band col ib inp) = size_s inp"
  "nband (substitute_band col ib inp) = nband inp"
  "therm_buf (substitute_band col ib inp) = therm_buf inp"
  "satu_value_ref (substitute_band col ib inp) = satu_value_ref inp"
  "satu_value_max (substitute_band col ib inp) = satu_value_max inp"
  "therm_satu_value_ref (substitute_band col ib inp) = therm_satu_value_ref inp"
  "therm_satu_value_max (substitute_band col ib inp) = therm_satu_value_max inp"
  by (simp_all add: substitute_band_def)

lemma buf_substitute_band:
  "buf (substitute_band col ib inp) b c =
     (if b = ib \<and> c = col \<and> buf inp ib col = satu_value_ref inp ib
      then satu_value_max inp ib else buf inp b c)"
  by (simp add: substitute_band_def)

lemma substitute_bands_Suc:
  "substitute_bands (Suc n) col inp = substitute_band col n (substitute_bands n col inp)"
  by (simp add: substitute_bands_def)

lemma substitute_bands_fields [simp]:
  "size_l (substitute_bands n col inp) = size_l inp"
  "size_s (substitute_bands n col inp) = size_s inp"
  "nband (substitute_bands n col inp) = nband inp"
  "therm_buf (substitute_bands n col inp) = therm_buf inp"
  "satu_value_ref (substitute_bands n col inp) = satu_value_ref inp"
  "satu_value_max (substitute_bands n col inp) = satu_value_max inp"
  "therm_satu_value_ref (substitute_bands n col inp) = therm_satu_value_ref inp"
  "therm_satu_value_max (substitute_bands n col inp) = therm_satu_value_max inp"
  by (induction n, simp_all add: substitute_bands_Suc, simp_all add: substitute_bands_def)

lemma buf_substitute_bands:
  "buf (substitute_bands n col inp) b c =
     (if b < n \<and> c = col \<and> buf inp b col = satu_value_ref inp b
      then satu_value_max inp b else buf inp b c)"
proof (induction n arbitrary: b c)
  case 0
  show ?case by (simp add: substitute_bands_def)
next
  case (Suc n)
  show ?case
    by (auto simp add: substitute_bands_Suc buf_substitute_band Suc less_Suc_eq)
qed

lemma substitute_therm_fields [simp]:
  "size_l (substitute_therm col inp) = size_l inp"
  "size_s (substitute_therm col inp) = size_s inp"
  "nband (substitute_therm col inp) = nband inp"
  "buf (substitute_therm col inp) = buf inp"
  "satu_value_ref (substitute_therm col inp) = satu_value_ref inp"
  "satu_value_max (substitute_therm col inp) = satu_value_max inp"
  "therm_satu_value_ref (substitute_therm col inp) = therm_satu_value_ref inp"
  "therm_satu_value_max (substitute_therm col inp) = therm_satu_value_max inp"
  by (simp_all add: substitute_therm_def)

lemma therm_buf_substitute_therm:
  "therm_buf (substitute_therm col inp) c =
     (if c = col \<and> therm_buf inp col = therm_satu_value_ref inp
      then therm_satu_value_max inp else therm_buf inp c)"
  by (simp add: substitute_therm_def)

lemma same_meta_refl [simp]: "same_meta a a"
  by (simp add: same_meta_def)

lemma same_meta_trans: "same_meta a b \<Longrightarrow> same_meta b c \<Longrightarrow> same_meta a c"
  by (simp add: same_meta_def)

lemma same_meta_sym: "same_meta a b \<Longrightarrow> same_meta b a"
  by (simp add: same_meta_def)

lemma same_meta_substitute [simp]:
  "same_meta a (substitute_band col ib b) = same_meta a b"
  "same_meta a (substitute_bands n col b) = same_meta a b"
  "same_meta a (substitute_therm col b) = same_meta a b"
  by (simp_all add: same_meta_def)

lemma read_lines_meta:
  "read_lines C p row ibs inp = Some inp1 \<Longrightarrow> same_meta inp inp1 \<and> therm_buf inp1 = therm_buf inp"
proof (induction ibs arbitrary: inp)
  case Nil
  then show ?case by simp
next
  case (Cons ib ibs)
  then show ?case
    by (auto split: option.splits simp add: same_meta_def dest!: Cons.IH)
qed

lemma read_lines_buf:
  "read_lines C p row ibs inp = Some inp1 \<Longrightarrow> ib \<in> set ibs \<Longrightarrow>
   GetInputLine C p ib row = Some (buf inp1 ib)"
proof (induction ibs arbitrary: inp)
  case Nil
  then show ?case by simp
next
  case (Cons a ibs)
  from Cons.prems obtain line where line: "GetInputLine C p a row = Some line"
    and rest: "read_lines C p row ibs (inp\<lparr>buf := (buf inp)(a := line)\<rparr>) = Some inp1"
    by (auto split: option.splits)
  show ?case
  proof (cases "ib \<in> set ibs")
    case True
    then show ?thesis using Cons.IH [OF rest] by simp
  next
    case False
    then have "ib = a" using Cons.prems by simp
    have keep: "\<And>inp0. read_lines C p row ibs inp0 = Some inp1 \<Longrightarrow> a \<notin> set ibs \<Longrightarrow>
                  buf inp1 a = buf inp0 a"
    proof -
      fix inp0 show "read_lines C p row ibs inp0 = Some inp1 \<Longrightarrow> a \<notin> set ibs \<Longrightarrow>
                  buf inp1 a = buf inp0 a"
        by (induction ibs arbitrary: inp0) (auto split: option.splits)
    qed
    from keep [OF rest] False \<open>ib = a\<close> line show ?thesis by simp
  qed
qed

lemma read_bands_meta:
  "read_bands C p row inp = Some inp1 \<Longrightarrow> same_meta inp inp1 \<and> therm_buf inp1 = therm_buf inp"
  unfolding read_bands_def by (rule read_lines_meta)

lemma read_bands_buf:
  "read_bands C p row inp = Some inp1 \<Longrightarrow> ib < nband inp \<Longrightarrow>
   GetInputLine C p ib row = Some (buf inp1 ib)"
  using read_lines_buf [of C p row "[0..<nband inp]" inp inp1 ib]
  by (simp add: read_bands_def)

lemma read_therm_meta:
  "read_therm C p row inp = Some inp1 \<Longrightarrow> same_meta inp inp1 \<and> buf inp1 = buf inp"
  by (auto simp add: read_therm_def same_meta_def split: option.splits)

lemma read_therm_buf:
  "read_therm C p row inp = Some inp1 \<Longrightarrow> GetInputThermLine C p row = Some (therm_buf inp1)"
  by (auto simp add: read_therm_def split: option.splits)

lemma read_bands_therm_meta:
  "read_bands_therm C p row inp = Some inp1 \<Longrightarrow> same_meta inp inp1"
  by (auto simp add: read_bands_therm_def split: option.splits
      dest!: read_bands_meta read_therm_meta intro: same_meta_trans)

lemma read_bands_therm_buf:
  "read_bands_therm C p row inp = Some inp1 \<Longrightarrow> ib < nband inp \<Longrightarrow>
   GetInputLine C p ib row = Some (buf inp1 ib)"
  by (auto simp add: read_bands_therm_def split: option.splits
      dest!: read_therm_meta dest: read_bands_buf)

lemma read_bands_therm_therm:
  "read_bands_therm C p row inp = Some inp1 \<Longrightarrow>
   GetInputThermLine C p row = Some (therm_buf inp1)"
  by (auto simp add: read_bands_therm_def split: option.splits dest: read_therm_buf)

section \<open>Loops\<close>

lemma fold_upt_invariant:
  assumes "I 0 a" and "\<And>j a. j < n \<Longrightarrow> I j a \<Longrightarrow> I (Suc j) (f j a)"
  shows "I n (fold f [0..<n] a)"
  using assms by (induction n) simp_all

lemma for_rows_append:
  "for_rows body (xs @ ys) a =
     (case for_rows body xs a of None \<Rightarrow> None | Some a1 \<Rightarrow> for_rows body ys a1)"
  by (induction xs arbitrary: a) (simp_all split: option.splits)

lemma for_rows_upt_invariant:
  assumes "for_rows body [0..<n] a = Some a'" and "I 0 a"
    and "\<And>k a a1. k < n \<Longrightarrow> I k a \<Longrightarrow> body k a = Some a1 \<Longrightarrow> I (Suc k) a1"
  shows "I n a'"
  using assms
proof (induction n arbitrary: a')
  case 0
  then show ?case by simp
next
  case (Suc n)
  from Suc.prems(1) obtain a1 where a1: "for_rows body [0..<n] a = Some a1"
    and last: "body n a1 = Some a'"
    by (auto simp add: for_rows_append split: option.splits)
  have "I n a1"
    using a1 Suc.prems(2) by (rule Suc.IH) (simp add: Suc.prems(3))
  then show ?case using last by (simp add: Suc.prems(3))
qed

lemma row_pass_rule:
  assumes run: "row_pass rd pixel nrows ncols sv = Some sv'"
    and start: "I 0 sv"
    and rd: "\<And>row sv inp1. row < nrows \<Longrightarrow> I row sv \<Longrightarrow> rd row (input (fst sv)) = Some inp1
               \<Longrightarrow> J row 0 ((fst sv)\<lparr>input := inp1\<rparr>, snd sv)"
    and px: "\<And>row col sv. row < nrows \<Longrightarrow> col < ncols \<Longrightarrow> J row col sv
               \<Longrightarrow> J row (Suc col) (pixel row col sv)"
    and fin: "\<And>row sv. row < nrows \<Longrightarrow> J row ncols sv \<Longrightarrow> I (Suc row) sv"
  shows "I nrows sv'"
proof -
  let ?body = "\<lambda>row sv1. case with_input (rd row) sv1 of None \<Rightarrow> None
                 | Some sv2 \<Rightarrow> Some (fold (pixel row) [0..<ncols] sv2)"
  have fr: "for_rows ?body [0..<nrows] sv = Some sv'"
    using run by (simp add: row_pass_def)
  show ?thesis
  proof (rule for_rows_upt_invariant [where I = I and body = ?body, OF fr start])
  fix k a a1
  assume k: "k < nrows" and Ik: "I k a"
    and body: "(case with_input (rd k) a of None \<Rightarrow> None
                | Some sv2 \<Rightarrow> Some (fold (pixel k) [0..<ncols] sv2)) = Some a1"
  from body obtain inp1 where inp1: "rd k (input (fst a)) = Some inp1"
    and a1: "a1 = fold (pixel k) [0..<ncols] ((fst a)\<lparr>input := inp1\<rparr>, snd a)"
    by (auto simp add: with_input_def split: option.splits)
  have "J k 0 ((fst a)\<lparr>input := inp1\<rparr>, snd a)"
    using k Ik inp1 by (rule rd)
  then have "J k ncols a1"
    unfolding a1 by (rule fold_upt_invariant [where I = "J k"]) (simp add: px k)
  then show "I (Suc k) a1" using k by (simp add: fin)
  qed
qed

section \<open>One pixel of a pass\<close>

lemma pixel_index_inj:
  assumes "col < (S::nat)" and "c < S" and "row * S + col = r * S + c"
  shows "row = r \<and> col = c"
proof -
  have "(row * S + col) div S = (r * S + c) div S"
    using assms(3) by simp
  then have "row = r"
    using assms(1,2) by simp
  then show ?thesis
    using assms(3) by simp
qed

lemma masks_at_input [simp]: "masks_at i (s\<lparr>input := x\<rparr>) = masks_at i s"
  by (simp add: masks_at_def)

lemma col_agree_refl [simp]: "col_agree c a a"
  by (simp add: col_agree_def)

lemma col_agree_trans: "col_agree c a b \<Longrightarrow> col_agree c b d \<Longrightarrow> col_agree c a d"
  by (simp add: col_agree_def)

lemma row_pass_at:
  assumes run: "row_pass rd pixel nrows S sv0 = Some sv'"
    and r: "r < nrows" and c: "c < S"
    and size0: "size_s (input (fst sv0)) = S"
    and rd_meta: "\<And>row inp inp1. rd row inp = Some inp1 \<Longrightarrow> same_meta inp inp1"
    and px_meta: "\<And>row col sv. same_meta (input (fst sv)) (input (fst (pixel row col sv)))"
    and px_col: "\<And>row col sv. col \<noteq> c \<Longrightarrow>
                   col_agree c (input (fst sv)) (input (fst (pixel row col sv)))"
    and px_frame: "\<And>row col sv. row * size_s (input (fst sv)) + col \<noteq> r * S + c \<Longrightarrow>
                   masks_at (r * S + c) (fst (pixel row col sv)) = masks_at (r * S + c) (fst sv)"
  shows "\<exists>inp0 inp1 sv.
           rd r inp0 = Some inp1 \<and> same_meta (input (fst sv0)) inp1
           \<and> same_meta inp1 (input (fst sv)) \<and> col_agree c inp1 (input (fst sv))
           \<and> masks_at (r * S + c) (fst sv) = masks_at (r * S + c) (fst sv0)
           \<and> masks_at (r * S + c) (fst sv') = masks_at (r * S + c) (fst (pixel r c sv))"
proof -
  define idx where "idx = r * S + c"
  define m0 where "m0 = masks_at idx (fst sv0)"
  define G where "G = (\<lambda>m. \<exists>inp0 inp1 sv.
           rd r inp0 = Some inp1 \<and> same_meta (input (fst sv0)) inp1
           \<and> same_meta inp1 (input (fst sv)) \<and> col_agree c inp1 (input (fst sv))
           \<and> masks_at idx (fst sv) = m0
           \<and> m = masks_at idx (fst (pixel r c sv)))"
  define R where "R = (\<lambda>inp. \<exists>inp0 inp1.
           rd r inp0 = Some inp1 \<and> same_meta (input (fst sv0)) inp1 \<and> col_agree c inp1 inp)"
  define I where "I = (\<lambda>k (sv :: state \<times> 'a).
           same_meta (input (fst sv0)) (input (fst sv))
           \<and> (if k \<le> r then masks_at idx (fst sv) = m0 else G (masks_at idx (fst sv))))"
  define J where "J = (\<lambda>k j (sv :: state \<times> 'a).
           same_meta (input (fst sv0)) (input (fst sv))
           \<and> (if k < r \<or> (k = r \<and> j \<le> c) then masks_at idx (fst sv) = m0
               else G (masks_at idx (fst sv)))
           \<and> (k = r \<and> j \<le> c \<longrightarrow> R (input (fst sv))))"
  have "I nrows sv'"
  proof (rule row_pass_rule [where I = I and J = J, OF run])
    show "I 0 sv0"
      by (simp add: I_def m0_def)
  next
    fix row sv inp1
    assume row: "row < nrows" and Irow: "I row sv" and read: "rd row (input (fst sv)) = Some inp1"
    have meta: "same_meta (input (fst sv0)) inp1"
      using Irow rd_meta [OF read] by (auto simp add: I_def intro: same_meta_trans)
    have "row = r \<Longrightarrow> R inp1"
      unfolding R_def using read meta by (intro exI [of _ "input (fst sv)"] exI [of _ inp1]) simp
    then show "J row 0 ((fst sv)\<lparr>input := inp1\<rparr>, snd sv)"
      using Irow meta by (auto simp add: I_def J_def)
  next
    fix row col sv
    assume row: "row < nrows" and col: "col < S" and Jrc: "J row col sv"
    have meta: "same_meta (input (fst sv0)) (input (fst sv))"
      using Jrc by (simp add: J_def)
    then have size: "size_s (input (fst sv)) = S"
      using size0 by (simp add: same_meta_def)
    have meta': "same_meta (input (fst sv0)) (input (fst (pixel row col sv)))"
      using meta px_meta by (rule same_meta_trans)
    show "J row (Suc col) (pixel row col sv)"
    proof (cases "row = r \<and> col = c")
      case True
      from Jrc True have m: "masks_at idx (fst sv) = m0" and "R (input (fst sv))"
        by (simp_all add: J_def)
      then obtain inp0 inp1 where read: "rd r inp0 = Some inp1"
        and m1: "same_meta (input (fst sv0)) inp1" and agree: "col_agree c inp1 (input (fst sv))"
        by (auto simp add: R_def)
      have "same_meta inp1 (input (fst sv))"
        using m1 meta by (auto intro: same_meta_trans same_meta_sym)
      then have "G (masks_at idx (fst (pixel r c sv)))"
        unfolding G_def using read m1 agree m by blast
      then show ?thesis
        using True meta' by (simp add: J_def)
    next
      case False
      then have "row * S + col \<noteq> r * S + c"
        using pixel_index_inj [OF col c] by blast
      then have frame: "masks_at idx (fst (pixel row col sv)) = masks_at idx (fst sv)"
        using px_frame [of row sv col] size by (simp add: idx_def)
      have keep: "row = r \<Longrightarrow> Suc col \<le> c \<Longrightarrow> R (input (fst (pixel row col sv)))"
      proof -
        assume "row = r" and "Suc col \<le> c"
        then have "R (input (fst sv))" and "col \<noteq> c"
          using Jrc by (simp_all add: J_def)
        then show ?thesis
          unfolding R_def using px_col [of col sv row] by (blast intro: col_agree_trans)
      qed
      show ?thesis
        using Jrc False frame meta' keep by (auto simp add: J_def)
    qed
  next
    fix row sv
    assume "row < nrows" and "J row S sv"
    then show "I (Suc row) sv"
      using c by (auto simp add: I_def J_def)
  qed
  then have "G (masks_at idx (fst sv'))"
    using r by (simp add: I_def)
  then show ?thesis
    unfolding G_def m0_def idx_def by blast
qed

section \<open>Functions of one pixel depend on its samples only\<close>

lemma pixel_agree_bands:
  assumes "pixel_agree c a b"
  shows "buf a BI_BLUE c = buf b BI_BLUE c" "buf a BI_GREEN c = buf b BI_GREEN c"
    "buf a BI_RED c = buf b BI_RED c" "buf a BI_NIR c = buf b BI_NIR c"
    "buf a BI_SWIR_1 c = buf b BI_SWIR_1 c" "buf a BI_SWIR_2 c = buf b BI_SWIR_2 c"
    "therm_buf a c = therm_buf b c"
  using assms
  by (simp_all add: pixel_agree_def BI_REFL_BAND_COUNT_def BI_BLUE_def BI_GREEN_def BI_RED_def
      BI_NIR_def BI_SWIR_1_def BI_SWIR_2_def)

lemma col_agree_pixel_agree: "col_agree c a b \<Longrightarrow> pixel_agree c a b"
  by (simp add: col_agree_def pixel_agree_def)

lemma pixel_agree_trans: "pixel_agree c a b \<Longrightarrow> pixel_agree c b d \<Longrightarrow> pixel_agree c a d"
  by (simp add: pixel_agree_def)

lemma pixel_agree_substitute:
  assumes "pixel_agree c a b" and "same_meta a b" and "n \<le> BI_REFL_BAND_COUNT"
  shows "pixel_agree c (substitute_therm c (substitute_bands n c a))
                       (substitute_therm c (substitute_bands n c b))"
  using assms
  by (auto simp add: pixel_agree_def same_meta_def buf_substitute_bands
      therm_buf_substitute_therm)

lemma is_fill_cong: "pixel_agree c a b \<Longrightarrow> is_fill a c = is_fill b c"
  by (simp add: is_fill_def pixel_agree_bands)

lemma classify_pixel_cong:
  assumes "pixel_agree c a b" and "same_meta a b"
  shows "classify_pixel a c = classify_pixel b c"
proof -
  note eqs = pixel_agree_bands [OF assms(1)]
  have sat: "satu_value_max a = satu_value_max b"
    using assms(2) by (simp add: same_meta_def)
  have parts: "ndvi_of a c = ndvi_of b c" "ndsi_of a c = ndsi_of b c"
    "visi_mean_of a c = visi_mean_of b c" "whiteness_quotient a c = whiteness_quotient b c"
    "visible_saturated a c = visible_saturated b c" "hot_of a c = hot_of b c"
    by (simp_all add: ndvi_of_def ndsi_of_def visi_mean_of_def whiteness_quotient_def
        visible_saturated_def hot_of_def eqs sat fun_eq_iff)
  show ?thesis
    unfolding classify_pixel_def parts eqs by (rule refl)
qed

lemma cloud_chain_cong:
  assumes "pixel_agree c a b" and "same_meta a b"
  shows "cloud_chain a c = cloud_chain b c"
  using classify_pixel_cong [OF assms] classify_pixel_cloud [of a c 0 NaN]
    classify_pixel_cloud [of b c 0 NaN]
  by simp

section \<open>Pass 1 at one pixel\<close>

lemma p1_pixel_meta: "same_meta (input (fst sv)) (input (fst (p1_pixel row col sv)))"
  by (simp add: p1_pixel_def Let_def)

lemma p1_pixel_col:
  "col \<noteq> c \<Longrightarrow> col_agree c (input (fst sv)) (input (fst (p1_pixel row col sv)))"
  by (simp add: p1_pixel_def Let_def col_agree_def buf_substitute_bands
      therm_buf_substitute_therm)

lemma p1_pixel_frame:
  "row * size_s (input (fst sv)) + col \<noteq> i \<Longrightarrow>
   masks_at i (fst (p1_pixel row col sv)) = masks_at i (fst sv)"
  by (simp add: p1_pixel_def Let_def masks_at_def)

lemma p1_pixel_mask_here:
  "pixel_mask (fst (p1_pixel row col sv)) (row * size_s (input (fst sv)) + col) =
     (let inp = substitute_therm col (substitute_bands BI_REFL_BAND_COUNT col (input (fst sv)))
      in if is_fill inp col then CF_FILL_BIT
         else fst (classify_pixel inp col
                     (pixel_mask (fst sv) (row * size_s (input (fst sv)) + col))
                     (whiteness (snd sv))))"
  by (simp add: p1_pixel_def Let_def)

lemma read_bands_therm_row_buffer:
  assumes "read_bands_therm C p row inp0 = Some inp1" and "BI_REFL_BAND_COUNT \<le> nband inp0"
  shows "pixel_agree c inp1 (row_buffer C p row inp)"
  using read_bands_therm_buf [OF assms(1)] read_bands_therm_therm [OF assms(1)] assms(2)
  by (simp add: pixel_agree_def row_buffer_def)

lemma pixel_agree_sym: "pixel_agree c a b \<Longrightarrow> pixel_agree c b a"
  by (simp add: pixel_agree_def)

lemma same_meta_row_buffer [simp]: "same_meta a (row_buffer C p row b) = same_meta a b"
  by (simp add: same_meta_def row_buffer_def)

lemma same_meta_substitute_left [simp]:
  "same_meta (substitute_band col ib a) b = same_meta a b"
  "same_meta (substitute_bands n col a) b = same_meta a b"
  "same_meta (substitute_therm col a) b = same_meta a b"
  by (simp_all add: same_meta_def)

lemma pass_1_at:
  assumes run: "pass_1 C s = Some sv'"
    and r: "row < size_l (input s)" and c: "col < size_s (input s)"
    and nb: "BI_REFL_BAND_COUNT \<le> nband (input s)"
  shows "\<exists>w. pixel_mask (fst sv') (row * size_s (input s) + col) =
           (if is_fill (p1_input C (input s) row col) col then CF_FILL_BIT
            else fst (classify_pixel (p1_input C (input s) row col) col
                        (pixel_mask s (row * size_s (input s) + col)) w))"
proof -
  let ?S = "size_s (input s)"
  let ?idx = "row * ?S + col"
  let ?v0 = "\<lparr>whiteness = Fin 0, image_data_counter = 0, clear_pixel_counter = 0,
              clear_land_pixel_counter = 0, clear_water_pixel_counter = 0\<rparr>"
  have "\<exists>inp0 inp1 sv.
           read_bands_therm C P1 row inp0 = Some inp1 \<and> same_meta (input (fst (s, ?v0))) inp1
           \<and> same_meta inp1 (input (fst sv)) \<and> col_agree col inp1 (input (fst sv))
           \<and> masks_at ?idx (fst sv) = masks_at ?idx (fst (s, ?v0))
           \<and> masks_at ?idx (fst sv') = masks_at ?idx (fst (p1_pixel row col sv))"
    using run [unfolded pass_1_def] r c
    by (rule row_pass_at)
       (simp_all add: read_bands_therm_meta p1_pixel_meta p1_pixel_col p1_pixel_frame)
  then obtain inp0 inp1 sv where read: "read_bands_therm C P1 row inp0 = Some inp1"
    and m1: "same_meta (input s) inp1" and m2: "same_meta inp1 (input (fst sv))"
    and agree: "col_agree col inp1 (input (fst sv))"
    and before: "masks_at ?idx (fst sv) = masks_at ?idx s"
    and after: "masks_at ?idx (fst sv') = masks_at ?idx (fst (p1_pixel row col sv))"
    by auto
  have m: "same_meta (input s) (input (fst sv))"
    using m1 m2 by (rule same_meta_trans)
  then have size: "size_s (input (fst sv)) = ?S"
    by (simp add: same_meta_def)
  have "nband inp0 = nband (input s)"
    using read_bands_therm_meta [OF read] m1 by (simp add: same_meta_def)
  then have "pixel_agree col inp1 (row_buffer C P1 row (input s))"
    using read nb by (simp add: read_bands_therm_row_buffer)
  then have "pixel_agree col (input (fst sv)) (row_buffer C P1 row (input s))"
    using agree by (blast intro: pixel_agree_trans pixel_agree_sym col_agree_pixel_agree)
  moreover have "same_meta (input (fst sv)) (row_buffer C P1 row (input s))"
    using m by (simp add: same_meta_sym)
  ultimately have pa: "pixel_agree col
      (substitute_therm col (substitute_bands BI_REFL_BAND_COUNT col (input (fst sv))))
      (p1_input C (input s) row col)"
    and sm: "same_meta
      (substitute_therm col (substitute_bands BI_REFL_BAND_COUNT col (input (fst sv))))
      (p1_input C (input s) row col)"
    unfolding p1_input_def by (simp_all add: pixel_agree_substitute)
  have "pixel_mask (fst sv') ?idx = pixel_mask (fst (p1_pixel row col sv)) ?idx"
    using after by (simp add: masks_at_def)
  also have "\<dots> = (if is_fill (p1_input C (input s) row col) col then CF_FILL_BIT
            else fst (classify_pixel (p1_input C (input s) row col) col
                        (pixel_mask (fst sv) ?idx) (whiteness (snd sv))))"
    using p1_pixel_mask_here [of row col sv] is_fill_cong [OF pa] classify_pixel_cong [OF pa sm]
    by (simp add: size Let_def)
  also have "pixel_mask (fst sv) ?idx = pixel_mask s ?idx"
    using before by (simp add: masks_at_def)
  finally show ?thesis
    by blast
qed

section \<open>Runs that cannot fail\<close>

lemma for_rows_total:
  "(\<And>row a. body row a \<noteq> None) \<Longrightarrow> for_rows body rows a \<noteq> None"
  by (induction rows arbitrary: a) (auto split: option.splits)

lemma row_pass_total:
  assumes "\<And>row inp. rd row inp \<noteq> None"
  shows "\<exists>sv'. row_pass rd pixel nrows ncols sv = Some sv'"
proof -
  have "row_pass rd pixel nrows ncols sv \<noteq> None"
    unfolding row_pass_def
    by (rule for_rows_total) (use assms in \<open>auto simp add: with_input_def split: option.splits\<close>)
  then show ?thesis by auto
qed

lemma read_lines_total:
  "(\<And>ib. GetInputLine C p ib row \<noteq> None) \<Longrightarrow> read_lines C p row ibs inp \<noteq> None"
  by (induction ibs arbitrary: inp) (auto split: option.splits)

lemma reliable_reads:
  assumes "reliable C"
  shows "read_bands C p row inp \<noteq> None" "read_therm C p row inp \<noteq> None"
    "read_bands_therm C p row inp \<noteq> None"
proof -
  show b: "read_bands C p row inp \<noteq> None" for inp
    unfolding read_bands_def using assms by (intro read_lines_total) (simp add: reliable_def)
  show t: "read_therm C p row inp \<noteq> None" for inp
    using assms by (auto simp add: read_therm_def reliable_def split: option.splits)
  show "read_bands_therm C p row inp \<noteq> None"
    using b t by (auto simp add: read_bands_therm_def split: option.splits)
qed

lemma reliable_scene [simp]: "reliable (scene_collab lines therm)"
  by (simp add: reliable_def scene_collab_def)

lemma reliable_pass_1: "reliable C \<Longrightarrow> \<exists>sv'. pass_1 C s = Some sv'"
  unfolding pass_1_def by (rule row_pass_total) (simp add: reliable_reads)

section \<open>The example scenes, pixel by pixel\<close>

lemmas band_defs = BI_BLUE_def BI_GREEN_def BI_RED_def BI_NIR_def BI_SWIR_1_def BI_SWIR_2_def
  BI_REFL_BAND_COUNT_def

lemmas float_defs = fsub_def fgt_def feq_def fne_def fle_def fge_def float_of_int_def
  float_of_int16_def MINSIGMA_def

lemmas chain_defs = cloud_chain_def basic_cloud_test_def whiteness_test_def hot_test_def
  ratio_test_def p1_whiteness_def ndvi_of_def ndsi_of_def visi_mean_of_def
  whiteness_quotient_def visible_saturated_def hot_of_def

lemma scene_p1_input:
  "buf (p1_input (scene_collab lines therm) (scene_input n) row col) ib col =
     (if ib < 6 \<and> lines ib col = 20000 then 16000 else lines ib col)"
  "therm_buf (p1_input (scene_collab lines therm) (scene_input n) row col) col =
     (if therm col = 20000 then 5000 else therm col)"
  "satu_value_max (p1_input (scene_collab lines therm) (scene_input n) row col) = (\<lambda>ib. 16000)"
  by (simp_all add: p1_input_def row_buffer_def scene_collab_def scene_input_def
      buf_substitute_bands therm_buf_substitute_therm BI_REFL_BAND_COUNT_def)

lemma demo_values:
  "demo_lines 0 0 = 2000" "demo_lines (Suc 0) 0 = 2000" "demo_lines 2 0 = 2000"
  "demo_lines 3 0 = 1000" "demo_lines 4 0 = 1000" "demo_lines 5 0 = 400"
  "demo_therm 0 = 2000"
  "demo_lines 0 (Suc 0) = 400" "demo_lines (Suc 0) (Suc 0) = 500" "demo_lines 2 (Suc 0) = 600"
  "demo_lines 3 (Suc 0) = 3000" "demo_lines 4 (Suc 0) = 1500" "demo_lines 5 (Suc 0) = 800"
  "demo_therm (Suc 0) = 2500"
  "demo_lines ib 2 = - 9999" "demo_therm 2 = - 9999"
  by (simp_all add: demo_lines_def demo_therm_def)

lemma demo_is_fill:
  "\<not> is_fill (p1_input demo_collab (scene_input 3) 0 0) 0"
  "\<not> is_fill (p1_input demo_collab (scene_input 3) 0 (Suc 0)) (Suc 0)"
  "is_fill (p1_input demo_collab (scene_input 3) 0 2) 2"
  by (simp_all add: is_fill_def demo_collab_def scene_p1_input band_defs demo_values
      FILL_PIXEL_def)

lemma demo_cloud_chain:
  "cloud_chain (p1_input demo_collab (scene_input 3) 0 0) 0"
  "\<not> cloud_chain (p1_input demo_collab (scene_input 3) 0 (Suc 0)) (Suc 0)"
  by (simp_all add: chain_defs demo_collab_def scene_p1_input band_defs demo_values float_defs)

section \<open>Whiteness in pass 1 and pass 3\<close>

lemma classify_pixel_whiteness:
  "snd (classify_pixel inp col pm w) =
     (if visible_saturated inp col then Fin 0
      else if basic_cloud_test inp col then p1_whiteness inp col else w)"
  unfolding classify_pixel_def Let_def basic_cloud_test_def p1_whiteness_def
  by (simp add: bit_set_same bit_set_other bits_nonzero bits_disjoint)

lemma p3_whiteness_eq:
  "p3_whiteness inp col =
     (if \<not> visible_saturated inp col \<and> \<not> fne (visi_mean_of inp col) (Fin 0) then Fin 0
      else p1_whiteness inp col)"
  by (simp add: p3_whiteness_def p1_whiteness_def Let_def)

lemma zero_mean_values:
  "buf zero_mean_input 0 0 = 2000" "buf zero_mean_input (Suc 0) 0 = 0"
  "buf zero_mean_input 2 0 = - 2000" "buf zero_mean_input 3 0 = 1200"
  "buf zero_mean_input 4 0 = 1000" "buf zero_mean_input 5 0 = 400"
  "therm_buf zero_mean_input 0 = 2000" "satu_value_max zero_mean_input = (\<lambda>ib. 16000)"
  by (simp_all add: zero_mean_input_def scene_input_def)

lemma demo_input_values:
  "buf demo_input = demo_lines" "therm_buf demo_input = demo_therm"
  "satu_value_max demo_input = (\<lambda>ib. 16000)"
  by (simp_all add: demo_input_def scene_input_def)

section \<open>Pass 6, one pixel\<close>

lemma single_bit_unchanged:
  assumes "(m AND 2 ^ k \<noteq> 0) = c"
  shows "(if c then m OR 2 ^ k else m AND NOT (2 ^ k)) = (m::uchar)"
proof (cases c)
  case True
  then have "bit m k"
    using assms and_exp_eq_0_iff_not_bit [of m k] by simp
  then have "set_bit k m = m"
    by (simp add: set_bit_eq_idem_iff)
  then show ?thesis
    using True by (simp add: set_bit_eq_or)
next
  case False
  then have "\<not> bit m k"
    using assms and_exp_eq_0_iff_not_bit [of m k] by simp
  then have "unset_bit k m = m"
    by (simp add: unset_bit_eq_idem_iff)
  then show ?thesis
    using False by (simp add: unset_bit_eq_and_not)
qed

lemma set_bit_if_unchanged:
  assumes "b = 2 ^ k" and "bit_set m b = c"
  shows "set_bit_if c b m = m"
  using single_bit_unchanged [of m k c] assms by (simp add: set_bit_if_def bit_set_def)

lemma bits_are_powers:
  "CF_FILL_BIT = 2 ^ 0" "CF_CLOUD_BIT = 2 ^ 1" "CF_SHADOW_BIT = 2 ^ 2" "CF_SNOW_BIT = 2 ^ 3"
  "CF_WATER_BIT = 2 ^ 4"
  by (simp_all add: CF_FILL_BIT_def CF_CLOUD_BIT_def CF_SHADOW_BIT_def CF_SNOW_BIT_def
      CF_WATER_BIT_def)

lemma p6_byte_bits:
  "bit_set (p6_byte a b c d pm) CF_FILL_BIT = bit_set pm CF_FILL_BIT"
  "bit_set (p6_byte a b c d pm) CF_SNOW_BIT = bit_set pm CF_SNOW_BIT"
  "bit_set (p6_byte a b c d pm) CF_CLOUD_BIT = bit_set pm CF_CLOUD_BIT"
  "bit_set (p6_byte a b c d pm) CF_WATER_BIT =
     (bit_set pm CF_WATER_BIT \<and> \<not> bit_set pm CF_CLOUD_BIT)"
  "bit_set (p6_byte a b c d pm) CF_SHADOW_BIT =
     (sint (if sint (a - b) < sint (c - d) then a - b else c - d) > 200)"
  by (auto simp add: p6_byte_def Let_def bit_set_same bit_set_other bit_set_and_not_other
      bit_set_and_not_same bits_nonzero bits_disjoint)

lemma p6_byte_idem: "p6_byte a b c d (p6_byte a b c d pm) = p6_byte a b c d pm"
proof -
  let ?r = "p6_byte a b c d pm"
  have "set_bit_if (sint (if sint (a - b) < sint (c - d) then a - b else c - d) > 200)
          CF_SHADOW_BIT ?r = ?r"
    by (rule set_bit_if_unchanged [OF bits_are_powers(3)]) (simp add: p6_byte_bits)
  moreover have "\<not> (bit_set ?r CF_WATER_BIT \<and> bit_set ?r CF_CLOUD_BIT)"
    by (simp add: p6_byte_bits)
  ultimately show ?thesis
    by (subst (1) p6_byte_def) (auto simp add: Let_def)
qed

lemma substitute_band_twice:
  "substitute_band col a (substitute_band col b (substitute_band col a (substitute_band col b x)))
     = substitute_band col a (substitute_band col b x)"
  by (simp add: substitute_band_def fun_eq_iff)

section \<open>Pass 4 at one pixel\<close>

lemma p4_pixel_meta:
  "same_meta (input (fst sv)) (input (fst (p4_pixel t_templ t_buffer clr wclr pr row col sv)))"
  by (simp add: p4_pixel_def Let_def)

lemma p4_pixel_col:
  "col \<noteq> c \<Longrightarrow>
   col_agree c (input (fst sv)) (input (fst (p4_pixel t_templ t_buffer clr wclr pr row col sv)))"
  by (simp add: p4_pixel_def Let_def col_agree_def therm_buf_substitute_therm)

lemma p4_pixel_frame:
  "row * size_s (input (fst sv)) + col \<noteq> i \<Longrightarrow>
   masks_at i (fst (p4_pixel t_templ t_buffer clr wclr pr row col sv)) = masks_at i (fst sv)"
  by (simp add: p4_pixel_def Let_def masks_at_def)

lemma reliable_pass_4:
  "reliable C \<Longrightarrow> \<exists>sv'. pass_4 C t_templ t_buffer clr wclr pr s = Some sv'"
  unfolding pass_4_def by (rule row_pass_total) (simp add: reliable_reads)

lemma pass_4_at:
  assumes run: "pass_4 C t_templ t_buffer clr wclr pr s = Some sv'"
    and r: "row < size_l (input s)" and c: "col < size_s (input s)"
  shows "\<exists>sv. size_s (input (fst sv)) = size_s (input s)
           \<and> therm_buf (substitute_therm col (input (fst sv))) col = p4_thermal C (input s) row col
           \<and> masks_at (row * size_s (input s) + col) (fst sv)
               = masks_at (row * size_s (input s) + col) s
           \<and> masks_at (row * size_s (input s) + col) (fst sv')
               = masks_at (row * size_s (input s) + col)
                   (fst (p4_pixel t_templ t_buffer clr wclr pr row col sv))"
proof -
  let ?S = "size_s (input s)"
  let ?idx = "row * ?S + col"
  have "\<exists>inp0 inp1 sv.
           read_therm C P4 row inp0 = Some inp1 \<and> same_meta (input (fst (s, ()))) inp1
           \<and> same_meta inp1 (input (fst sv)) \<and> col_agree col inp1 (input (fst sv))
           \<and> masks_at ?idx (fst sv) = masks_at ?idx (fst (s, ()))
           \<and> masks_at ?idx (fst sv')
               = masks_at ?idx (fst (p4_pixel t_templ t_buffer clr wclr pr row col sv))"
    using run [unfolded pass_4_def] r c
    by (rule row_pass_at) (simp_all add: read_therm_meta p4_pixel_meta p4_pixel_col p4_pixel_frame)
  then obtain inp0 inp1 sv where read: "read_therm C P4 row inp0 = Some inp1"
    and m1: "same_meta (input s) inp1" and m2: "same_meta inp1 (input (fst sv))"
    and agree: "col_agree col inp1 (input (fst sv))"
    and before: "masks_at ?idx (fst sv) = masks_at ?idx s"
    and after: "masks_at ?idx (fst sv')
                  = masks_at ?idx (fst (p4_pixel t_templ t_buffer clr wclr pr row col sv))"
    by auto
  have m: "same_meta (input s) (input (fst sv))"
    using m1 m2 by (rule same_meta_trans)
  have "therm_buf (input (fst sv)) col = therm_buf (row_buffer C P4 row (input s)) col"
    using agree read_therm_buf [OF read] by (simp add: col_agree_def row_buffer_def)
  then have "therm_buf (substitute_therm col (input (fst sv))) col
               = p4_thermal C (input s) row col"
    using m by (simp add: p4_thermal_def therm_buf_substitute_therm same_meta_def row_buffer_def)
  moreover have "size_s (input (fst sv)) = ?S"
    using m by (simp add: same_meta_def)
  ultimately show ?thesis
    using before after by blast
qed

section \<open>What each pass leaves alone\<close>

lemma row_pass_effect:
  fixes sv0 :: "state \<times> 'v"
  assumes run: "row_pass rd pixel nrows ncols sv0 = Some sv'"
    and refl: "\<And>s. R s s"
    and trans: "\<And>a b c. R a b \<Longrightarrow> R b c \<Longrightarrow> R a c"
    and inp: "\<And>row s x. rd row (input s) = Some x \<Longrightarrow> R s (s\<lparr>input := x\<rparr>)"
    and step: "\<And>row col sv. R (fst sv) (fst (pixel row col sv))"
  shows "R (fst sv0) (fst sv')"
proof -
  define I where "I = (\<lambda>(k::nat) (sv::state \<times> 'v). R (fst sv0) (fst sv))"
  define J where "J = (\<lambda>(k::nat) (j::nat) (sv::state \<times> 'v). R (fst sv0) (fst sv))"
  have "I nrows sv'"
  proof (rule row_pass_rule [where I = I and J = J, OF run])
    show "I 0 sv0" by (simp add: I_def refl)
  next
    fix row sv inp1
    assume "I row sv" and "rd row (input (fst sv)) = Some inp1"
    then show "J row 0 ((fst sv)\<lparr>input := inp1\<rparr>, snd sv)"
      using inp [of row "fst sv" inp1] by (auto simp add: I_def J_def intro: trans)
  next
    fix row col sv
    assume "J row col sv"
    then show "J row (Suc col) (pixel row col sv)"
      using step [of sv row col] by (auto simp add: J_def intro: trans)
  next
    fix row sv
    assume "J row ncols sv"
    then show "I (Suc row) sv" by (simp add: I_def J_def)
  qed
  then show ?thesis by (simp add: I_def)
qed

lemma unchanged_refl: "unchanged s s"
  by (simp add: unchanged_def)

lemma unchanged_trans: "unchanged a b \<Longrightarrow> unchanged b c \<Longrightarrow> unchanged a c"
  by (auto simp add: unchanged_def intro: same_meta_trans)

lemma p4_keeps_refl: "p4_keeps a a"
  by (simp add: p4_keeps_def)

lemma p4_keeps_trans: "p4_keeps a b \<Longrightarrow> p4_keeps b c \<Longrightarrow> p4_keeps a c"
  by (auto simp add: p4_keeps_def)

lemma p6_keeps_refl: "p6_keeps a a"
  by (simp add: p6_keeps_def)

lemma p6_keeps_trans: "p6_keeps a b \<Longrightarrow> p6_keeps b c \<Longrightarrow> p6_keeps a c"
  by (auto simp add: p6_keeps_def)

lemma pass_4_effect_refl: "pass_4_effect s s"
  by (simp add: pass_4_effect_def p4_keeps_refl)

lemma pass_4_effect_trans: "pass_4_effect a b \<Longrightarrow> pass_4_effect b c \<Longrightarrow> pass_4_effect a c"
  by (auto simp add: pass_4_effect_def intro: same_meta_trans p4_keeps_trans)

lemma pass_6_effect_refl: "pass_6_effect s s"
  by (simp add: pass_6_effect_def p6_keeps_refl)

lemma pass_6_effect_trans: "pass_6_effect a b \<Longrightarrow> pass_6_effect b c \<Longrightarrow> pass_6_effect a c"
  by (auto simp add: pass_6_effect_def intro: same_meta_trans p6_keeps_trans)

lemma pass_2_unchanged: "pass_2 C land_bit water_bit s = Some sv' \<Longrightarrow> unchanged s (fst sv')"
  unfolding pass_2_def
  by (drule row_pass_effect [where R = unchanged])
     (auto simp add: unchanged_def p2_pixel_def Let_def dest: read_therm_meta
       intro: same_meta_trans)

lemma pass_3_unchanged:
  "pass_3 C t_wtemp t_temph temp_l s = Some sv' \<Longrightarrow> unchanged s (fst sv')"
  unfolding pass_3_def
  by (drule row_pass_effect [where R = unchanged])
     (auto simp add: unchanged_def p3_pixel_def Let_def dest: read_bands_therm_meta
       intro: same_meta_trans)

lemma p4_pixel_keeps:
  "p4_keeps (pixel_mask (fst sv) i)
     (pixel_mask (fst (p4_pixel t_templ t_buffer clr wclr pr row col sv)) i)"
  by (simp add: p4_pixel_def Let_def p4_keeps_def bit_set_or_other bit_set_and_not_other
      bits_disjoint)

lemma pass_4_keeps:
  "pass_4 C t_templ t_buffer clr wclr pr s = Some sv' \<Longrightarrow> pass_4_effect s (fst sv')"
  unfolding pass_4_def
proof (drule row_pass_effect [where R = pass_4_effect])
  show "pass_4_effect s s" for s by (rule pass_4_effect_refl)
  show "pass_4_effect a b \<Longrightarrow> pass_4_effect b c \<Longrightarrow> pass_4_effect a c" for a b c
    by (rule pass_4_effect_trans)
  show "read_therm C P4 row (input s) = Some x \<Longrightarrow> pass_4_effect s (s\<lparr>input := x\<rparr>)" for row s x
    by (auto simp add: pass_4_effect_def p4_keeps_refl dest: read_therm_meta)
  show "pass_4_effect (fst sv) (fst (p4_pixel t_templ t_buffer clr wclr pr row col sv))"
    for row col sv
    using p4_pixel_meta [of sv t_templ t_buffer clr wclr pr row col]
    by (simp add: pass_4_effect_def p4_pixel_keeps) (simp add: p4_pixel_def Let_def)
qed simp

lemma p6_pixel_meta:
  "same_meta (input (fst sv)) (input (fst (p6_pixel f g row col sv)))"
  by (simp add: p6_pixel_def Let_def)

lemma p6_byte_keeps: "\<not> bit_set pm CF_FILL_BIT \<Longrightarrow> p6_keeps pm (p6_byte a b c d pm)"
  by (simp add: p6_keeps_def p6_byte_bits)

lemma p6_pixel_keeps:
  "p6_keeps (pixel_mask (fst sv) i) (pixel_mask (fst (p6_pixel f g row col sv)) i)"
  by (simp add: p6_pixel_def Let_def p6_keeps_refl p6_byte_keeps)

lemma pass_6_keeps: "pass_6 C f g s = Some sv' \<Longrightarrow> pass_6_effect s (fst sv')"
  unfolding pass_6_def
proof (drule row_pass_effect [where R = pass_6_effect])
  show "pass_6_effect s s" for s by (rule pass_6_effect_refl)
  show "pass_6_effect a b \<Longrightarrow> pass_6_effect b c \<Longrightarrow> pass_6_effect a c" for a b c
    by (rule pass_6_effect_trans)
  show "read_bands_therm C P6 row (input s) = Some x \<Longrightarrow> pass_6_effect s (s\<lparr>input := x\<rparr>)"
    for row s x
    by (auto simp add: pass_6_effect_def p6_keeps_refl dest: read_bands_therm_meta)
  show "pass_6_effect (fst sv) (fst (p6_pixel f g row col sv))" for row col sv
    using p6_pixel_meta [of sv f g row col]
    by (simp add: pass_6_effect_def p6_pixel_keeps) (simp add: p6_pixel_def Let_def)
qed simp

lemma for_rows_effect:
  assumes run: "for_rows body rows sv0 = Some sv'"
    and refl: "\<And>s. R s s"
    and trans: "\<And>a b c. R a b \<Longrightarrow> R b c \<Longrightarrow> R a c"
    and step: "\<And>row sv sv1. body row sv = Some sv1 \<Longrightarrow> R (fst sv) (fst sv1)"
  shows "R (fst sv0) (fst sv')"
  using run
proof (induction rows arbitrary: sv0)
  case Nil
  then show ?case by (simp add: refl)
next
  case (Cons row rows)
  then obtain sv1 where "body row sv0 = Some sv1" and "for_rows body rows sv1 = Some sv'"
    by (auto split: option.splits)
  then show ?case
    using Cons.IH [of sv1] step [of row sv0 sv1] by (blast intro: trans)
qed

lemma fold_effect:
  assumes refl: "\<And>s. R s s"
    and trans: "\<And>a b c. R a b \<Longrightarrow> R b c \<Longrightarrow> R a c"
    and step: "\<And>x sv. R (fst sv) (fst (f x sv))"
  shows "R (fst sv) (fst (fold f xs sv))"
proof (induction xs arbitrary: sv)
  case Nil
  show ?case by (simp add: refl)
next
  case (Cons x xs)
  show ?case
    using step [of sv x] Cons [of "f x sv"] by (auto intro: trans)
qed

lemma p5_pixel_unchanged: "unchanged (fst sv) (fst (p5_pixel land_bit row col sv))"
  by (simp add: p5_pixel_def Let_def unchanged_def)

lemma p5_row_unchanged:
  assumes "p5_row C land_bit row sv = Some sv1"
  shows "unchanged (fst sv) (fst sv1)"
proof -
  from assms obtain inp1 where read: "read_bands C P5 row (input (fst sv)) = Some inp1"
    and sv1: "fst sv1 = fst (fold (p5_pixel land_bit row) [0..<size_s inp1]
                               ((fst sv)\<lparr>input := inp1\<rparr>, snd sv))"
    by (auto simp add: p5_row_def with_input_def Let_def split: option.splits)
  have "unchanged (fst sv) ((fst sv)\<lparr>input := inp1\<rparr>)"
    using read_bands_meta [OF read] by (simp add: unchanged_def)
  moreover have "unchanged ((fst sv)\<lparr>input := inp1\<rparr>) (fst sv1)"
    unfolding sv1
    using fold_effect [where R = unchanged and f = "p5_pixel land_bit row"
        and sv = "((fst sv)\<lparr>input := inp1\<rparr>, snd sv)", OF unchanged_refl unchanged_trans
        p5_pixel_unchanged]
    by simp
  ultimately show ?thesis
    by (rule unchanged_trans)
qed

lemma pass_5_unchanged: "pass_5 C land_bit s = Some sv' \<Longrightarrow> unchanged s (fst sv')"
  unfolding pass_5_def
  by (drule for_rows_effect [where R = unchanged, OF _ unchanged_refl unchanged_trans])
     (auto dest: p5_row_unchanged)

section \<open>The other bits of pass 1\<close>

lemma classify_pixel_bits:
  "bit_set (fst (classify_pixel inp col pm w)) CF_SNOW_BIT = snow_test inp col"
  "bit_set (fst (classify_pixel inp col pm w)) CF_WATER_BIT = water_test inp col"
  "bit_set (fst (classify_pixel inp col pm w)) CF_FILL_BIT = bit_set pm CF_FILL_BIT"
  "bit_set (fst (classify_pixel inp col pm w)) CF_SHADOW_BIT = bit_set pm CF_SHADOW_BIT"
  unfolding classify_pixel_def Let_def snow_test_def water_test_def
  by (simp_all add: bit_set_same bit_set_other bit_set_and_not_other bits_nonzero bits_disjoint)

section \<open>The all-cloud shortcut\<close>

lemma all_cloud_at:
  "all_cloud n pm i =
     (if i < n then set_bit_if (\<not> bit_set (pm i) CF_CLOUD_BIT) CF_SHADOW_BIT (pm i) else pm i)"
proof (induction n arbitrary: i)
  case 0
  show ?case by (simp add: all_cloud_def)
next
  case (Suc n)
  have "all_cloud (Suc n) pm = all_cloud_pixel n (all_cloud n pm)"
    by (simp add: all_cloud_def)
  then show ?case
    using Suc by (simp add: all_cloud_pixel_def less_Suc_eq)
qed

lemma all_cloud_bits:
  "b AND CF_SHADOW_BIT = 0 \<Longrightarrow> bit_set (all_cloud n pm i) b = bit_set (pm i) b"
proof -
  assume "b AND CF_SHADOW_BIT = 0"
  then have "CF_SHADOW_BIT AND b = 0"
    by (simp add: and.commute)
  then show ?thesis
    by (simp add: all_cloud_at bit_set_other)
qed

section \<open>The stages\<close>

lemma stage_1_Inr:
  assumes "stage_1 C s0 = Inr (s1, v1, heap1)"
  shows "pass_1 C (s0\<lparr>clear_mask := (\<lambda>i. 0)\<rparr>) = Some (s1, v1)" and "heap1 = {B_clear_mask}"
  using assms by (auto simp add: stage_1_def calloc_def split: if_splits option.splits)

lemma stage_2_Inr:
  assumes "stage_2 C land_ptm water_ptm s heap0 = Inr (s', th, heap')"
  shows "unchanged s s'" and "t_buffer_of th = 400"
  using assms
  by (auto simp add: stage_2_def calloc_def Let_def split: if_splits option.splits
      dest: pass_2_unchanged)

lemma stage_3_Inr:
  assumes "stage_3 C th s heap0 = Inr (s', pr, heap')"
  shows "unchanged s s'"
  using assms
  by (auto simp add: stage_3_def calloc_def split: if_splits option.splits
      dest: pass_3_unchanged)

lemma stage_4_Inr:
  assumes "stage_4 C cloud_prob_threshold th pr s heap0 = Inr (s', heap')"
  shows "pass_4_effect s s'"
  using assms
  by (auto simp add: stage_4_def calloc_def Let_def split: if_splits option.splits
      dest: pass_4_keeps)

lemma stage_5_Inr:
  assumes "stage_5 C th s heap0 = Inr (s', f, g, heap')"
  shows "unchanged s s'"
  using assms
  by (auto simp add: stage_5_def calloc_def Let_def split: if_splits option.splits
      dest: pass_5_unchanged)

lemma stage_6_Inr:
  assumes "stage_6 C f g s heap0 = Inr (s', heap')"
  shows "pass_6 C f g s = Some (s', ())"
  using assms by (auto simp add: stage_6_def split: option.splits)

lemma unchanged_pass_4_effect: "unchanged s s' \<Longrightarrow> pass_4_effect s s'"
  by (simp add: unchanged_def pass_4_effect_def p4_keeps_refl)

lemma full_path_Inr:
  assumes "full_path C cloud_prob_threshold land_ptm water_ptm s1 heap1 = Inr (s6, th, heap6)"
  shows "\<exists>s5 f g. pass_4_effect s1 s5 \<and> pass_6 C f g s5 = Some (s6, ())"
proof -
  from assms obtain s2 heap2 s3 pr heap3 s4 heap4 s5 f g heap5
    where 2: "stage_2 C land_ptm water_ptm s1 heap1 = Inr (s2, th, heap2)"
      and 3: "stage_3 C th s2 heap2 = Inr (s3, pr, heap3)"
      and 4: "stage_4 C cloud_prob_threshold th pr s3 heap3 = Inr (s4, heap4)"
      and 5: "stage_5 C th s4 heap4 = Inr (s5, f, g, heap5)"
      and 6: "stage_6 C f g s5 heap5 = Inr (s6, heap6)"
    by (auto simp add: full_path_def split: sum.splits)
  have "pass_4_effect s1 s5"
    using stage_2_Inr(1) [OF 2] stage_3_Inr [OF 3] stage_4_Inr [OF 4] stage_5_Inr [OF 5]
    by (blast intro: pass_4_effect_trans unchanged_pass_4_effect)
  then show ?thesis
    using stage_6_Inr [OF 6] by blast
qed

lemma entry_state_clear [simp]:
  "(entry_state inp pm cm)\<lparr>clear_mask := (\<lambda>i. 0)\<rparr> = entry_state inp pm cm"
  by (simp add: entry_state_def)

lemma operation_SUCCESS:
  assumes "potential_cloud_shadow_snow_mask C inp cloud_prob_threshold pm cm = SUCCESS r"
  shows "\<exists>s1 v1. pass_1 C (entry_state inp pm cm) = Some (s1, v1)
           \<and> r_clear_ptm r = percent_of (clear_pixel_counter v1) (image_data_counter v1)
           \<and> (if all_cloud_test (r_clear_ptm r)
                then r_pixel_mask r = all_cloud (size_l inp * size_s inp) (pixel_mask s1)
                     \<and> r_conf_mask r = conf_mask s1
                     \<and> r_t_templ r = Fin (- 1) \<and> r_t_temph r = Fin (- 1)
                else \<exists>s5 f g s6. pass_4_effect s1 s5 \<and> pass_6 C f g s5 = Some (s6, ())
                       \<and> r_pixel_mask r = pixel_mask s6 \<and> r_conf_mask r = conf_mask s6)"
proof -
  from assms obtain s1 v1 heap1
    where 1: "stage_1 C (entry_state inp pm cm) = Inr (s1, v1, heap1)"
    by (auto simp add: potential_cloud_shadow_snow_mask_def entry_state_def split: sum.splits)
  let ?ptm = "percent_of (clear_pixel_counter v1) (image_data_counter v1)"
  have p1: "pass_1 C (entry_state inp pm cm) = Some (s1, v1)"
    using stage_1_Inr(1) [OF 1] by simp
  show ?thesis
  proof (cases "all_cloud_test ?ptm")
    case True
    then have "r = \<lparr>r_clear_ptm = ?ptm, r_t_templ = Fin (- 1), r_t_temph = Fin (- 1),
                    r_pixel_mask = all_cloud (size_l inp * size_s inp) (pixel_mask s1),
                    r_conf_mask = conf_mask s1, r_heap = free B_clear_mask heap1\<rparr>"
      using assms 1
      by (simp add: potential_cloud_shadow_snow_mask_def entry_state_def Let_def)
    then show ?thesis
      using True p1 by auto
  next
    case False
    then obtain s6 th heap6 where
      fp: "full_path C cloud_prob_threshold
             (percent_of (clear_land_pixel_counter v1) (image_data_counter v1))
             (percent_of (clear_water_pixel_counter v1) (image_data_counter v1))
             s1 heap1 = Inr (s6, th, heap6)"
      and r: "r = \<lparr>r_clear_ptm = ?ptm, r_t_templ = t_templ_of th, r_t_temph = t_temph_of th,
                     r_pixel_mask = pixel_mask s6, r_conf_mask = conf_mask s6,
                     r_heap = free B_clear_mask heap6\<rparr>"
      using assms 1
      by (auto simp add: potential_cloud_shadow_snow_mask_def entry_state_def Let_def
          split: sum.splits)
    from full_path_Inr [OF fp] obtain s5 f g
      where "pass_4_effect s1 s5" and "pass_6 C f g s5 = Some (s6, ())"
      by blast
    then show ?thesis
      using False p1 r by auto
  qed
qed

section \<open>With reliable collaborators the operation succeeds\<close>

lemma row_pass_not_None:
  "(\<And>row inp. rd row inp \<noteq> None) \<Longrightarrow> row_pass rd pixel nrows ncols sv \<noteq> None"
  using row_pass_total [of rd pixel nrows ncols sv] by auto

lemma reliable_passes:
  assumes "reliable C"
  shows "pass_1 C s \<noteq> None" "pass_2 C land_bit water_bit s \<noteq> None"
    "pass_3 C t_wtemp t_temph temp_l s \<noteq> None"
    "pass_4 C t_templ t_buffer clr wclr pr s \<noteq> None"
    "pass_5 C land_bit s \<noteq> None" "pass_6 C f g s \<noteq> None"
proof -
  note rd = reliable_reads [OF assms]
  show "pass_1 C s \<noteq> None" "pass_2 C land_bit water_bit s \<noteq> None"
    "pass_3 C t_wtemp t_temph temp_l s \<noteq> None"
    "pass_4 C t_templ t_buffer clr wclr pr s \<noteq> None" "pass_6 C f g s \<noteq> None"
    unfolding pass_1_def pass_2_def pass_3_def pass_4_def pass_6_def
    by (rule row_pass_not_None, rule rd)+
  show "pass_5 C land_bit s \<noteq> None"
    unfolding pass_5_def
    by (rule for_rows_total)
       (use rd in \<open>auto simp add: p5_row_def with_input_def Let_def split: option.splits\<close>)
qed

lemma Inr_case_option:
  assumes "x \<noteq> None" and "\<And>y. \<exists>z. f y = Inr z"
  shows "\<exists>z. (case x of None \<Rightarrow> Inl e | Some y \<Rightarrow> f y) = Inr z"
  using assms by (cases x) auto

lemma reliable_stages:
  assumes "reliable C"
  shows "\<exists>x. stage_1 C s = Inr x"
    "\<exists>x. stage_2 C land_ptm water_ptm s heap = Inr x"
    "\<exists>x. stage_3 C th s heap = Inr x"
    "\<exists>x. stage_4 C cloud_prob_threshold th pr s heap = Inr x"
    "\<exists>x. stage_5 C th s heap = Inr x"
    "\<exists>x. stage_6 C f g s heap = Inr x"
proof -
  have alloc: "alloc_succeeds C b" for b
    using assms by (simp add: reliable_def)
  have p: "prctile C samples n mn mx pct \<noteq> None" for samples n mn mx pct
    using assms by (simp add: reliable_def)
  have p2: "prctile2 C samples n mn mx pct \<noteq> None" for samples n mn mx pct
    using assms by (simp add: reliable_def)
  have fill: "fill_local_minima_in_image C label src l s boundary \<noteq> None"
    for label src l s boundary
    using assms by (simp add: reliable_def)
  note passes = reliable_passes [OF assms]
  show "\<exists>x. stage_1 C s = Inr x"
    unfolding stage_1_def calloc_def
    by (simp only: alloc if_True prod.case simp_thms if_False)
       (intro Inr_case_option passes, blast)
  show "\<exists>x. stage_2 C land_ptm water_ptm s heap = Inr x"
    unfolding stage_2_def calloc_def Let_def
    by (simp only: alloc if_True prod.case simp_thms if_False)
       (intro Inr_case_option passes p, blast)
  show "\<exists>x. stage_3 C th s heap = Inr x"
    unfolding stage_3_def calloc_def
    by (simp only: alloc if_True prod.case simp_thms if_False)
       (intro Inr_case_option passes, blast)
  show "\<exists>x. stage_4 C cloud_prob_threshold th pr s heap = Inr x"
    unfolding stage_4_def calloc_def Let_def
    by (simp only: alloc if_True prod.case simp_thms if_False)
       (intro Inr_case_option passes p2, blast)
  show "\<exists>x. stage_5 C th s heap = Inr x"
    unfolding stage_5_def calloc_def Let_def
    by (simp only: alloc if_True prod.case simp_thms if_False)
       (intro Inr_case_option passes p fill, blast)
  show "\<exists>x. stage_6 C f g s heap = Inr x"
    unfolding stage_6_def
    by (intro Inr_case_option passes, blast)
qed

lemma reliable_full_path:
  assumes "reliable C"
  shows "\<exists>x. full_path C cloud_prob_threshold land_ptm water_ptm s heap = Inr x"
proof -
  note st = reliable_stages [OF assms]
  obtain s2 th heap2 where 2: "stage_2 C land_ptm water_ptm s heap = Inr (s2, th, heap2)"
    using st(2) [of land_ptm water_ptm s heap] by auto
  obtain s3 pr heap3 where 3: "stage_3 C th s2 heap2 = Inr (s3, pr, heap3)"
    using st(3) [of th s2 heap2] by auto
  obtain s4 heap4 where 4: "stage_4 C cloud_prob_threshold th pr s3 heap3 = Inr (s4, heap4)"
    using st(4) [of cloud_prob_threshold th pr s3 heap3] by auto
  obtain s5 f g heap5 where 5: "stage_5 C th s4 heap4 = Inr (s5, f, g, heap5)"
    using st(5) [of th s4 heap4] by auto
  obtain s6 heap6 where 6: "stage_6 C f g s5 heap5 = Inr (s6, heap6)"
    using st(6) [of f g s5 heap5] by auto
  show ?thesis
    by (simp add: full_path_def 2 3 4 5 6)
qed

lemma reliable_operation:
  assumes "reliable C"
  shows "\<exists>r. potential_cloud_shadow_snow_mask C inp cloud_prob_threshold pm cm = SUCCESS r"
proof -
  obtain s1 v1 heap1
    where 1: "stage_1 C \<lparr>input = inp, pixel_mask = pm, conf_mask = cm, clear_mask = (\<lambda>i. 0)\<rparr>
                = Inr (s1, v1, heap1)"
    using reliable_stages(1) [OF assms] by (metis prod_cases3)
  show ?thesis
    using reliable_full_path [OF assms, of cloud_prob_threshold _ _ s1 heap1]
    by (simp add: potential_cloud_shadow_snow_mask_def 1 Let_def split: sum.splits prod.splits)
       (metis sum.simps(4) sum.exhaust)
qed

lemma pass_1_bits:
  assumes "pass_1 C s = Some sv'"
    and "row < size_l (input s)" and "col < size_s (input s)"
    and "BI_REFL_BAND_COUNT \<le> nband (input s)"
    and "\<not> is_fill (p1_input C (input s) row col) col"
    and "i = row * size_s (input s) + col"
  shows "bit_set (pixel_mask (fst sv') i) CF_CLOUD_BIT = cloud_chain (p1_input C (input s) row col) col"
    and "bit_set (pixel_mask (fst sv') i) CF_SNOW_BIT = snow_test (p1_input C (input s) row col) col"
    and "bit_set (pixel_mask (fst sv') i) CF_WATER_BIT = water_test (p1_input C (input s) row col) col"
    and "bit_set (pixel_mask (fst sv') i) CF_FILL_BIT = bit_set (pixel_mask s i) CF_FILL_BIT"
    and "bit_set (pixel_mask (fst sv') i) CF_SHADOW_BIT = bit_set (pixel_mask s i) CF_SHADOW_BIT"
  using pass_1_at [OF assms(1-4)] assms(5,6)
  by (auto simp add: classify_pixel_cloud classify_pixel_bits)

lemma pass_1_fill:
  assumes "pass_1 C s = Some sv'"
    and "row < size_l (input s)" and "col < size_s (input s)"
    and "BI_REFL_BAND_COUNT \<le> nband (input s)"
    and "is_fill (p1_input C (input s) row col) col"
  shows "pixel_mask (fst sv') (row * size_s (input s) + col) = CF_FILL_BIT"
  using pass_1_at [OF assms(1-4)] assms(5) by auto

lemma demo_values_3:
  "demo_lines 0 3 = 8000" "demo_lines (Suc 0) 3 = 8500" "demo_lines 2 3 = 8000"
  "demo_lines 3 3 = 4000" "demo_lines 4 3 = 1000" "demo_lines 5 3 = 400"
  "demo_therm 3 = 500"
  by (simp_all add: demo_lines_def demo_therm_def)

lemma demo_is_fill_4:
  "\<not> is_fill (p1_input demo_collab (scene_input 4) 0 0) 0"
  "\<not> is_fill (p1_input demo_collab (scene_input 4) 0 (Suc 0)) (Suc 0)"
  "is_fill (p1_input demo_collab (scene_input 4) 0 2) 2"
  "\<not> is_fill (p1_input demo_collab (scene_input 4) 0 3) 3"
  by (simp_all add: is_fill_def demo_collab_def scene_p1_input band_defs demo_values
      demo_values_3 FILL_PIXEL_def)

lemma demo_snow_test:
  "snow_test (p1_input demo_collab (scene_input 4) 0 3) 3"
  "\<not> snow_test (p1_input demo_collab (scene_input 4) 0 (Suc 0)) (Suc 0)"
  by (simp_all add: snow_test_def ndsi_of_def demo_collab_def scene_p1_input band_defs
      demo_values demo_values_3 float_defs)

lemma scene_input_fields [simp]:
  "size_l (scene_input n) = 1" "size_s (scene_input n) = n" "nband (scene_input n) = 6"
  by (simp_all add: scene_input_def)

lemma entry_state_fields [simp]:
  "input (entry_state inp pm cm) = inp" "pixel_mask (entry_state inp pm cm) = pm"
  "conf_mask (entry_state inp pm cm) = cm" "clear_mask (entry_state inp pm cm) = (\<lambda>i. 0)"
  by (simp_all add: entry_state_def)

lemma operation_SUCCESS_cases:
  assumes "potential_cloud_shadow_snow_mask C inp cloud_prob_threshold pm cm = SUCCESS r"
  obtains
    (shortcut) s1 v1 where "pass_1 C (entry_state inp pm cm) = Some (s1, v1)"
      and "r_clear_ptm r = percent_of (clear_pixel_counter v1) (image_data_counter v1)"
      and "all_cloud_test (r_clear_ptm r)"
      and "r_pixel_mask r = all_cloud (size_l inp * size_s inp) (pixel_mask s1)"
      and "r_conf_mask r = conf_mask s1"
      and "r_t_templ r = Fin (- 1)" and "r_t_temph r = Fin (- 1)"
  | (full) s1 v1 s5 f g s6 where "pass_1 C (entry_state inp pm cm) = Some (s1, v1)"
      and "r_clear_ptm r = percent_of (clear_pixel_counter v1) (image_data_counter v1)"
      and "\<not> all_cloud_test (r_clear_ptm r)"
      and "pass_4_effect s1 s5" and "pass_6 C f g s5 = Some (s6, ())"
      and "r_pixel_mask r = pixel_mask s6" and "r_conf_mask r = conf_mask s6"
proof (cases "all_cloud_test (r_clear_ptm r)")
  case True
  with operation_SUCCESS [OF assms] show thesis
    by (auto intro: shortcut)
next
  case False
  with operation_SUCCESS [OF assms] show thesis
    by (auto intro: full)
qed

lemma calloc_mono: "calloc C b h = (ok, h') \<Longrightarrow> h \<subseteq> h'"
  by (auto simp add: calloc_def split: if_splits)

lemma owns_option:
  "owns hp a \<Longrightarrow> (\<And>v. owns hp (b v)) \<Longrightarrow> owns hp (case x of None \<Rightarrow> a | Some v \<Rightarrow> b v)"
  by (cases x) simp_all

lemma owns_if: "(c \<Longrightarrow> owns hp a) \<Longrightarrow> (\<not> c \<Longrightarrow> owns hp b) \<Longrightarrow> owns hp (if c then a else b)"
  by simp

lemma owns_Let: "(\<And>v. v = t \<Longrightarrow> owns hp (f v)) \<Longrightarrow> owns hp (Let t f)"
  by simp

lemma owns_prod: "(\<And>a b. p = (a, b) \<Longrightarrow> owns hp (f a b)) \<Longrightarrow> owns hp (case p of (a, b) \<Rightarrow> f a b)"
  by (cases p) simp

lemma owns_Inl: "B_clear_mask \<in> snd f \<Longrightarrow> owns hp (Inl f)"
  by (simp add: owns_def)

lemma owns_Inr: "B_clear_mask \<in> hp t \<Longrightarrow> owns hp (Inr t)"
  by (simp add: owns_def)

lemmas owns_intros = owns_option owns_if owns_Let owns_prod owns_Inl owns_Inr

lemma stage_2_owns:
  "B_clear_mask \<in> heap0 \<Longrightarrow> owns (\<lambda>t. snd (snd t)) (stage_2 C l w s heap0)"
  unfolding stage_2_def
  apply (intro owns_intros)
  apply (auto dest!: calloc_mono simp add: free_def)
  done

lemma stage_3_owns:
  "B_clear_mask \<in> heap0 \<Longrightarrow> owns (\<lambda>t. snd (snd t)) (stage_3 C th s heap0)"
  unfolding stage_3_def
  apply (intro owns_intros)
  apply (auto dest!: calloc_mono simp add: free_def)
  done

lemma stage_4_owns:
  "B_clear_mask \<in> heap0 \<Longrightarrow> owns snd (stage_4 C t th pr s heap0)"
  unfolding stage_4_def
  apply (intro owns_intros)
  apply (auto dest!: calloc_mono simp add: free_def)
  done

lemma stage_5_owns:
  "B_clear_mask \<in> heap0 \<Longrightarrow> owns (\<lambda>t. snd (snd (snd t))) (stage_5 C th s heap0)"
  unfolding stage_5_def
  apply (intro owns_intros)
  apply (auto dest!: calloc_mono simp add: free_def)
  apply blast+
  done

lemma stage_6_owns:
  "B_clear_mask \<in> heap0 \<Longrightarrow> owns snd (stage_6 C f g s heap0)"
  unfolding stage_6_def
  apply (intro owns_intros)
  apply (auto dest!: calloc_mono simp add: free_def)
  done

lemma stage_1_owns:
  "alloc_succeeds C B_clear_mask \<Longrightarrow> owns (\<lambda>t. snd (snd t)) (stage_1 C s)"
  unfolding stage_1_def
  apply (intro owns_intros)
  apply (auto simp add: calloc_def)
  done

lemma owns_sum:
  "(\<And>f. x = Inl f \<Longrightarrow> owns hp (a f)) \<Longrightarrow> (\<And>t. x = Inr t \<Longrightarrow> owns hp (b t))
   \<Longrightarrow> owns hp (case x of Inl f \<Rightarrow> a f | Inr t \<Rightarrow> b t)"
  by (cases x) simp_all

lemma owns_InlD: "r = Inl f \<Longrightarrow> owns hp r \<Longrightarrow> B_clear_mask \<in> snd f"
  by (simp add: owns_def)

lemma owns_InrD: "r = Inr t \<Longrightarrow> owns hp r \<Longrightarrow> B_clear_mask \<in> hp t"
  by (simp add: owns_def)

lemma full_path_owns:
  assumes "B_clear_mask \<in> heap1"
  shows "owns (\<lambda>t. snd (snd t)) (full_path C t l w s1 heap1)"
  unfolding full_path_def
proof (intro owns_sum owns_prod owns_Inl owns_Inr, goal_cases)
  case (1 f)
  then show ?case using owns_InlD stage_2_owns [OF assms] by blast
next
  case (2 t2 s2 r2 th h2 f)
  have "B_clear_mask \<in> h2"
    using owns_InrD [OF 2(1) stage_2_owns [OF assms]] 2(2,3) by simp
  then show ?case using owns_InlD [OF 2(4)] stage_3_owns by blast
next
  case (3 t2 s2 r2 th h2 t3 s3 r3 pr h3 f)
  have "B_clear_mask \<in> h2"
    using owns_InrD [OF 3(1) stage_2_owns [OF assms]] 3(2,3) by simp
  then have "B_clear_mask \<in> h3"
    using owns_InrD [OF 3(4) stage_3_owns] 3(5,6) by simp
  then show ?case using owns_InlD [OF 3(7)] stage_4_owns by blast
next
  case (4 t2 s2 r2 th h2 t3 s3 r3 pr h3 t4 s4 h4 f)
  have "B_clear_mask \<in> h2"
    using owns_InrD [OF 4(1) stage_2_owns [OF assms]] 4(2,3) by simp
  then have "B_clear_mask \<in> h3"
    using owns_InrD [OF 4(4) stage_3_owns] 4(5,6) by simp
  then have "B_clear_mask \<in> h4"
    using owns_InrD [OF 4(7) stage_4_owns] 4(8) by simp
  then show ?case using owns_InlD [OF 4(9)] stage_5_owns by blast
next
  case (5 t2 s2 r2 th h2 t3 s3 r3 pr h3 t4 s4 h4 t5 s5 r5 f5 r5' g5 h5 f)
  have "B_clear_mask \<in> h2"
    using owns_InrD [OF 5(1) stage_2_owns [OF assms]] 5(2,3) by simp
  then have "B_clear_mask \<in> h3"
    using owns_InrD [OF 5(4) stage_3_owns] 5(5,6) by simp
  then have "B_clear_mask \<in> h4"
    using owns_InrD [OF 5(7) stage_4_owns] 5(8) by simp
  then have "B_clear_mask \<in> h5"
    using owns_InrD [OF 5(9) stage_5_owns] 5(10,11,12) by simp
  then show ?case using owns_InlD [OF 5(13)] stage_6_owns by blast
next
  case (6 t2 s2 r2 th h2 t3 s3 r3 pr h3 t4 s4 h4 t5 s5 r5 f5 r5' g5 h5 t6 s6 h6)
  have "B_clear_mask \<in> h2"
    using owns_InrD [OF 6(1) stage_2_owns [OF assms]] 6(2,3) by simp
  then have "B_clear_mask \<in> h3"
    using owns_InrD [OF 6(4) stage_3_owns] 6(5,6) by simp
  then have "B_clear_mask \<in> h4"
    using owns_InrD [OF 6(7) stage_4_owns] 6(8) by simp
  then have "B_clear_mask \<in> h5"
    using owns_InrD [OF 6(9) stage_5_owns] 6(10,11,12) by simp
  then have "B_clear_mask \<in> h6"
    using owns_InrD [OF 6(13) stage_6_owns] 6(14) by simp
  then show ?case by simp
qed

lemma pass_1_unreadable:
  assumes "GetInputLine C P1 0 0 = None" and "0 < size_l (input s)" and "0 < nband (input s)"
  shows "pass_1 C s = None"
proof -
  have rows: "[0..<size_l (input s)] = 0 # [Suc 0..<size_l (input s)]"
    using assms(2) by (simp add: upt_conv_Cons)
  have bands: "[0..<nband (input s)] = 0 # [Suc 0..<nband (input s)]"
    using assms(3) by (simp add: upt_conv_Cons)
  have "read_bands_therm C P1 0 (input s) = None"
    by (simp add: read_bands_therm_def read_bands_def bands assms(1))
  then show ?thesis
    by (simp add: pass_1_def row_pass_def rows with_input_def)
qed

lemma operation_unreadable:
  assumes "alloc_succeeds C B_clear_mask" and "GetInputLine C P1 0 0 = None"
    and "0 < size_l inp" and "0 < nband inp"
  shows "potential_cloud_shadow_snow_mask C inp cloud_prob_threshold pm cm
         = FAILURE IoFailure {B_clear_mask}"
proof -
  have "pass_1 C \<lparr>input = inp, pixel_mask = pm, conf_mask = cm, clear_mask = (\<lambda>i. 0)\<rparr> = None"
    using assms by (intro pass_1_unreadable) simp_all
  then show ?thesis
    using assms(1) by (simp add: potential_cloud_shadow_snow_mask_def stage_1_def calloc_def)
qed

lemma p1_pixel_counters:
  fixes sv row col
  defines "inp \<equiv> substitute_therm col (substitute_bands BI_REFL_BAND_COUNT col (input (fst sv)))"
  shows "image_data_counter (snd (p1_pixel row col sv))
           = image_data_counter (snd sv) + (if is_fill inp col then 0 else 1)"
    and "clear_pixel_counter (snd (p1_pixel row col sv))
           = clear_pixel_counter (snd sv)
             + (if is_fill inp col \<or> cloud_chain inp col then 0 else 1)"
  by (simp_all add: p1_pixel_def Let_def inp_def classify_pixel_cloud)

lemma same_meta_row_buffer_left [simp]:
  "same_meta (row_buffer C p row b) a = same_meta b a"
  by (simp add: same_meta_def row_buffer_def)

lemma pass_1_counters:
  assumes run: "pass_1 C s = Some sv'" and nb: "BI_REFL_BAND_COUNT \<le> nband (input s)"
  shows "image_data_counter (snd sv')
           = (\<Sum>row < size_l (input s). \<Sum>col < size_s (input s). p1_data C (input s) row col)"
    and "clear_pixel_counter (snd sv')
           = (\<Sum>row < size_l (input s). \<Sum>col < size_s (input s). p1_clear C (input s) row col)"
    and "same_meta (input s) (input (fst sv'))"
proof -
  let ?S = "size_s (input s)"
  let ?v0 = "\<lparr>whiteness = Fin 0, image_data_counter = 0, clear_pixel_counter = 0,
              clear_land_pixel_counter = 0, clear_water_pixel_counter = 0\<rparr>"
  define d where "d = p1_data C (input s)"
  define e where "e = p1_clear C (input s)"
  define I where "I = (\<lambda>k (sv :: state \<times> p1_vars).
      same_meta (input s) (input (fst sv))
      \<and> image_data_counter (snd sv) = (\<Sum>row < k. \<Sum>col < ?S. d row col)
      \<and> clear_pixel_counter (snd sv) = (\<Sum>row < k. \<Sum>col < ?S. e row col))"
  define J where "J = (\<lambda>k j (sv :: state \<times> p1_vars).
      same_meta (input s) (input (fst sv))
      \<and> image_data_counter (snd sv) = (\<Sum>row < k. \<Sum>col < ?S. d row col) + (\<Sum>col < j. d k col)
      \<and> clear_pixel_counter (snd sv) = (\<Sum>row < k. \<Sum>col < ?S. e row col) + (\<Sum>col < j. e k col)
      \<and> (\<forall>c\<ge>j. pixel_agree c (row_buffer C P1 k (input s)) (input (fst sv))))"
  have "I (size_l (input s)) sv'"
  proof (rule row_pass_rule [where I = I and J = J, OF run [unfolded pass_1_def]])
    show "I 0 (s, ?v0)"
      by (simp add: I_def)
  next
    fix row sv inp1
    assume Irow: "I row sv" and read: "read_bands_therm C P1 row (input (fst sv)) = Some inp1"
    have meta: "same_meta (input s) (input (fst sv))"
      using Irow by (simp add: I_def)
    then have nb': "BI_REFL_BAND_COUNT \<le> nband (input (fst sv))"
      using nb by (simp add: same_meta_def)
    have "same_meta (input s) inp1"
      using meta read_bands_therm_meta [OF read] by (rule same_meta_trans)
    moreover have "pixel_agree c (row_buffer C P1 row (input s)) inp1" for c
      using read_bands_therm_row_buffer [OF read nb'] by (rule pixel_agree_sym)
    ultimately show "J row 0 ((fst sv)\<lparr>input := inp1\<rparr>, snd sv)"
      using Irow by (simp add: I_def J_def)
  next
    fix row col sv
    assume Jc: "J row col sv"
    let ?inp = "substitute_therm col (substitute_bands BI_REFL_BAND_COUNT col (input (fst sv)))"
    have meta: "same_meta (input s) (input (fst sv))"
      and agree: "\<And>c. col \<le> c \<Longrightarrow> pixel_agree c (row_buffer C P1 row (input s)) (input (fst sv))"
      using Jc by (simp_all add: J_def)
    have here: "pixel_agree col (p1_input C (input s) row col) ?inp"
      unfolding p1_input_def
      using meta by (intro pixel_agree_substitute agree) simp_all
    have meta': "same_meta (p1_input C (input s) row col) ?inp"
      using meta by (simp add: p1_input_def)
    have fill: "is_fill ?inp col = is_fill (p1_input C (input s) row col) col"
      using here by (simp add: is_fill_cong)
    have cloud: "cloud_chain ?inp col = cloud_chain (p1_input C (input s) row col) col"
      using here meta' by (simp add: cloud_chain_cong)
    have "same_meta (input s) (input (fst (p1_pixel row col sv)))"
      using meta p1_pixel_meta by (rule same_meta_trans)
    moreover have "pixel_agree c (row_buffer C P1 row (input s)) (input (fst (p1_pixel row col sv)))"
      if "Suc col \<le> c" for c
    proof -
      have "col \<noteq> c" and "col \<le> c"
        using that by simp_all
      then show ?thesis
        using agree p1_pixel_col col_agree_pixel_agree pixel_agree_trans by blast
    qed
    ultimately show "J row (Suc col) (p1_pixel row col sv)"
      using Jc by (simp add: J_def p1_pixel_counters fill cloud d_def e_def p1_data_def p1_clear_def)
  next
    fix row sv
    assume "J row ?S sv"
    then show "I (Suc row) sv"
      by (simp add: I_def J_def)
  qed
  then show "image_data_counter (snd sv')
           = (\<Sum>row < size_l (input s). \<Sum>col < size_s (input s). p1_data C (input s) row col)"
    and "clear_pixel_counter (snd sv')
           = (\<Sum>row < size_l (input s). \<Sum>col < size_s (input s). p1_clear C (input s) row col)"
    and "same_meta (input s) (input (fst sv'))"
    by (simp_all add: I_def d_def e_def)
qed

lemma pixel_index_cases:
  fixes i L S :: nat
  assumes "i < L * S"
  obtains row col where "row < L" and "col < S" and "i = row * S + col"
proof -
  have "0 < S"
    using assms by (cases S) simp_all
  then have "i mod S < S" and "i = (i div S) * S + i mod S"
    by simp_all
  moreover have "i div S < L"
    using assms by (simp add: less_mult_imp_div_less)
  ultimately show thesis
    using that by blast
qed

lemma overcast_values:
  "overcast_lines 0 0 = 2000" "overcast_lines (Suc 0) 0 = 2000" "overcast_lines 2 0 = 2000"
  "overcast_lines 3 0 = 1000" "overcast_lines 4 0 = 1000" "overcast_lines 5 0 = 400"
  "overcast_therm 0 = 2000"
  "overcast_lines ib (Suc 0) = - 9999" "overcast_therm (Suc 0) = - 9999"
  by (simp_all add: overcast_lines_def overcast_therm_def)

lemma overcast_is_fill:
  "\<not> is_fill (p1_input overcast_collab (scene_input 2) 0 0) 0"
  "is_fill (p1_input overcast_collab (scene_input 2) 0 (Suc 0)) (Suc 0)"
  by (simp_all add: is_fill_def overcast_collab_def scene_p1_input band_defs overcast_values
      FILL_PIXEL_def)

lemma overcast_cloud_chain:
  "cloud_chain (p1_input overcast_collab (scene_input 2) 0 0) 0"
  by (simp add: chain_defs overcast_collab_def scene_p1_input band_defs overcast_values
      float_defs)

lemma sum_below:
  fixes g :: "nat \<Rightarrow> int"
  shows "(\<Sum>k < 1. g k) = g 0" "(\<Sum>k < 2. g k) = g 0 + g (Suc 0)"
    "(\<Sum>k < 3. g k) = g 0 + g (Suc 0) + g 2"
  by (simp_all add: numeral_2_eq_2 numeral_3_eq_3 lessThan_Suc)

lemma overcast_counters:
  assumes "pass_1 overcast_collab (entry_state (scene_input 2) pm cm) = Some (s1, v1)"
  shows "image_data_counter v1 = 1" and "clear_pixel_counter v1 = 0"
  using pass_1_counters(1,2) [OF assms]
  by (simp_all add: BI_REFL_BAND_COUNT_def p1_data_def p1_clear_def overcast_is_fill
      overcast_cloud_chain sum_below)

lemma all_cloud_test_0: "all_cloud_test (percent_of 0 1)"
  by (simp add: all_cloud_test_def percent_of_def float_defs)

section \<open>Pass 6 at one pixel\<close>

lemma p6_pixel_col:
  "col \<noteq> c \<Longrightarrow> col_agree c (input (fst sv)) (input (fst (p6_pixel f g row col sv)))"
  by (simp add: p6_pixel_def Let_def col_agree_def buf_substitute_band)

lemma p6_pixel_frame:
  "row * size_s (input (fst sv)) + col \<noteq> i \<Longrightarrow>
   masks_at i (fst (p6_pixel f g row col sv)) = masks_at i (fst sv)"
  by (simp add: p6_pixel_def Let_def masks_at_def)

lemma pass_6_at:
  assumes run: "pass_6 C f g s = Some sv'"
    and r: "row < size_l (input s)" and c: "col < size_s (input s)"
    and i: "i = row * size_s (input s) + col"
  shows "\<exists>x y. pixel_mask (fst sv') i =
                  (if bit_set (pixel_mask s i) CF_FILL_BIT then pixel_mask s i
                   else p6_byte (f i) x (g i) y (pixel_mask s i))
               \<and> conf_mask (fst sv') i =
                  (if bit_set (pixel_mask s i) CF_FILL_BIT then CF_FILL_PIXEL else conf_mask s i)"
proof -
  let ?S = "size_s (input s)"
  have "\<exists>inp0 inp1 sv.
           read_bands_therm C P6 row inp0 = Some inp1 \<and> same_meta (input (fst (s, ()))) inp1
           \<and> same_meta inp1 (input (fst sv)) \<and> col_agree col inp1 (input (fst sv))
           \<and> masks_at (row * ?S + col) (fst sv) = masks_at (row * ?S + col) (fst (s, ()))
           \<and> masks_at (row * ?S + col) (fst sv')
               = masks_at (row * ?S + col) (fst (p6_pixel f g row col sv))"
    using run [unfolded pass_6_def] r c
    by (rule row_pass_at)
       (simp_all add: read_bands_therm_meta p6_pixel_meta p6_pixel_col p6_pixel_frame)
  then obtain inp1 sv where m1: "same_meta (input s) inp1"
    and m2: "same_meta inp1 (input (fst sv))"
    and before: "masks_at i (fst sv) = masks_at i s"
    and after: "masks_at i (fst sv') = masks_at i (fst (p6_pixel f g row col sv))"
    using i by auto
  have S: "size_s (input (fst sv)) = ?S"
    using same_meta_trans [OF m1 m2] by (simp add: same_meta_def)
  have pm: "pixel_mask (fst sv) i = pixel_mask s i" and cm: "conf_mask (fst sv) i = conf_mask s i"
    using before by (simp_all add: masks_at_def)
  let ?inp = "substitute_band col BI_SWIR_1 (substitute_band col BI_NIR (input (fst sv)))"
  have "pixel_mask (fst sv') i = pixel_mask (fst (p6_pixel f g row col sv)) i"
    and "conf_mask (fst sv') i = conf_mask (fst (p6_pixel f g row col sv)) i"
    using after by (simp_all add: masks_at_def)
  then have "pixel_mask (fst sv') i =
               (if bit_set (pixel_mask s i) CF_FILL_BIT then pixel_mask s i
                else p6_byte (f i) (buf ?inp BI_NIR col) (g i) (buf ?inp BI_SWIR_1 col)
                       (pixel_mask s i))"
    and "conf_mask (fst sv') i =
               (if bit_set (pixel_mask s i) CF_FILL_BIT then CF_FILL_PIXEL else conf_mask s i)"
    using pm cm by (simp_all add: p6_pixel_def Let_def S i [symmetric])
  then show ?thesis
    by blast
qed

lemma pass_1_meta: "pass_1 C s = Some sv' \<Longrightarrow> same_meta (input s) (input (fst sv'))"
  unfolding pass_1_def
proof (drule row_pass_effect [where R = "\<lambda>s s'. same_meta (input s) (input s')"])
  show "same_meta (input a) (input b) \<Longrightarrow> same_meta (input b) (input c)
        \<Longrightarrow> same_meta (input a) (input c)" for a b c :: state
    by (rule same_meta_trans)
  show "read_bands_therm C P1 row (input s) = Some x \<Longrightarrow> same_meta (input s) (input (s\<lparr>input := x\<rparr>))"
    for row s x
    by (simp add: read_bands_therm_meta)
  show "same_meta (input (fst sv)) (input (fst (p1_pixel row col sv)))" for row col sv
    by (rule p1_pixel_meta)
qed simp_all

lemma full_path_fill_bit:
  assumes "pass_4_effect s1 s5" and "pass_6 C f g s5 = Some (s6, ())"
  shows "bit_set (pixel_mask s6 i) CF_FILL_BIT = bit_set (pixel_mask s1 i) CF_FILL_BIT"
    and "bit_set (pixel_mask s1 i) CF_FILL_BIT \<Longrightarrow> pixel_mask s6 i = pixel_mask s1 i"
proof -
  have 4: "p4_keeps (pixel_mask s1 i) (pixel_mask s5 i)"
    using assms(1) by (simp add: pass_4_effect_def)
  have 6: "p6_keeps (pixel_mask s5 i) (pixel_mask s6 i)"
    using pass_6_keeps [OF assms(2)] by (simp add: pass_6_effect_def)
  show "bit_set (pixel_mask s6 i) CF_FILL_BIT = bit_set (pixel_mask s1 i) CF_FILL_BIT"
    using 4 6 by (simp add: p4_keeps_def p6_keeps_def)
  show "pixel_mask s6 i = pixel_mask s1 i" if "bit_set (pixel_mask s1 i) CF_FILL_BIT"
    using 4 6 that by (simp add: p4_keeps_def p6_keeps_def)
qed

lemma overcast_run:
  "floats_of (potential_cloud_shadow_snow_mask overcast_collab (scene_input 2) (Fin (45 / 2))
                (\<lambda>i. 0) (\<lambda>i. 0)) = Some (Fin 0, Fin (- 1), Fin (- 1))
   \<and> pixel_mask_at (potential_cloud_shadow_snow_mask overcast_collab (scene_input 2)
                      (Fin (45 / 2)) (\<lambda>i. 0) (\<lambda>i. 0)) 1
       = Some (CF_FILL_BIT OR CF_SHADOW_BIT)"
proof -
  have rel: "reliable overcast_collab"
    by (simp add: overcast_collab_def)
  obtain r where run: "potential_cloud_shadow_snow_mask overcast_collab (scene_input 2)
                         (Fin (45 / 2)) (\<lambda>i. 0) (\<lambda>i. 0) = SUCCESS r"
    using reliable_operation [OF rel] by blast
  from run show ?thesis
  proof (cases rule: operation_SUCCESS_cases)
    case (shortcut s1 v1)
    have "pixel_mask s1 1 = CF_FILL_BIT"
      using pass_1_fill [OF shortcut(1), of 0 "Suc 0"]
      by (simp add: BI_REFL_BAND_COUNT_def overcast_is_fill)
    then have "r_pixel_mask r 1 = CF_FILL_BIT OR CF_SHADOW_BIT"
      by (simp add: shortcut(4) all_cloud_at set_bit_if_def bit_set_def CF_FILL_BIT_def
          CF_CLOUD_BIT_def CF_SHADOW_BIT_def)
    moreover have "r_clear_ptm r = Fin 0"
      by (simp add: shortcut(2) overcast_counters [OF shortcut(1)] percent_of_def float_defs)
    ultimately show ?thesis
      by (simp add: run floats_of_def pixel_mask_at_def shortcut(6,7))
  next
    case (full s1 v1 s5 f g s6)
    then show ?thesis
      using all_cloud_test_0 by (simp add: overcast_counters [OF full(1)])
  qed
qed

section \<open>The FILL bit\<close>

lemma pass_1_fill_bit:
  assumes run: "pass_1 C s = Some sv'"
    and i: "i < size_l (input s) * size_s (input s)"
    and entry: "\<not> bit_set (pixel_mask s i) CF_FILL_BIT"
    and fill: "bit_set (pixel_mask (fst sv') i) CF_FILL_BIT"
  shows "pixel_mask (fst sv') i = CF_FILL_BIT"
proof -
  let ?S = "size_s (input s)"
  let ?v0 = "\<lparr>whiteness = Fin 0, image_data_counter = 0, clear_pixel_counter = 0,
              clear_land_pixel_counter = 0, clear_water_pixel_counter = 0\<rparr>"
  obtain row col where r: "row < size_l (input s)" and c: "col < ?S" and idx: "i = row * ?S + col"
    using i by (rule pixel_index_cases)
  have "\<exists>inp0 inp1 sv.
           read_bands_therm C P1 row inp0 = Some inp1 \<and> same_meta (input (fst (s, ?v0))) inp1
           \<and> same_meta inp1 (input (fst sv)) \<and> col_agree col inp1 (input (fst sv))
           \<and> masks_at (row * ?S + col) (fst sv) = masks_at (row * ?S + col) (fst (s, ?v0))
           \<and> masks_at (row * ?S + col) (fst sv')
               = masks_at (row * ?S + col) (fst (p1_pixel row col sv))"
    using run [unfolded pass_1_def] r c
    by (rule row_pass_at)
       (simp_all add: read_bands_therm_meta p1_pixel_meta p1_pixel_col p1_pixel_frame)
  then obtain inp1 sv where m1: "same_meta (input s) inp1"
    and m2: "same_meta inp1 (input (fst sv))"
    and before: "masks_at i (fst sv) = masks_at i s"
    and after: "masks_at i (fst sv') = masks_at i (fst (p1_pixel row col sv))"
    using idx by auto
  have S: "size_s (input (fst sv)) = ?S"
    using same_meta_trans [OF m1 m2] by (simp add: same_meta_def)
  let ?inp = "substitute_therm col (substitute_bands BI_REFL_BAND_COUNT col (input (fst sv)))"
  have pm: "pixel_mask (fst sv) i = pixel_mask s i"
    using before by (simp add: masks_at_def)
  have "pixel_mask (fst sv') i = pixel_mask (fst (p1_pixel row col sv)) i"
    using after by (simp add: masks_at_def)
  also have "\<dots> = (if is_fill ?inp col then CF_FILL_BIT
                    else fst (classify_pixel ?inp col (pixel_mask s i) (whiteness (snd sv))))"
    using p1_pixel_mask_here [of row col sv] pm by (simp add: S idx [symmetric] Let_def)
  finally have here: "pixel_mask (fst sv') i =
      (if is_fill ?inp col then CF_FILL_BIT
       else fst (classify_pixel ?inp col (pixel_mask s i) (whiteness (snd sv))))" .
  show ?thesis
  proof (cases "is_fill ?inp col")
    case True
    then show ?thesis using here by simp
  next
    case False
    then have "bit_set (pixel_mask (fst sv') i) CF_FILL_BIT = bit_set (pixel_mask s i) CF_FILL_BIT"
      using here by (simp add: classify_pixel_bits)
    then show ?thesis using entry fill by simp
  qed
qed

lemma fill_byte_bits:
  "bit_set CF_FILL_BIT CF_FILL_BIT" "\<not> bit_set CF_FILL_BIT CF_CLOUD_BIT"
  "\<not> bit_set CF_FILL_BIT CF_SHADOW_BIT" "\<not> bit_set CF_FILL_BIT CF_SNOW_BIT"
  "\<not> bit_set CF_FILL_BIT CF_WATER_BIT"
  by (simp_all add: bit_set_def CF_FILL_BIT_def CF_CLOUD_BIT_def CF_SHADOW_BIT_def
      CF_SNOW_BIT_def CF_WATER_BIT_def)

section \<open>An image of fill pixels\<close>

lemma pixel_index_less:
  fixes row col L S :: nat
  assumes "row < L" and "col < S"
  shows "row * S + col < L * S"
proof -
  have "row * S + col < row * S + S"
    using assms(2) by simp
  also have "\<dots> = Suc row * S"
    by simp
  also have "\<dots> \<le> L * S"
    using assms(1) by (intro mult_le_mono1) simp
  finally show ?thesis .
qed

lemma pass_1_fill_clear:
  assumes run: "pass_1 C s = Some sv'"
    and r: "row < size_l (input s)" and c: "col < size_s (input s)"
    and nb: "BI_REFL_BAND_COUNT \<le> nband (input s)"
    and fill: "is_fill (p1_input C (input s) row col) col"
  shows "clear_mask (fst sv') (row * size_s (input s) + col) = CF_CLEAR_FILL_BIT"
proof -
  let ?S = "size_s (input s)"
  let ?idx = "row * ?S + col"
  let ?v0 = "\<lparr>whiteness = Fin 0, image_data_counter = 0, clear_pixel_counter = 0,
              clear_land_pixel_counter = 0, clear_water_pixel_counter = 0\<rparr>"
  have "\<exists>inp0 inp1 sv.
           read_bands_therm C P1 row inp0 = Some inp1 \<and> same_meta (input (fst (s, ?v0))) inp1
           \<and> same_meta inp1 (input (fst sv)) \<and> col_agree col inp1 (input (fst sv))
           \<and> masks_at ?idx (fst sv) = masks_at ?idx (fst (s, ?v0))
           \<and> masks_at ?idx (fst sv') = masks_at ?idx (fst (p1_pixel row col sv))"
    using run [unfolded pass_1_def] r c
    by (rule row_pass_at)
       (simp_all add: read_bands_therm_meta p1_pixel_meta p1_pixel_col p1_pixel_frame)
  then obtain inp0 inp1 sv where read: "read_bands_therm C P1 row inp0 = Some inp1"
    and m1: "same_meta (input s) inp1" and m2: "same_meta inp1 (input (fst sv))"
    and agree: "col_agree col inp1 (input (fst sv))"
    and after: "masks_at ?idx (fst sv') = masks_at ?idx (fst (p1_pixel row col sv))"
    by auto
  have m: "same_meta (input s) (input (fst sv))"
    using m1 m2 by (rule same_meta_trans)
  then have size: "size_s (input (fst sv)) = ?S"
    by (simp add: same_meta_def)
  have "nband inp0 = nband (input s)"
    using read_bands_therm_meta [OF read] m1 by (simp add: same_meta_def)
  then have "pixel_agree col inp1 (row_buffer C P1 row (input s))"
    using read nb by (simp add: read_bands_therm_row_buffer)
  then have "pixel_agree col (input (fst sv)) (row_buffer C P1 row (input s))"
    using agree by (blast intro: pixel_agree_trans pixel_agree_sym col_agree_pixel_agree)
  moreover have "same_meta (input (fst sv)) (row_buffer C P1 row (input s))"
    using m by (simp add: same_meta_sym)
  ultimately have pa: "pixel_agree col
      (substitute_therm col (substitute_bands BI_REFL_BAND_COUNT col (input (fst sv))))
      (p1_input C (input s) row col)"
    unfolding p1_input_def by (simp add: pixel_agree_substitute)
  have "is_fill (substitute_therm col (substitute_bands BI_REFL_BAND_COUNT col (input (fst sv)))) col"
    using is_fill_cong [OF pa] fill by simp
  then have "clear_mask (fst (p1_pixel row col sv)) ?idx = CF_CLEAR_FILL_BIT"
    by (simp add: p1_pixel_def Let_def size)
  then show ?thesis
    using after by (simp add: masks_at_def)
qed

lemma pass_2_all_fill:
  assumes run: "pass_2 C land_bit water_bit s = Some sv'"
    and fill: "\<And>i. i < size_l (input s) * size_s (input s)
                 \<Longrightarrow> bit_set (clear_mask s i) CF_CLEAR_FILL_BIT"
  shows "snd sv' = \<lparr>f_temp = [], f_wtemp = [], f_temp_max = SHRT_MIN, f_temp_min = SHRT_MAX,
                     f_wtemp_max = SHRT_MIN, f_wtemp_min = SHRT_MAX\<rparr>"
proof -
  let ?v0 = "\<lparr>f_temp = [], f_wtemp = [], f_temp_max = SHRT_MIN, f_temp_min = SHRT_MAX,
              f_wtemp_max = SHRT_MIN, f_wtemp_min = SHRT_MAX\<rparr>"
  define I where "I = (\<lambda>(k::nat) (sv :: state \<times> p2_vars).
      snd sv = ?v0 \<and> clear_mask (fst sv) = clear_mask s \<and> same_meta (input s) (input (fst sv)))"
  define J where "J = (\<lambda>(k::nat) (j::nat) (sv :: state \<times> p2_vars). I k sv)"
  have "I (size_l (input s)) sv'"
  proof (rule row_pass_rule [where I = I and J = J, OF run [unfolded pass_2_def]])
    show "I 0 (s, ?v0)"
      by (simp add: I_def)
  next
    fix row sv inp1
    assume "I row sv" and "read_therm C P2 row (input (fst sv)) = Some inp1"
    then show "J row 0 ((fst sv)\<lparr>input := inp1\<rparr>, snd sv)"
      by (auto simp add: I_def J_def dest: read_therm_meta intro: same_meta_trans)
  next
    fix row col sv
    assume row: "row < size_l (input s)" and col: "col < size_s (input s)" and J: "J row col sv"
    have S: "size_s (input (fst sv)) = size_s (input s)"
      using J by (simp add: J_def I_def same_meta_def)
    have "bit_set (clear_mask (fst sv) (row * size_s (input (fst sv)) + col)) CF_CLEAR_FILL_BIT"
      using J fill [OF pixel_index_less [OF row col]] by (simp add: J_def I_def S)
    then have "p2_pixel land_bit water_bit row col sv = sv"
      by (simp add: p2_pixel_def Let_def)
    then show "J row (Suc col) (p2_pixel land_bit water_bit row col sv)"
      using J by (simp add: J_def)
  next
    fix row sv
    assume "J row (size_s (input s)) sv"
    then show "I (Suc row) sv"
      by (simp add: J_def I_def)
  qed
  then show ?thesis
    by (simp add: I_def)
qed

lemma stage_2_thresholds:
  assumes "stage_2 C land_ptm water_ptm s heap0 = Inr (s', th, heap')"
  shows "\<exists>sv templ temph.
           pass_2 C (choose_bit land_ptm CF_CLEAR_LAND_BIT) (choose_bit water_ptm CF_CLEAR_WATER_BIT) s
             = Some sv
           \<and> prctile C (f_temp (snd sv)) (length (f_temp (snd sv)))
                (if f_temp_min (snd sv) = SHRT_MAX then 0 else f_temp_min (snd sv))
                (if f_temp_max (snd sv) = SHRT_MIN then 0 else f_temp_max (snd sv))
                (fmul (Fin 100) l_pt) = Some templ
           \<and> prctile C (f_temp (snd sv)) (length (f_temp (snd sv)))
                (if f_temp_min (snd sv) = SHRT_MAX then 0 else f_temp_min (snd sv))
                (if f_temp_max (snd sv) = SHRT_MIN then 0 else f_temp_max (snd sv))
                (fmul (Fin 100) h_pt) = Some temph
           \<and> t_templ_of th = fsub templ (float_of_int 400)
           \<and> t_temph_of th = fadd temph (float_of_int 400)"
proof -
  let ?lb = "choose_bit land_ptm CF_CLEAR_LAND_BIT"
  let ?wb = "choose_bit water_ptm CF_CLEAR_WATER_BIT"
  obtain ok1 h1 where c1: "calloc C B_f_temp heap0 = (ok1, h1)" by fastforce
  obtain ok2 h2 where c2: "calloc C B_f_wtemp h1 = (ok2, h2)" by fastforce
  note run = assms [unfolded stage_2_def c1 c2 prod.case]
  have ok: "\<not> (\<not> ok1 \<or> \<not> ok2)"
    using run by (auto split: if_splits)
  obtain sv where p2: "pass_2 C ?lb ?wb s = Some sv"
    using run ok by (cases "pass_2 C ?lb ?wb s") (simp_all add: Let_def)
  let ?tmin = "if f_temp_min (snd sv) = SHRT_MAX then 0 else f_temp_min (snd sv)"
  let ?tmax = "if f_temp_max (snd sv) = SHRT_MIN then 0 else f_temp_max (snd sv)"
  let ?wmin = "if f_wtemp_min (snd sv) = SHRT_MAX then 0 else f_wtemp_min (snd sv)"
  let ?wmax = "if f_wtemp_max (snd sv) = SHRT_MIN then 0 else f_wtemp_max (snd sv)"
  let ?p1 = "prctile C (f_temp (snd sv)) (length (f_temp (snd sv))) ?tmin ?tmax (fmul (Fin 100) l_pt)"
  let ?p2 = "prctile C (f_temp (snd sv)) (length (f_temp (snd sv))) ?tmin ?tmax (fmul (Fin 100) h_pt)"
  let ?p3 = "prctile C (f_wtemp (snd sv)) (length (f_wtemp (snd sv))) ?wmin ?wmax (fmul (Fin 100) h_pt)"
  note run2 = run [unfolded Let_def p2 option.case]
  obtain templ where t1: "?p1 = Some templ"
    using run2 ok by (cases ?p1) simp_all
  obtain temph where t2: "?p2 = Some temph"
    using run2 ok t1 by (cases ?p2) simp_all
  obtain wtemp where t3: "?p3 = Some wtemp"
    using run2 ok t1 t2 by (cases ?p3) simp_all
  have "t_templ_of th = fsub templ (float_of_int 400)"
    and "t_temph_of th = fadd temph (float_of_int 400)"
    using run2 ok t1 t2 t3 by auto
  then show ?thesis
    using p2 t1 t2 by blast
qed

lemma operation_thresholds:
  assumes "potential_cloud_shadow_snow_mask C inp cloud_prob_threshold pm cm = SUCCESS r"
    and "\<not> all_cloud_test (r_clear_ptm r)"
  shows "\<exists>s1 v1 s2 th heap2.
           pass_1 C (entry_state inp pm cm) = Some (s1, v1)
           \<and> stage_2 C (percent_of (clear_land_pixel_counter v1) (image_data_counter v1))
                 (percent_of (clear_water_pixel_counter v1) (image_data_counter v1))
                 s1 {B_clear_mask} = Inr (s2, th, heap2)
           \<and> r_t_templ r = t_templ_of th \<and> r_t_temph r = t_temph_of th"
proof -
  from assms(1) obtain s1 v1 heap1
    where 1: "stage_1 C (entry_state inp pm cm) = Inr (s1, v1, heap1)"
    by (auto simp add: potential_cloud_shadow_snow_mask_def entry_state_def split: sum.splits)
  let ?ptm = "percent_of (clear_pixel_counter v1) (image_data_counter v1)"
  let ?l = "percent_of (clear_land_pixel_counter v1) (image_data_counter v1)"
  let ?w = "percent_of (clear_water_pixel_counter v1) (image_data_counter v1)"
  have p1: "pass_1 C (entry_state inp pm cm) = Some (s1, v1)" and heap1: "heap1 = {B_clear_mask}"
    using stage_1_Inr [OF 1] by simp_all
  have ptm: "\<not> all_cloud_test ?ptm"
  proof
    assume "all_cloud_test ?ptm"
    then have "r_clear_ptm r = ?ptm"
      using assms(1) 1
      by (auto simp add: potential_cloud_shadow_snow_mask_def entry_state_def Let_def)
    then show False
      using assms(2) \<open>all_cloud_test ?ptm\<close> by simp
  qed
  then obtain s6 th heap6 where fp: "full_path C cloud_prob_threshold ?l ?w s1 heap1 = Inr (s6, th, heap6)"
    and r: "r = \<lparr>r_clear_ptm = ?ptm, r_t_templ = t_templ_of th, r_t_temph = t_temph_of th,
                   r_pixel_mask = pixel_mask s6, r_conf_mask = conf_mask s6,
                   r_heap = free B_clear_mask heap6\<rparr>"
    using assms(1) 1
    by (auto simp add: potential_cloud_shadow_snow_mask_def entry_state_def Let_def
        split: sum.splits)
  from fp obtain s2 heap2 where "stage_2 C ?l ?w s1 heap1 = Inr (s2, th, heap2)"
    by (auto simp add: full_path_def split: sum.splits)
  then show ?thesis
    using p1 r heap1 by auto
qed

lemma full_path_fill_pixel:
  assumes "pass_4_effect s1 s5" and "pass_6 C f g s5 = Some (s6, ())"
    and "same_meta inp (input s1)" and "i < size_l inp * size_s inp"
    and "pixel_mask s1 i = CF_FILL_BIT"
  shows "pixel_mask s6 i = CF_FILL_BIT" and "conf_mask s6 i = CF_FILL_PIXEL"
proof -
  obtain row col where row: "row < size_l inp" and col: "col < size_s inp"
    and i: "i = row * size_s inp + col"
    using assms(4) by (rule pixel_index_cases)
  have "same_meta (input s1) (input s5)"
    using assms(1) by (simp add: pass_4_effect_def)
  with assms(3) have meta: "same_meta inp (input s5)"
    by (rule same_meta_trans)
  have "p4_keeps (pixel_mask s1 i) (pixel_mask s5 i)"
    using assms(1) by (simp add: pass_4_effect_def)
  then have five: "pixel_mask s5 i = CF_FILL_BIT"
    using assms(5) by (simp add: p4_keeps_def fill_byte_bits)
  have "row < size_l (input s5)" and "col < size_s (input s5)"
    and "i = row * size_s (input s5) + col"
    using meta row col i by (simp_all add: same_meta_def)
  with assms(2) obtain x y
    where "pixel_mask s6 i =
             (if bit_set (pixel_mask s5 i) CF_FILL_BIT then pixel_mask s5 i
              else p6_byte (f i) x (g i) y (pixel_mask s5 i))"
      and "conf_mask s6 i =
             (if bit_set (pixel_mask s5 i) CF_FILL_BIT then CF_FILL_PIXEL else conf_mask s5 i)"
    using pass_6_at [of C f g s5 "(s6, ())" row col i] by auto
  then show "pixel_mask s6 i = CF_FILL_BIT" and "conf_mask s6 i = CF_FILL_PIXEL"
    by (simp_all add: five fill_byte_bits)
qed

lemma fill_scene_is_fill:
  "is_fill (p1_input fill_collab (scene_input 1) 0 0) 0"
  "is_fill (p1_input fill_collab (scene_input (Suc 0)) 0 0) 0"
  by (simp_all add: is_fill_def fill_collab_def scene_p1_input FILL_PIXEL_def)

lemma fill_scene_counters:
  assumes "pass_1 fill_collab (entry_state (scene_input 1) pm cm) = Some (s1, v1)"
  shows "image_data_counter v1 = 0" and "clear_pixel_counter v1 = 0"
  using pass_1_counters(1,2) [OF assms]
  by (simp_all add: BI_REFL_BAND_COUNT_def p1_data_def p1_clear_def fill_scene_is_fill sum_below)

lemma all_cloud_test_NaN: "percent_of 0 0 = NaN" "\<not> all_cloud_test NaN"
  by (simp_all add: all_cloud_test_def percent_of_def float_defs)

lemma fill_run_result:
  "floats_of fill_run = Some (NaN, Fin (- 400), Fin 400)
   \<and> pixel_mask_at fill_run 0 = Some CF_FILL_BIT
   \<and> conf_mask_at fill_run 0 = Some CF_FILL_PIXEL"
proof -
  have rel: "reliable fill_collab"
    by (simp add: fill_collab_def)
  obtain r where run: "potential_cloud_shadow_snow_mask fill_collab (scene_input 1)
                         (Fin (45 / 2)) (\<lambda>i. 0) (\<lambda>i. 0) = SUCCESS r"
    using reliable_operation [OF rel] by blast
  from run have ptm: "r_clear_ptm r = NaN"
    by (cases rule: operation_SUCCESS_cases)
       (simp_all add: fill_scene_counters all_cloud_test_NaN)
  then have full: "\<not> all_cloud_test (r_clear_ptm r)"
    by (simp add: all_cloud_test_NaN)
  from run have masks: "r_pixel_mask r 0 = CF_FILL_BIT \<and> r_conf_mask r 0 = CF_FILL_PIXEL"
  proof (cases rule: operation_SUCCESS_cases)
    case (shortcut s1 v1)
    then show ?thesis
      using full by simp
  next
    case (full s1 v1 s5 f g s6)
    have one: "pixel_mask s1 0 = CF_FILL_BIT"
      using pass_1_fill [OF full(1), of 0 0]
      by (simp add: BI_REFL_BAND_COUNT_def fill_scene_is_fill)
    have meta: "same_meta (scene_input 1) (input s1)"
      using pass_1_meta [OF full(1)] by simp
    show ?thesis
      using full_path_fill_pixel [OF full(4,5) meta _ one] by (simp add: full(6,7))
  qed
  obtain s1 v1 s2 th heap2
    where p1: "pass_1 fill_collab (entry_state (scene_input 1) (\<lambda>i. 0) (\<lambda>i. 0)) = Some (s1, v1)"
      and 2: "stage_2 fill_collab
                (percent_of (clear_land_pixel_counter v1) (image_data_counter v1))
                (percent_of (clear_water_pixel_counter v1) (image_data_counter v1))
                s1 {B_clear_mask} = Inr (s2, th, heap2)"
      and th: "r_t_templ r = t_templ_of th" "r_t_temph r = t_temph_of th"
    using operation_thresholds [OF run full] by blast
  have clear: "clear_mask s1 0 = CF_CLEAR_FILL_BIT"
    using pass_1_fill_clear [OF p1, of 0 0]
    by (simp add: BI_REFL_BAND_COUNT_def fill_scene_is_fill)
  have meta: "same_meta (scene_input 1) (input s1)"
    using pass_1_meta [OF p1] by simp
  from stage_2_thresholds [OF 2] obtain sv templ temph
    where p2: "pass_2 fill_collab
                 (choose_bit (percent_of (clear_land_pixel_counter v1) (image_data_counter v1))
                    CF_CLEAR_LAND_BIT)
                 (choose_bit (percent_of (clear_water_pixel_counter v1) (image_data_counter v1))
                    CF_CLEAR_WATER_BIT) s1 = Some sv"
      and t1: "prctile fill_collab (f_temp (snd sv)) (length (f_temp (snd sv)))
                (if f_temp_min (snd sv) = SHRT_MAX then 0 else f_temp_min (snd sv))
                (if f_temp_max (snd sv) = SHRT_MIN then 0 else f_temp_max (snd sv))
                (fmul (Fin 100) l_pt) = Some templ"
      and t2: "prctile fill_collab (f_temp (snd sv)) (length (f_temp (snd sv)))
                (if f_temp_min (snd sv) = SHRT_MAX then 0 else f_temp_min (snd sv))
                (if f_temp_max (snd sv) = SHRT_MIN then 0 else f_temp_max (snd sv))
                (fmul (Fin 100) h_pt) = Some temph"
      and tt: "t_templ_of th = fsub templ (float_of_int 400)"
              "t_temph_of th = fadd temph (float_of_int 400)"
    by blast
  have vars: "snd sv = \<lparr>f_temp = [], f_wtemp = [], f_temp_max = SHRT_MIN, f_temp_min = SHRT_MAX,
                         f_wtemp_max = SHRT_MIN, f_wtemp_min = SHRT_MAX\<rparr>"
    using p2
  proof (rule pass_2_all_fill)
    fix i
    assume "i < size_l (input s1) * size_s (input s1)"
    moreover have "size_l (input s1) = 1" and "size_s (input s1) = 1"
      using meta by (simp_all add: same_meta_def)
    ultimately have "i = 0"
      by simp
    then show "bit_set (clear_mask s1 i) CF_CLEAR_FILL_BIT"
      by (simp add: clear bit_set_def CF_CLEAR_FILL_BIT_def)
  qed
  have "templ = Fin 0" and "temph = Fin 0"
    using t1 t2 by (simp_all add: vars fill_collab_def scene_collab_def float_defs)
  then have "r_t_templ r = Fin (- 400)" and "r_t_temph r = Fin 400"
    by (simp_all add: th tt float_defs)
  then show ?thesis
    using ptm masks unfolding fill_run_def run
    by (simp add: floats_of_def pixel_mask_at_def conf_mask_at_def)
qed

lemma full_path_run:
  assumes "potential_cloud_shadow_snow_mask C inp cloud_prob_threshold pm cm = SUCCESS r"
    and "\<not> all_cloud_test (r_clear_ptm r)"
  obtains s1 v1 s5 f g s6 where "pass_1 C (entry_state inp pm cm) = Some (s1, v1)"
    and "pass_4_effect s1 s5"
    and "pass_6_entry C inp cloud_prob_threshold pm cm = Some (s5, f, g)"
    and "pass_6 C f g s5 = Some (s6, ())"
    and "r_pixel_mask r = pixel_mask s6" and "r_conf_mask r = conf_mask s6"
proof -
  from assms(1) obtain s1 v1 heap1
    where 1: "stage_1 C (entry_state inp pm cm) = Inr (s1, v1, heap1)"
    by (auto simp add: potential_cloud_shadow_snow_mask_def entry_state_def split: sum.splits)
  let ?ptm = "percent_of (clear_pixel_counter v1) (image_data_counter v1)"
  let ?l = "percent_of (clear_land_pixel_counter v1) (image_data_counter v1)"
  let ?w = "percent_of (clear_water_pixel_counter v1) (image_data_counter v1)"
  have p1: "pass_1 C (entry_state inp pm cm) = Some (s1, v1)"
    using stage_1_Inr(1) [OF 1] by simp
  have ptm: "\<not> all_cloud_test ?ptm"
  proof
    assume "all_cloud_test ?ptm"
    then have "r_clear_ptm r = ?ptm"
      using assms(1) 1
      by (auto simp add: potential_cloud_shadow_snow_mask_def entry_state_def Let_def)
    then show False
      using assms(2) \<open>all_cloud_test ?ptm\<close> by simp
  qed
  then obtain s6 th heap6
    where fp: "full_path C cloud_prob_threshold ?l ?w s1 heap1 = Inr (s6, th, heap6)"
      and r: "r = \<lparr>r_clear_ptm = ?ptm, r_t_templ = t_templ_of th, r_t_temph = t_temph_of th,
                     r_pixel_mask = pixel_mask s6, r_conf_mask = conf_mask s6,
                     r_heap = free B_clear_mask heap6\<rparr>"
    using assms(1) 1
    by (auto simp add: potential_cloud_shadow_snow_mask_def entry_state_def Let_def
        split: sum.splits)
  from fp obtain s2 heap2 s3 pr heap3 s4 heap4 s5 f g heap5
    where 2: "stage_2 C ?l ?w s1 heap1 = Inr (s2, th, heap2)"
      and 3: "stage_3 C th s2 heap2 = Inr (s3, pr, heap3)"
      and 4: "stage_4 C cloud_prob_threshold th pr s3 heap3 = Inr (s4, heap4)"
      and 5: "stage_5 C th s4 heap4 = Inr (s5, f, g, heap5)"
      and 6: "stage_6 C f g s5 heap5 = Inr (s6, heap6)"
    by (auto simp add: full_path_def split: sum.splits)
  have "pass_4_effect s1 s5"
    using stage_2_Inr(1) [OF 2] stage_3_Inr [OF 3] stage_4_Inr [OF 4] stage_5_Inr [OF 5]
    by (blast intro: pass_4_effect_trans unchanged_pass_4_effect)
  moreover have "pass_6_entry C inp cloud_prob_threshold pm cm = Some (s5, f, g)"
    by (simp add: pass_6_entry_def 1 2 3 4 5)
  moreover have "pass_6 C f g s5 = Some (s6, ())"
    using 6 by (rule stage_6_Inr)
  ultimately show thesis
    using p1 r by (intro that [of s1 v1 s5 f g s6]) simp_all
qed

lemma pass_6_cloud_and_water:
  assumes run: "pass_6 C f g s = Some sv'"
    and i: "i < size_l (input s) * size_s (input s)"
    and fill: "bit_set (pixel_mask s i) CF_FILL_BIT \<Longrightarrow> pixel_mask s i = CF_FILL_BIT"
  shows "bit_set (pixel_mask (fst sv') i) CF_CLOUD_BIT = bit_set (pixel_mask s i) CF_CLOUD_BIT"
    and "bit_set (pixel_mask (fst sv') i) CF_WATER_BIT
           = (bit_set (pixel_mask s i) CF_WATER_BIT \<and> \<not> bit_set (pixel_mask s i) CF_CLOUD_BIT)"
proof -
  obtain row col where "row < size_l (input s)" and "col < size_s (input s)"
    and "i = row * size_s (input s) + col"
    using i by (rule pixel_index_cases)
  with run obtain x y
    where at: "pixel_mask (fst sv') i =
                 (if bit_set (pixel_mask s i) CF_FILL_BIT then pixel_mask s i
                  else p6_byte (f i) x (g i) y (pixel_mask s i))"
    using pass_6_at [of C f g s sv' row col i] by auto
  show "bit_set (pixel_mask (fst sv') i) CF_CLOUD_BIT = bit_set (pixel_mask s i) CF_CLOUD_BIT"
    by (simp add: at p6_byte_bits)
  show "bit_set (pixel_mask (fst sv') i) CF_WATER_BIT
           = (bit_set (pixel_mask s i) CF_WATER_BIT \<and> \<not> bit_set (pixel_mask s i) CF_CLOUD_BIT)"
    using fill by (auto simp add: at p6_byte_bits fill_byte_bits)
qed

lemma full_path_fill_byte:
  assumes "pass_1 C (entry_state inp pm cm) = Some (s1, v1)" and "pass_4_effect s1 s5"
    and "i < size_l inp * size_s inp" and "\<not> bit_set (pm i) CF_FILL_BIT"
    and "bit_set (pixel_mask s5 i) CF_FILL_BIT"
  shows "pixel_mask s5 i = CF_FILL_BIT"
proof -
  have keeps: "p4_keeps (pixel_mask s1 i) (pixel_mask s5 i)"
    using assms(2) by (simp add: pass_4_effect_def)
  then have "bit_set (pixel_mask s1 i) CF_FILL_BIT"
    using assms(5) by (simp add: p4_keeps_def)
  moreover from this have "pixel_mask s1 i = CF_FILL_BIT"
    using pass_1_fill_bit [OF assms(1), of i] assms(3,4) by simp
  ultimately show ?thesis
    using keeps by (simp add: p4_keeps_def)
qed

section \<open>The FILL bit on the full path\<close>

text \<open>
  On the full path a pixel whose FILL bit was clear at entry and is set at the return
  carries no other bit, after pass 1 and at the return, and pass 6 has written
  \<open>FILL_PIXEL\<close> to its \<open>conf_mask\<close>: passes 4 and 6 test the FILL bit before they write.
\<close>

lemma fill_exclusive_on_full_path:
  assumes "potential_cloud_shadow_snow_mask C inp cloud_prob_threshold pm cm = SUCCESS r"
    and "\<not> all_cloud_test (r_clear_ptm r)"
    and "i < size_l inp * size_s inp"
    and "\<not> bit_set (pm i) CF_FILL_BIT"
    and "bit_set (r_pixel_mask r i) CF_FILL_BIT"
  shows "r_pixel_mask r i = CF_FILL_BIT
         \<and> \<not> bit_set (r_pixel_mask r i) CF_CLOUD_BIT \<and> \<not> bit_set (r_pixel_mask r i) CF_SHADOW_BIT
         \<and> \<not> bit_set (r_pixel_mask r i) CF_SNOW_BIT \<and> \<not> bit_set (r_pixel_mask r i) CF_WATER_BIT
         \<and> r_conf_mask r i = CF_FILL_PIXEL
         \<and> (\<exists>s1 v1. pass_1 C (entry_state inp pm cm) = Some (s1, v1)
               \<and> pixel_mask s1 i = CF_FILL_BIT)"
  using assms(1)
proof (cases rule: operation_SUCCESS_cases)
  case (shortcut s1 v1)
  then show ?thesis
    using assms(2) by simp
next
  case (full s1 v1 s5 f g s6)
  obtain row col where row: "row < size_l inp" and col: "col < size_s inp"
    and i: "i = row * size_s inp + col"
    using assms(3) by (rule pixel_index_cases)
  have "same_meta inp (input s1)"
    using pass_1_meta [OF full(1)] by simp
  moreover have "same_meta (input s1) (input s5)"
    using full(4) by (simp add: pass_4_effect_def)
  ultimately have meta: "same_meta inp (input s5)"
    by (rule same_meta_trans)
  have fill1: "bit_set (pixel_mask s1 i) CF_FILL_BIT"
    using full_path_fill_bit(1) [OF full(4,5), of i] assms(5) by (simp add: full(6))
  have one: "pixel_mask s1 i = CF_FILL_BIT"
    using pass_1_fill_bit [OF full(1), of i] assms(3,4) fill1 by simp
  have "p4_keeps (pixel_mask s1 i) (pixel_mask s5 i)"
    using full(4) by (simp add: pass_4_effect_def)
  then have five: "pixel_mask s5 i = CF_FILL_BIT"
    using fill1 one by (simp add: p4_keeps_def)
  have "row < size_l (input s5)" and "col < size_s (input s5)"
    and "i = row * size_s (input s5) + col"
    using meta row col i by (simp_all add: same_meta_def)
  with full(5) obtain x y
    where "pixel_mask s6 i =
             (if bit_set (pixel_mask s5 i) CF_FILL_BIT then pixel_mask s5 i
              else p6_byte (f i) x (g i) y (pixel_mask s5 i))"
      and "conf_mask s6 i =
             (if bit_set (pixel_mask s5 i) CF_FILL_BIT then CF_FILL_PIXEL else conf_mask s5 i)"
    using pass_6_at [of C f g s5 "(s6, ())" row col i] by auto
  then have "pixel_mask s6 i = CF_FILL_BIT" and "conf_mask s6 i = CF_FILL_PIXEL"
    by (simp_all add: five fill_byte_bits)
  then show ?thesis
    using full(1) one by (simp add: full(6,7) fill_byte_bits)
qed

section \<open>A run on the full path, stage by stage\<close>

lemma full_path_stages:
  assumes "potential_cloud_shadow_snow_mask C inp cloud_prob_threshold pm cm = SUCCESS r"
    and "\<not> all_cloud_test (r_clear_ptm r)"
  obtains s1 v1 s2 th heap2 s3 pr heap3 s4 heap4 s5 f g heap5
  where "pass_1 C (entry_state inp pm cm) = Some (s1, v1)"
    and "stage_2 C (percent_of (clear_land_pixel_counter v1) (image_data_counter v1))
           (percent_of (clear_water_pixel_counter v1) (image_data_counter v1))
           s1 {B_clear_mask} = Inr (s2, th, heap2)"
    and "stage_3 C th s2 heap2 = Inr (s3, pr, heap3)"
    and "stage_4 C cloud_prob_threshold th pr s3 heap3 = Inr (s4, heap4)"
    and "stage_5 C th s4 heap4 = Inr (s5, f, g, heap5)"
    and "pass_6_entry C inp cloud_prob_threshold pm cm = Some (s5, f, g)"
proof -
  from assms(1) obtain s1 v1 heap1
    where 1: "stage_1 C (entry_state inp pm cm) = Inr (s1, v1, heap1)"
    by (auto simp add: potential_cloud_shadow_snow_mask_def entry_state_def split: sum.splits)
  let ?ptm = "percent_of (clear_pixel_counter v1) (image_data_counter v1)"
  let ?l = "percent_of (clear_land_pixel_counter v1) (image_data_counter v1)"
  let ?w = "percent_of (clear_water_pixel_counter v1) (image_data_counter v1)"
  have p1: "pass_1 C (entry_state inp pm cm) = Some (s1, v1)" and heap1: "heap1 = {B_clear_mask}"
    using stage_1_Inr [OF 1] by simp_all
  have ptm: "\<not> all_cloud_test ?ptm"
  proof
    assume "all_cloud_test ?ptm"
    then have "r_clear_ptm r = ?ptm"
      using assms(1) 1
      by (auto simp add: potential_cloud_shadow_snow_mask_def entry_state_def Let_def)
    then show False
      using assms(2) \<open>all_cloud_test ?ptm\<close> by simp
  qed
  then obtain s6 th heap6
    where fp: "full_path C cloud_prob_threshold ?l ?w s1 heap1 = Inr (s6, th, heap6)"
    using assms(1) 1
    by (auto simp add: potential_cloud_shadow_snow_mask_def entry_state_def Let_def
        split: sum.splits)
  from fp obtain s2 heap2 s3 pr heap3 s4 heap4 s5 f g heap5
    where 2: "stage_2 C ?l ?w s1 heap1 = Inr (s2, th, heap2)"
      and 3: "stage_3 C th s2 heap2 = Inr (s3, pr, heap3)"
      and 4: "stage_4 C cloud_prob_threshold th pr s3 heap3 = Inr (s4, heap4)"
      and 5: "stage_5 C th s4 heap4 = Inr (s5, f, g, heap5)"
    by (auto simp add: full_path_def split: sum.splits)
  have "pass_6_entry C inp cloud_prob_threshold pm cm = Some (s5, f, g)"
    by (simp add: pass_6_entry_def 1 2 3 4 5)
  then show thesis
    using p1 2 3 4 5 heap1 by (intro that [of s1 v1 s2 th heap2 s3 pr heap3 s4 heap4 s5 f g heap5]) simp_all
qed

lemma stage_4_pass:
  assumes "stage_4 C cloud_prob_threshold th pr s heap0 = Inr (s', heap')"
  shows "\<exists>clr wclr. pass_4 C (t_templ_of th) (t_buffer_of th) clr wclr pr s = Some (s', ())"
  using assms
  apply (auto simp add: stage_4_def calloc_def Let_def split: if_splits option.splits)
  apply blast
  done

lemma pass_4_cold:
  assumes run: "pass_4 C t_templ t_buffer clr wclr pr s = Some sv'"
    and r: "row < size_l (input s)" and c: "col < size_s (input s)"
    and i: "i = row * size_s (input s) + col"
    and fill: "\<not> bit_set (pixel_mask s i) CF_FILL_BIT"
    and cold: "flt (float_of_int16 (p4_thermal C (input s) row col))
                 (fsub (fadd t_templ (float_of_int t_buffer)) (Fin 3500))"
  shows "pixel_mask (fst sv') i = pixel_mask s i OR CF_CLOUD_BIT"
proof -
  from pass_4_at [OF run r c] obtain sv
    where S: "size_s (input (fst sv)) = size_s (input s)"
      and th: "therm_buf (substitute_therm col (input (fst sv))) col = p4_thermal C (input s) row col"
      and before: "masks_at i (fst sv) = masks_at i s"
      and after: "masks_at i (fst sv')
                    = masks_at i (fst (p4_pixel t_templ t_buffer clr wclr pr row col sv))"
    using i by auto
  have pm: "pixel_mask (fst sv) i = pixel_mask s i"
    using before by (simp add: masks_at_def)
  have "pixel_mask (fst sv') i = pixel_mask (fst (p4_pixel t_templ t_buffer clr wclr pr row col sv)) i"
    using after by (simp add: masks_at_def)
  also have "\<dots> = pixel_mask s i OR CF_CLOUD_BIT"
    using fill cold pm by (simp add: p4_pixel_def Let_def S i [symmetric] th)
  finally show ?thesis .
qed

section \<open>The cold scene\<close>

lemma p1_input_prctile [simp]: "p1_input (C\<lparr>prctile := f\<rparr>) = p1_input C"
  by (simp add: fun_eq_iff p1_input_def row_buffer_def)

lemma p4_thermal_scene:
  assumes "same_meta (scene_input n) inp"
  shows "p4_thermal ((scene_collab lines therm)\<lparr>prctile := f\<rparr>) inp row col
           = (if therm col = 20000 then 5000 else therm col)"
  using assms
  by (simp add: p4_thermal_def row_buffer_def scene_collab_def scene_input_def same_meta_def
      therm_buf_substitute_therm)

lemma cold_values:
  "cold_therm 0 = - 2000" "cold_therm (Suc 0) = 2500" "cold_therm 2 = - 9999"
  by (simp_all add: cold_therm_def demo_therm_def)

lemma cold_is_fill:
  "\<not> is_fill (p1_input cold_collab (scene_input 3) 0 0) 0"
  "\<not> is_fill (p1_input cold_collab (scene_input 3) 0 (Suc 0)) (Suc 0)"
  "is_fill (p1_input cold_collab (scene_input 3) 0 2) 2"
  by (simp_all add: is_fill_def cold_collab_def scene_p1_input band_defs demo_values cold_values
      FILL_PIXEL_def)

lemma cold_cloud_chain:
  "cloud_chain (p1_input cold_collab (scene_input 3) 0 0) 0"
  "\<not> cloud_chain (p1_input cold_collab (scene_input 3) 0 (Suc 0)) (Suc 0)"
  by (simp_all add: chain_defs cold_collab_def scene_p1_input band_defs demo_values cold_values
      float_defs)

lemma cold_water_test:
  "water_test (p1_input cold_collab (scene_input 3) 0 0) 0"
  by (simp add: water_test_def ndvi_of_def cold_collab_def scene_p1_input band_defs
      demo_values float_defs)

lemma cold_counters:
  assumes "pass_1 cold_collab (entry_state (scene_input 3) pm cm) = Some (s1, v1)"
  shows "image_data_counter v1 = 2" and "clear_pixel_counter v1 = 1"
  using pass_1_counters(1,2) [OF assms]
  by (simp_all add: BI_REFL_BAND_COUNT_def p1_data_def p1_clear_def cold_is_fill
      cold_cloud_chain sum_below)

lemma reliable_cold: "reliable cold_collab"
  by (simp add: reliable_def cold_collab_def scene_collab_def)

lemma cold_run_entry:
  "\<exists>r s5 f g.
     potential_cloud_shadow_snow_mask cold_collab (scene_input 3) (Fin (45 / 2))
       (\<lambda>i. 0) (\<lambda>i. 0) = SUCCESS r
     \<and> r_clear_ptm r = Fin 50
     \<and> pass_6_entry cold_collab (scene_input 3) (Fin (45 / 2)) (\<lambda>i. 0) (\<lambda>i. 0)
         = Some (s5, f, g)
     \<and> bit_set (pixel_mask s5 0) CF_WATER_BIT \<and> bit_set (pixel_mask s5 0) CF_CLOUD_BIT"
proof -
  obtain r where run: "potential_cloud_shadow_snow_mask cold_collab (scene_input 3)
                         (Fin (45 / 2)) (\<lambda>i. 0) (\<lambda>i. 0) = SUCCESS r"
    using reliable_operation [OF reliable_cold] by blast
  from run have ptm: "r_clear_ptm r = Fin 50"
    by (cases rule: operation_SUCCESS_cases)
       (simp_all add: cold_counters percent_of_def float_defs)
  then have full: "\<not> all_cloud_test (r_clear_ptm r)"
    by (simp add: all_cloud_test_def float_defs)
  from run full obtain s1 v1 s2 th heap2 s3 pr heap3 s4 heap4 s5 f g heap5
    where p1: "pass_1 cold_collab (entry_state (scene_input 3) (\<lambda>i. 0) (\<lambda>i. 0)) = Some (s1, v1)"
      and 2: "stage_2 cold_collab
                (percent_of (clear_land_pixel_counter v1) (image_data_counter v1))
                (percent_of (clear_water_pixel_counter v1) (image_data_counter v1))
                s1 {B_clear_mask} = Inr (s2, th, heap2)"
      and 3: "stage_3 cold_collab th s2 heap2 = Inr (s3, pr, heap3)"
      and 4: "stage_4 cold_collab (Fin (45 / 2)) th pr s3 heap3 = Inr (s4, heap4)"
      and 5: "stage_5 cold_collab th s4 heap4 = Inr (s5, f, g, heap5)"
      and entry: "pass_6_entry cold_collab (scene_input 3) (Fin (45 / 2)) (\<lambda>i. 0) (\<lambda>i. 0)
                    = Some (s5, f, g)"
    by (rule full_path_stages)
  have bits1: "bit_set (pixel_mask s1 0) CF_WATER_BIT" "\<not> bit_set (pixel_mask s1 0) CF_FILL_BIT"
    using pass_1_bits(3,4) [OF p1, of 0 0 0]
    by (simp_all add: BI_REFL_BAND_COUNT_def cold_is_fill cold_water_test bit_set_def)
  have u13: "unchanged s1 s3"
    using stage_2_Inr(1) [OF 2] stage_3_Inr [OF 3] by (rule unchanged_trans)
  have "same_meta (scene_input 3) (input s1)"
    using pass_1_meta [OF p1] by simp
  moreover have "same_meta (input s1) (input s3)"
    using u13 by (simp add: unchanged_def)
  ultimately have meta3: "same_meta (scene_input 3) (input s3)"
    by (rule same_meta_trans)
  have pm3: "pixel_mask s3 0 = pixel_mask s1 0"
    using u13 by (simp add: unchanged_def)
  from stage_2_thresholds [OF 2] have templ: "t_templ_of th = fsub (Fin 2500) (float_of_int 400)"
    by (auto simp add: cold_collab_def)
  have buffer: "t_buffer_of th = 400"
    using 2 by (rule stage_2_Inr(2))
  from stage_4_pass [OF 4] obtain clr wclr
    where p4: "pass_4 cold_collab (t_templ_of th) (t_buffer_of th) clr wclr pr s3 = Some (s4, ())"
    by blast
  have "pixel_mask (fst (s4, ())) 0 = pixel_mask s3 0 OR CF_CLOUD_BIT"
    using p4
  proof (rule pass_4_cold [where row = 0 and col = 0])
    show "0 < size_l (input s3)" "0 < size_s (input s3)" "0 = 0 * size_s (input s3) + 0"
      using meta3 by (simp_all add: same_meta_def)
    show "\<not> bit_set (pixel_mask s3 0) CF_FILL_BIT"
      using bits1 by (simp add: pm3)
    show "flt (float_of_int16 (p4_thermal cold_collab (input s3) 0 0))
            (fsub (fadd (t_templ_of th) (float_of_int (t_buffer_of th))) (Fin 3500))"
      unfolding cold_collab_def p4_thermal_scene [OF meta3] templ buffer
      by (simp add: cold_values float_defs)
  qed
  then have "pixel_mask s4 0 = pixel_mask s1 0 OR CF_CLOUD_BIT"
    by (simp add: pm3)
  moreover have "pixel_mask s5 = pixel_mask s4"
    using stage_5_Inr [OF 5] by (simp add: unchanged_def)
  ultimately have "bit_set (pixel_mask s5 0) CF_WATER_BIT" and "bit_set (pixel_mask s5 0) CF_CLOUD_BIT"
    using bits1(1) by (simp_all add: bit_set_or_same bit_set_or_other bits_nonzero bits_disjoint)
  then show ?thesis
    using run ptm entry by blast
qed

section \<open>The claims\<close>

text \<open>
  Claim C1. For every non-fill pixel, after pass 1 the CLOUD bit of \<open>pixel_mask\<close> is set
  if and only if the four chained tests pass: the basic test (NDSI and NDVI below 0.8,
  SWIR2 above 300, thermal below 2700), the whiteness test (below 0.7), the haze test
  (HOT above 0, or a saturated visible band) and the ratio test (SWIR1 not 0 and
  NIR/SWIR1 above 0.75), every float comparison with \<open>MINSIGMA\<close>. The pixel is the row
  as pass 1 read it, after saturation substitution; the image has its six reflective
  bands.
\<close>

theorem cloud_bit_after_pass_1:
  assumes "pass_1 C s = Some sv'"
    and "row < size_l (input s)" and "col < size_s (input s)"
    and "BI_REFL_BAND_COUNT \<le> nband (input s)"
    and "\<not> is_fill (p1_input C (input s) row col) col"
  shows "bit_set (pixel_mask (fst sv') (row * size_s (input s) + col)) CF_CLOUD_BIT
           = cloud_chain (p1_input C (input s) row col) col"
  using pass_1_at [OF assms(1-4)] assms(5) by (auto simp add: classify_pixel_cloud)

theorem cloud_bit_after_pass_1_witness:
  "bit_set (pixel_mask (fst (the (pass_1 demo_collab demo_state))) 0) CF_CLOUD_BIT
   \<and> \<not> bit_set (pixel_mask (fst (the (pass_1 demo_collab demo_state))) 1) CF_CLOUD_BIT"
proof -
  obtain sv' where run: "pass_1 demo_collab demo_state = Some sv'"
    using reliable_pass_1 [of demo_collab demo_state] by (auto simp add: demo_collab_def)
  have inp: "input demo_state = scene_input 3"
    by (simp add: demo_state_def)
  have size: "size_l (scene_input 3) = 1" "size_s (scene_input 3) = 3" "nband (scene_input 3) = 6"
    by (simp_all add: scene_input_def)
  show ?thesis
    using cloud_bit_after_pass_1 [OF run, of 0 0] cloud_bit_after_pass_1 [OF run, of 0 1]
    by (simp add: run inp size demo_is_fill demo_cloud_chain BI_REFL_BAND_COUNT_def)
qed

text \<open>
  Claim C6, as stated, fails: at a non-fill, non-water pixel whose visible mean is 0,
  pass 1 computes the whiteness 100 and pass 3 computes 0.
\<close>

theorem p3_whiteness_counterexample:
  "\<not> is_fill zero_mean_input 0
   \<and> \<not> bit_set (fst (classify_pixel zero_mean_input 0 0 (Fin 0))) CF_WATER_BIT
   \<and> snd (classify_pixel zero_mean_input 0 0 (Fin 0)) = Fin 100
   \<and> p3_whiteness zero_mean_input 0 = Fin 0"
proof -
  have "\<not> is_fill zero_mean_input 0"
    by (simp add: is_fill_def band_defs zero_mean_values FILL_PIXEL_def)
  moreover have "\<not> bit_set (fst (classify_pixel zero_mean_input 0 0 (Fin 0))) CF_WATER_BIT"
    unfolding classify_pixel_def Let_def
    by (simp add: bit_set_same bit_set_other bit_set_and_not_other bits_nonzero bits_disjoint
        ndvi_of_def band_defs zero_mean_values float_defs)
  moreover have "snd (classify_pixel zero_mean_input 0 0 (Fin 0)) = Fin 100"
    by (simp add: classify_pixel_whiteness chain_defs band_defs zero_mean_values float_defs)
  moreover have "p3_whiteness zero_mean_input 0 = Fin 0"
    by (simp add: p3_whiteness_eq chain_defs band_defs zero_mean_values float_defs)
  ultimately show ?thesis by simp
qed

text \<open>
  Claim C6, amended. Whenever pass 1 computes a whiteness for a pixel (the basic cloud
  test passed, or a visible band is saturated), it is the whiteness pass 3 computes from
  the same band inputs, with the same saturation override, except when the visible mean
  is 0 and no visible band is saturated: there pass 1 has 100 and pass 3 has 0.
\<close>

theorem p3_whiteness_agrees_with_p1:
  "(basic_cloud_test inp col \<or> visible_saturated inp col \<longrightarrow>
      snd (classify_pixel inp col pm w) =
        (if \<not> visible_saturated inp col \<and> \<not> fne (visi_mean_of inp col) (Fin 0) then Fin 100
         else p3_whiteness inp col))
   \<and> (\<not> visible_saturated inp col \<and> \<not> fne (visi_mean_of inp col) (Fin 0) \<longrightarrow>
        p3_whiteness inp col = Fin 0)"
  by (auto simp add: classify_pixel_whiteness p3_whiteness_eq p1_whiteness_def)

theorem p3_whiteness_agrees_with_p1_witness:
  "basic_cloud_test demo_input 1
   \<and> snd (classify_pixel demo_input 1 0 (Fin 0)) = Fin (2 / 5)
   \<and> p3_whiteness demo_input 1 = Fin (2 / 5)"
proof -
  have b: "basic_cloud_test demo_input 1"
    by (simp add: chain_defs band_defs demo_input_values demo_values float_defs)
  have v: "fne (visi_mean_of demo_input 1) (Fin 0)" "\<not> visible_saturated demo_input 1"
    by (simp_all add: chain_defs band_defs demo_input_values demo_values float_defs)
  have p3: "p3_whiteness demo_input 1 = Fin (2 / 5)"
    by (simp add: p3_whiteness_def Let_def chain_defs band_defs demo_input_values demo_values
        float_defs)
  show ?thesis
    using p3_whiteness_agrees_with_p1 [of demo_input 1 0 "Fin 0"] b v p3 by simp
qed

text \<open>
  Claim C8. Pass 6 is idempotent at every pixel: with the same filled rasters
  \<open>filled_nir_data\<close> and \<open>filled_swir1_data\<close> and the same row buffers, applying the
  per-pixel step of pass 6 (shadow from the smaller residual above 200, \<open>conf_mask\<close>
  set to \<open>CF_FILL_PIXEL\<close> on fill, WATER cleared where CLOUD is set) a second time
  changes nothing: the state, and so \<open>pixel_mask\<close> and \<open>conf_mask\<close>, is the one the first
  application left.
\<close>

theorem p6_pixel_idempotent:
  "p6_pixel filled_nir_data filled_swir1_data row col
     (p6_pixel filled_nir_data filled_swir1_data row col sv)
   = p6_pixel filled_nir_data filled_swir1_data row col sv"
  by (simp add: p6_pixel_def Let_def substitute_band_twice p6_byte_bits p6_byte_idem
      buf_substitute_band)

text \<open>
  Claim C2. For every non-fill pixel, with the thermal sample after saturation
  substitution, pass 4 assigns HIGH and sets CLOUD exactly when the first test holds
  (CLOUD, not WATER and \<open>final_prob > clr_mask\<close>; or CLOUD, WATER and
  \<open>wfinal_prob > wclr_mask\<close>; or thermal below \<open>t_templ + 400 - 3500\<close>); otherwise MED
  with CLOUD cleared when the second test holds (the same with both thresholds lowered
  by 10); otherwise LOW with CLOUD cleared. So after pass 4 HIGH goes with CLOUD set, and
  MED or LOW with CLOUD cleared.
\<close>

theorem confidence_after_pass_4:
  assumes "pass_4 C t_templ (4 * 100) clr_mask wclr_mask pr s = Some sv'"
    and "row < size_l (input s)" and "col < size_s (input s)"
    and "i = row * size_s (input s) + col"
    and "\<not> bit_set (pixel_mask s i) CF_FILL_BIT"
  shows "(if high_confidence t_templ clr_mask wclr_mask pr i (pixel_mask s i)
              (p4_thermal C (input s) row col)
          then conf_mask (fst sv') i = CLOUD_CONFIDENCE_HIGH
               \<and> bit_set (pixel_mask (fst sv') i) CF_CLOUD_BIT
          else if medium_confidence clr_mask wclr_mask pr i (pixel_mask s i)
          then conf_mask (fst sv') i = CLOUD_CONFIDENCE_MED
               \<and> \<not> bit_set (pixel_mask (fst sv') i) CF_CLOUD_BIT
          else conf_mask (fst sv') i = CLOUD_CONFIDENCE_LOW
               \<and> \<not> bit_set (pixel_mask (fst sv') i) CF_CLOUD_BIT)
         \<and> (conf_mask (fst sv') i = CLOUD_CONFIDENCE_HIGH
              \<longrightarrow> bit_set (pixel_mask (fst sv') i) CF_CLOUD_BIT)
         \<and> (conf_mask (fst sv') i = CLOUD_CONFIDENCE_MED
             \<or> conf_mask (fst sv') i = CLOUD_CONFIDENCE_LOW
              \<longrightarrow> \<not> bit_set (pixel_mask (fst sv') i) CF_CLOUD_BIT)"
proof -
  obtain sv where size: "size_s (input (fst sv)) = size_s (input s)"
    and therm: "therm_buf (substitute_therm col (input (fst sv))) col
                  = p4_thermal C (input s) row col"
    and before: "masks_at i (fst sv) = masks_at i s"
    and after: "masks_at i (fst sv')
                  = masks_at i (fst (p4_pixel t_templ (4 * 100) clr_mask wclr_mask pr row col sv))"
    using pass_4_at [OF assms(1-3)] assms(4) by auto
  have pm: "pixel_mask (fst sv) i = pixel_mask s i"
    using before by (simp add: masks_at_def)
  have idx: "row * size_s (input (fst sv)) + col = i"
    using size assms(4) by simp
  have levels: "CLOUD_CONFIDENCE_HIGH \<noteq> CLOUD_CONFIDENCE_MED"
    "CLOUD_CONFIDENCE_HIGH \<noteq> CLOUD_CONFIDENCE_LOW" "CLOUD_CONFIDENCE_MED \<noteq> CLOUD_CONFIDENCE_LOW"
    by (simp_all add: CLOUD_CONFIDENCE_HIGH_def CLOUD_CONFIDENCE_MED_def
        CLOUD_CONFIDENCE_LOW_def)
  have "pixel_mask (fst sv') i
          = pixel_mask (fst (p4_pixel t_templ (4 * 100) clr_mask wclr_mask pr row col sv)) i"
    and "conf_mask (fst sv') i
          = conf_mask (fst (p4_pixel t_templ (4 * 100) clr_mask wclr_mask pr row col sv)) i"
    using after by (simp_all add: masks_at_def)
  then show ?thesis
    using assms(5) levels
    by (simp add: p4_pixel_def Let_def idx pm therm high_confidence_def medium_confidence_def
        float_of_int_def bit_set_or_same bit_set_and_not_same bits_nonzero)
qed


theorem confidence_after_pass_4_witness:
  "conf_mask (fst (the (pass_4 demo_collab (Fin 2100) (4 * 100) (Fin (45 / 2)) (Fin (45 / 2))
                         demo_probs demo_p4_state))) 0 = CLOUD_CONFIDENCE_HIGH
   \<and> bit_set (pixel_mask (fst (the (pass_4 demo_collab (Fin 2100) (4 * 100) (Fin (45 / 2))
                                       (Fin (45 / 2)) demo_probs demo_p4_state))) 0) CF_CLOUD_BIT
   \<and> conf_mask (fst (the (pass_4 demo_collab (Fin 2100) (4 * 100) (Fin (45 / 2)) (Fin (45 / 2))
                             demo_probs demo_p4_state))) 1 = CLOUD_CONFIDENCE_LOW"
proof -
  have "\<exists>sv'. pass_4 demo_collab (Fin 2100) (4 * 100) (Fin (45 / 2)) (Fin (45 / 2))
                demo_probs demo_p4_state = Some sv'"
    by (rule reliable_pass_4) (simp add: demo_collab_def)
  then obtain sv' where run: "pass_4 demo_collab (Fin 2100) (4 * 100) (Fin (45 / 2))
                                (Fin (45 / 2)) demo_probs demo_p4_state = Some sv'"
    by blast
  have inp: "input demo_p4_state = scene_input 3"
    "size_l (scene_input 3) = 1" "size_s (scene_input 3) = 3"
    by (simp_all add: demo_p4_state_def demo_state_def scene_input_def)
  have pm: "pixel_mask demo_p4_state 0 = 18" "pixel_mask demo_p4_state (Suc 0) = 0"
    by (simp_all add: demo_p4_state_def)
  have bits: "bit_set 18 CF_CLOUD_BIT" "bit_set 18 CF_WATER_BIT" "\<not> bit_set 18 CF_FILL_BIT"
    "\<not> bit_set 0 CF_CLOUD_BIT" "\<not> bit_set 0 CF_FILL_BIT"
    by (simp_all add: bit_set_def CF_CLOUD_BIT_def CF_WATER_BIT_def CF_FILL_BIT_def)
  have therm: "p4_thermal demo_collab (scene_input 3) 0 (Suc 0) = 2500"
    by (simp add: p4_thermal_def row_buffer_def demo_collab_def scene_collab_def scene_input_def
        therm_buf_substitute_therm demo_values)
  have high: "high_confidence (Fin 2100) (Fin (45 / 2)) (Fin (45 / 2)) demo_probs 0 18
                (p4_thermal demo_collab (scene_input 3) 0 0)"
    by (simp add: high_confidence_def bits demo_probs_def float_defs)
  have low: "\<not> high_confidence (Fin 2100) (Fin (45 / 2)) (Fin (45 / 2)) demo_probs (Suc 0) 0
                (p4_thermal demo_collab (scene_input 3) 0 (Suc 0))"
    "\<not> medium_confidence (Fin (45 / 2)) (Fin (45 / 2)) demo_probs (Suc 0) 0"
    by (simp_all add: high_confidence_def medium_confidence_def bits therm float_defs)
  have the_run: "the (pass_4 demo_collab (Fin 2100) (4 * 100) (Fin (45 / 2)) (Fin (45 / 2))
                        demo_probs demo_p4_state) = sv'"
    using run by simp
  show ?thesis
    unfolding the_run
    using confidence_after_pass_4 [OF run, of 0 0 0] confidence_after_pass_4 [OF run, of 0 1 1]
    by (simp add: inp pm bits high low)
qed

text \<open>
  Claim C10. The SNOW bit is written in pass 1 only: at every pixel, the SNOW bit of
  \<open>pixel_mask\<close> at a successful return, by the all-cloud shortcut or by passes 2 to 6, is
  the SNOW bit pass 1 left.
\<close>

theorem snow_bit_written_in_pass_1_only:
  assumes "potential_cloud_shadow_snow_mask C inp cloud_prob_threshold pm cm = SUCCESS r"
    and "pass_1 C (entry_state inp pm cm) = Some sv1"
  shows "bit_set (r_pixel_mask r i) CF_SNOW_BIT = bit_set (pixel_mask (fst sv1) i) CF_SNOW_BIT"
  using assms(1)
proof (cases rule: operation_SUCCESS_cases)
  case (shortcut s1 v1)
  then show ?thesis
    using assms(2) by (simp add: all_cloud_bits bits_disjoint)
next
  case (full s1 v1 s5 f g s6)
  have "p4_keeps (pixel_mask s1 i) (pixel_mask s5 i)"
    using full(4) by (simp add: pass_4_effect_def)
  moreover have "p6_keeps (pixel_mask s5 i) (pixel_mask s6 i)"
    using pass_6_keeps [OF full(5)] by (simp add: pass_6_effect_def)
  ultimately show ?thesis
    using full(1,6) assms(2) by (simp add: p4_keeps_def p6_keeps_def)
qed

theorem snow_bit_written_in_pass_1_only_witness:
  "bit_set (the (pixel_mask_at (potential_cloud_shadow_snow_mask demo_collab (scene_input 4)
                                   (Fin (45 / 2)) (\<lambda>i. 0) (\<lambda>i. 0)) 3)) CF_SNOW_BIT
   \<and> \<not> bit_set (the (pixel_mask_at (potential_cloud_shadow_snow_mask demo_collab (scene_input 4)
                                       (Fin (45 / 2)) (\<lambda>i. 0) (\<lambda>i. 0)) 1)) CF_SNOW_BIT"
proof -
  have rel: "reliable demo_collab"
    by (simp add: demo_collab_def)
  obtain r where run: "potential_cloud_shadow_snow_mask demo_collab (scene_input 4)
                         (Fin (45 / 2)) (\<lambda>i. 0) (\<lambda>i. 0) = SUCCESS r"
    using reliable_operation [OF rel] by blast
  obtain sv1 where p1: "pass_1 demo_collab (entry_state (scene_input 4) (\<lambda>i. 0) (\<lambda>i. 0)) = Some sv1"
    using reliable_passes(1) [OF rel] by blast
  have "bit_set (pixel_mask (fst sv1) 3) CF_SNOW_BIT"
    using pass_1_bits(2) [OF p1, of 0 3 3]
    by (simp add: demo_is_fill_4 demo_snow_test BI_REFL_BAND_COUNT_def)
  moreover have "\<not> bit_set (pixel_mask (fst sv1) 1) CF_SNOW_BIT"
    using pass_1_bits(2) [OF p1, of 0 1 1]
    by (simp add: demo_is_fill_4 demo_snow_test BI_REFL_BAND_COUNT_def)
  ultimately show ?thesis
    using snow_bit_written_in_pass_1_only [OF run p1, of 3]
      snow_bit_written_in_pass_1_only [OF run p1, of 1]
    by (simp add: run pixel_mask_at_def)
qed

text \<open>
  Claim C9 asks that every failure path release all the buffers the operation owns.
  The code does the opposite: \<open>RETURN_ERROR\<close> returns at once, and the only releases on a
  failure path are those of the two filled rasters after a failed flood fill. Whenever the
  operation fails after \<open>clear_mask\<close> was allocated, \<open>clear_mask\<close> is still allocated at the
  return.
\<close>

theorem failure_keeps_clear_mask_allocated:
  assumes "potential_cloud_shadow_snow_mask C inp cloud_prob_threshold pm cm = FAILURE e heap"
    and "alloc_succeeds C B_clear_mask"
  shows "B_clear_mask \<in> heap"
proof -
  let ?s0 = "\<lparr>input = inp, pixel_mask = pm, conf_mask = cm, clear_mask = (\<lambda>i. 0)\<rparr>"
  note one = stage_1_owns [OF assms(2), of ?s0]
  show ?thesis
  proof (cases "stage_1 C ?s0")
    case (Inl f)
    then show ?thesis
      using assms(1) owns_InlD [OF Inl one]
      by (simp add: potential_cloud_shadow_snow_mask_def)
  next
    case (Inr t1)
    obtain s1 v1 heap1 where t1: "t1 = (s1, v1, heap1)"
      by (cases t1) auto
    have heap1: "B_clear_mask \<in> heap1"
      using owns_InrD [OF Inr one] t1 by simp
    define l where "l = percent_of (clear_land_pixel_counter v1) (image_data_counter v1)"
    define w where "w = percent_of (clear_water_pixel_counter v1) (image_data_counter v1)"
    from assms(1) obtain f
      where "full_path C cloud_prob_threshold l w s1 heap1 = Inl f" and "heap = snd f"
      by (auto simp add: potential_cloud_shadow_snow_mask_def Inr t1 Let_def l_def w_def
            split: if_splits sum.splits)
    then show ?thesis
      using owns_InlD full_path_owns [OF heap1] by blast
  qed
qed

theorem failure_keeps_clear_mask_allocated_witness:
  "alloc_succeeds unreadable_collab B_clear_mask
   \<and> potential_cloud_shadow_snow_mask unreadable_collab (scene_input 3) (Fin (45 / 2))
         (\<lambda>i. 0) (\<lambda>i. 0) = FAILURE IoFailure {B_clear_mask}
   \<and> B_clear_mask \<in> {B_clear_mask}"
proof -
  have a: "alloc_succeeds unreadable_collab B_clear_mask"
    by (simp add: unreadable_collab_def demo_collab_def scene_collab_def)
  have run: "potential_cloud_shadow_snow_mask unreadable_collab (scene_input 3) (Fin (45 / 2))
               (\<lambda>i. 0) (\<lambda>i. 0) = FAILURE IoFailure {B_clear_mask}"
    by (rule operation_unreadable [OF a]) (simp_all add: unreadable_collab_def)
  from a run failure_keeps_clear_mask_allocated [OF run a] show ?thesis
    by (intro conjI)
qed

text \<open>
  Claim C4 has the all-cloud shortcut set SHADOW on non-fill pixels only. The loop of
  lines 364-371 does not look at the FILL bit: on the overcast scene the operation takes
  the shortcut (\<open>clear_ptm\<close> is 0, both temperatures are -1) and the fill pixel, which
  pass 1 left with the FILL bit alone, is returned with FILL and SHADOW.
\<close>

theorem all_cloud_shortcut_marks_fill_pixel:
  "floats_of (potential_cloud_shadow_snow_mask overcast_collab (scene_input 2) (Fin (45 / 2))
                (\<lambda>i. 0) (\<lambda>i. 0)) = Some (Fin 0, Fin (- 1), Fin (- 1))
   \<and> pixel_mask_at (potential_cloud_shadow_snow_mask overcast_collab (scene_input 2)
                      (Fin (45 / 2)) (\<lambda>i. 0) (\<lambda>i. 0)) 1
       = Some (CF_FILL_BIT OR CF_SHADOW_BIT)"
  by (rule overcast_run)

text \<open>
  Claim C5 expects the all-fill image to take the all-cloud shortcut, with \<open>clear_ptm\<close> 0
  and both temperatures -1. Pass 1 counts no image pixel, so line 342 divides 0.0 by 0.0:
  \<open>clear_ptm\<close> is a NaN, the test of line 359 is false, and the full path runs. With the
  percentile of an empty sample being 0, the temperatures returned are -400 and 400. The
  masks are as the claim has them.
\<close>

theorem all_fill_image_takes_full_path:
  "floats_of fill_run = Some (NaN, Fin (- 400), Fin 400)
   \<and> pixel_mask_at fill_run 0 = Some CF_FILL_BIT
   \<and> conf_mask_at fill_run 0 = Some CF_FILL_PIXEL"
  by (rule fill_run_result)

text \<open>
  Claim C3 has a pixel whose FILL bit is set carry no other bit, on the shortcut path
  too. There the loop of lines 364-371 tests the CLOUD bit only: on the overcast scene,
  entered with zeroed masks, the operation takes the shortcut (\<open>clear_ptm\<close> is 0) and
  returns the fill pixel with FILL and SHADOW both set.
\<close>

theorem fill_pixel_not_exclusive_on_shortcut:
  "map_option fst (floats_of (potential_cloud_shadow_snow_mask overcast_collab (scene_input 2)
                                (Fin (45 / 2)) (\<lambda>i. 0) (\<lambda>i. 0))) = Some (Fin 0)
   \<and> map_option (\<lambda>b. (bit_set b CF_FILL_BIT, bit_set b CF_SHADOW_BIT))
        (pixel_mask_at (potential_cloud_shadow_snow_mask overcast_collab (scene_input 2)
                          (Fin (45 / 2)) (\<lambda>i. 0) (\<lambda>i. 0)) 1) = Some (True, True)"
proof -
  have "bit_set (CF_FILL_BIT OR CF_SHADOW_BIT) CF_FILL_BIT"
    "bit_set (CF_FILL_BIT OR CF_SHADOW_BIT) CF_SHADOW_BIT"
    by (simp_all add: bit_set_def CF_FILL_BIT_def CF_SHADOW_BIT_def)
  then show ?thesis
    using overcast_run by simp
qed

text \<open>
  Claim C7. On the full six-pass path, at every pixel of the image (its FILL bit clear in
  the mask the caller passes), WATER and CLOUD are never both set after pass 6. Against
  the state \<open>s5\<close> with which this run reaches pass 6, pass 6 leaves CLOUD as the pixel
  entered it and keeps WATER only where CLOUD is not set: a pixel that enters pass 6 with
  both set leaves it with WATER cleared and CLOUD set.
\<close>

theorem water_cloud_after_pass_6:
  assumes "potential_cloud_shadow_snow_mask C inp cloud_prob_threshold pm cm = SUCCESS r"
    and "\<not> all_cloud_test (r_clear_ptm r)"
    and "i < size_l inp * size_s inp"
    and "\<not> bit_set (pm i) CF_FILL_BIT"
  shows "\<not> (bit_set (r_pixel_mask r i) CF_WATER_BIT \<and> bit_set (r_pixel_mask r i) CF_CLOUD_BIT)
         \<and> (\<exists>s5 f g. pass_6_entry C inp cloud_prob_threshold pm cm = Some (s5, f, g)
               \<and> map_option (\<lambda>sv. pixel_mask (fst sv)) (pass_6 C f g s5) = Some (r_pixel_mask r)
               \<and> bit_set (r_pixel_mask r i) CF_CLOUD_BIT = bit_set (pixel_mask s5 i) CF_CLOUD_BIT
               \<and> bit_set (r_pixel_mask r i) CF_WATER_BIT
                   = (bit_set (pixel_mask s5 i) CF_WATER_BIT
                      \<and> \<not> bit_set (pixel_mask s5 i) CF_CLOUD_BIT)
               \<and> (bit_set (pixel_mask s5 i) CF_WATER_BIT \<and> bit_set (pixel_mask s5 i) CF_CLOUD_BIT
                    \<longrightarrow> \<not> bit_set (r_pixel_mask r i) CF_WATER_BIT
                        \<and> bit_set (r_pixel_mask r i) CF_CLOUD_BIT))"
  using assms(1,2)
proof (rule full_path_run)
  fix s1 v1 s5 f g s6
  assume p1: "pass_1 C (entry_state inp pm cm) = Some (s1, v1)"
    and eff: "pass_4_effect s1 s5"
    and entry: "pass_6_entry C inp cloud_prob_threshold pm cm = Some (s5, f, g)"
    and p6: "pass_6 C f g s5 = Some (s6, ())"
    and r: "r_pixel_mask r = pixel_mask s6"
  have "same_meta inp (input s1)"
    using pass_1_meta [OF p1] by simp
  moreover have "same_meta (input s1) (input s5)"
    using eff by (simp add: pass_4_effect_def)
  ultimately have "same_meta inp (input s5)"
    by (rule same_meta_trans)
  then have i: "i < size_l (input s5) * size_s (input s5)"
    using assms(3) by (simp add: same_meta_def)
  have fill: "pixel_mask s5 i = CF_FILL_BIT" if "bit_set (pixel_mask s5 i) CF_FILL_BIT"
    using p1 eff assms(3,4) that by (rule full_path_fill_byte)
  have cloud: "bit_set (r_pixel_mask r i) CF_CLOUD_BIT = bit_set (pixel_mask s5 i) CF_CLOUD_BIT"
    and water: "bit_set (r_pixel_mask r i) CF_WATER_BIT
                  = (bit_set (pixel_mask s5 i) CF_WATER_BIT
                     \<and> \<not> bit_set (pixel_mask s5 i) CF_CLOUD_BIT)"
    using pass_6_cloud_and_water [OF p6 i fill] by (simp_all add: r)
  then have "\<not> (bit_set (r_pixel_mask r i) CF_WATER_BIT \<and> bit_set (r_pixel_mask r i) CF_CLOUD_BIT)"
    and "bit_set (pixel_mask s5 i) CF_WATER_BIT \<and> bit_set (pixel_mask s5 i) CF_CLOUD_BIT
           \<longrightarrow> \<not> bit_set (r_pixel_mask r i) CF_WATER_BIT
               \<and> bit_set (r_pixel_mask r i) CF_CLOUD_BIT"
    by simp_all
  moreover have "map_option (\<lambda>sv. pixel_mask (fst sv)) (pass_6 C f g s5) = Some (r_pixel_mask r)"
    by (simp add: p6 r)
  ultimately show ?thesis
    using entry cloud water by blast
qed

theorem water_cloud_after_pass_6_witness:
  "map_option fst (floats_of cold_run) = Some (Fin 50)
   \<and> map_option (\<lambda>e. (bit_set (pixel_mask (fst e) 0) CF_WATER_BIT,
                         bit_set (pixel_mask (fst e) 0) CF_CLOUD_BIT))
        (pass_6_entry cold_collab (scene_input 3) (Fin (45 / 2)) (\<lambda>i. 0) (\<lambda>i. 0))
       = Some (True, True)
   \<and> map_option (\<lambda>b. (bit_set b CF_WATER_BIT, bit_set b CF_CLOUD_BIT))
        (pixel_mask_at cold_run 0) = Some (False, True)"
proof -
  from cold_run_entry obtain r s5 f g
    where run: "potential_cloud_shadow_snow_mask cold_collab (scene_input 3) (Fin (45 / 2))
                  (\<lambda>i. 0) (\<lambda>i. 0) = SUCCESS r"
      and ptm: "r_clear_ptm r = Fin 50"
      and entry: "pass_6_entry cold_collab (scene_input 3) (Fin (45 / 2)) (\<lambda>i. 0) (\<lambda>i. 0)
                    = Some (s5, f, g)"
      and both: "bit_set (pixel_mask s5 0) CF_WATER_BIT" "bit_set (pixel_mask s5 0) CF_CLOUD_BIT"
    by blast
  have full: "\<not> all_cloud_test (r_clear_ptm r)"
    by (simp add: ptm all_cloud_test_def float_defs)
  have "\<not> bit_set (r_pixel_mask r 0) CF_WATER_BIT" and "bit_set (r_pixel_mask r 0) CF_CLOUD_BIT"
    using water_cloud_after_pass_6 [OF run full, of 0] entry both
    by (auto simp add: bit_set_def)
  then show ?thesis
    using ptm both unfolding cold_run_def run entry
    by (simp add: floats_of_def pixel_mask_at_def)
qed

end
